(* ===== verification/Prelude.thy ===== *)
theory Prelude
  imports Main "HOL-Library.Word"
begin

text \<open>
  Shared vocabulary of the development: machine integers at their width, the outcome type of a C
  function that may run into undefined behaviour, bounded accesses to C arrays, first-match
  searches, and the two byte orders.  Nothing here models a line of the firmware; the component
  theories are written over it.
\<close>

unbundle bit_operations_syntax

section \<open>Machine integers\<close>

type_synonym u8 = "8 word"
type_synonym u16 = "16 word"
type_synonym byte = "8 word"

text \<open>
  \<open>size_t\<close> and \<open>uint32_t\<close> values are naturals below \<open>2 ^ 32\<close> (the CC1352 is a 32-bit
  Cortex-M4F); where the C code subtracts or adds and may wrap, the wrap-around is written out
  with the following two operations.
\<close>

definition size_sub :: "nat \<Rightarrow> nat \<Rightarrow> nat" where
  "size_sub a b = (a + 2 ^ 32 - b) mod 2 ^ 32"

definition size_add :: "nat \<Rightarrow> nat \<Rightarrow> nat" where
  "size_add a b = (a + b) mod 2 ^ 32"

lemma size_sub_exact: "b \<le> a \<Longrightarrow> a < 2 ^ 32 \<Longrightarrow> size_sub a b = a - b"
proof -
  assume "b \<le> a" "a < 2 ^ 32"
  then have "a + 2 ^ 32 - b = (a - b) + 2 ^ 32" by simp
  then have "size_sub a b = (a - b) mod 2 ^ 32"
    unfolding size_sub_def by (simp only: mod_add_self2)
  with \<open>a < 2 ^ 32\<close> show ?thesis by simp
qed

lemma size_sub_wraps: "a < b \<Longrightarrow> b < 2 ^ 32 \<Longrightarrow> size_sub a b = 2 ^ 32 + a - b"
  by (simp add: size_sub_def)

lemma size_add_exact: "a + b < 2 ^ 32 \<Longrightarrow> size_add a b = a + b"
  by (simp add: size_add_def)

lemma size_add_sub: "a < 2 ^ 32 \<Longrightarrow> b < 2 ^ 32 \<Longrightarrow> size_add b (size_sub a b) = a"
proof (cases "b \<le> a")
  case True
  assume "a < 2 ^ 32"
  with True show ?thesis by (simp add: size_sub_exact size_add_exact)
next
  case False
  assume "a < 2 ^ 32" "b < 2 ^ 32"
  with False show ?thesis by (simp add: size_sub_wraps size_add_def)
qed

section \<open>Outcomes: a value, or the undefined behaviour that ends the run\<close>

text \<open>
  Error codes of the source are ordinary values (negative \<open>int\<close>s).  A \<open>fault\<close> is what the C
  code does not survive: it dereferences a null or dangling pointer, leaves an array, frees twice,
  fails an assertion or never comes back.
\<close>

datatype fault =
    NullDeref
  | OutOfBounds
  | BufferOverflow
  | UseAfterFree
  | DoubleFree
  | AssertionFailed
  | Diverges

type_synonym 'a res = "fault + 'a"

definition bnd :: "'a res \<Rightarrow> ('a \<Rightarrow> 'b res) \<Rightarrow> 'b res" where
  "bnd m f = (case m of Inl e \<Rightarrow> Inl e | Inr x \<Rightarrow> f x)"

lemma bnd_Inl [simp]: "bnd (Inl e) f = Inl e"
  by (simp add: bnd_def)

lemma bnd_Inr [simp]: "bnd (Inr x) f = f x"
  by (simp add: bnd_def)

lemma bnd_assoc: "bnd (bnd m f) g = bnd m (\<lambda>x. bnd (f x) g)"
  by (cases m) simp_all

lemma bnd_return [simp]: "bnd m Inr = m"
  by (cases m) simp_all

lemma bnd_eq_Inr_iff: "bnd m f = Inr y \<longleftrightarrow> (\<exists>x. m = Inr x \<and> f x = Inr y)"
  by (cases m) simp_all

lemma bnd_eq_InrE [elim!]:
  assumes "bnd m f = Inr y"
  obtains x where "m = Inr x" and "f x = Inr y"
  using assms by (auto simp: bnd_eq_Inr_iff)

lemma bnd_cong [fundef_cong]:
  "m = m' \<Longrightarrow> (\<And>x. m' = Inr x \<Longrightarrow> f x = g x) \<Longrightarrow> bnd m f = bnd m' g"
  by (cases m') simp_all

text \<open>A \<open>for\<close> loop over the elements of an array, stopping at the first fault.\<close>

primrec foldres :: "('a \<Rightarrow> 's \<Rightarrow> 's res) \<Rightarrow> 'a list \<Rightarrow> 's \<Rightarrow> 's res" where
  "foldres f [] s = Inr s"
| "foldres f (x # xs) s = bnd (f x s) (foldres f xs)"

lemma foldres_Nil_fun [simp]: "foldres f [] = Inr"
  by (rule ext) simp

lemma foldres_append: "foldres f (xs @ ys) s = bnd (foldres f xs s) (foldres f ys)"
  by (induction xs arbitrary: s) (simp_all add: bnd_assoc cong: bnd_cong)

lemma foldres_invariant:
  assumes step: "\<And>x s s'. x \<in> set xs \<Longrightarrow> P s \<Longrightarrow> f x s = Inr s' \<Longrightarrow> P s'"
    and "P s" and "foldres f xs s = Inr s'"
  shows "P s'"
  using assms
proof (induction xs arbitrary: s)
  case Nil
  then show ?case by simp
next
  case (Cons x xs)
  then show ?case by (auto elim!: bnd_eq_InrE)
qed

text \<open>
  Partial correctness of an outcome: if there is a value, it has the property.  The rules follow the
  shape of a program.
\<close>

definition okr :: "('a \<Rightarrow> bool) \<Rightarrow> 'a res \<Rightarrow> bool" where
  "okr P m = (case m of Inl e \<Rightarrow> True | Inr x \<Rightarrow> P x)"

lemma okr_simps [simp]: "okr P (Inl e) = True" "okr P (Inr x) = P x"
  by (simp_all add: okr_def)

lemma okr_bnd: "okr P m \<Longrightarrow> (\<And>x. P x \<Longrightarrow> okr Q (f x)) \<Longrightarrow> okr Q (bnd m f)"
  by (cases m) simp_all

lemma okr_any: "(\<And>x. okr Q (f x)) \<Longrightarrow> okr Q (bnd m f)"
  by (cases m) simp_all

lemma okr_mono: "okr P m \<Longrightarrow> (\<And>x. P x \<Longrightarrow> Q x) \<Longrightarrow> okr Q m"
  by (cases m) simp_all

lemma okr_conj: "okr P m \<Longrightarrow> okr Q m \<Longrightarrow> okr (\<lambda>x. P x \<and> Q x) m"
  by (simp add: okr_def split: sum.splits)

lemma okrD: "okr P m \<Longrightarrow> m = Inr x \<Longrightarrow> P x"
  by simp

lemma okr_foldres:
  assumes "P s" "\<And>x s. P s \<Longrightarrow> okr P (f x s)" shows "okr P (foldres f xs s)"
  using assms(1)
proof (induction xs arbitrary: s)
  case (Cons x xs)
  show ?case by (simp, rule okr_bnd [OF assms(2) [OF Cons.prems] Cons.IH])
qed simp

section \<open>Bounded accesses to C arrays\<close>

text \<open>
  A pointer into an array is the list of the array's bytes from that point to the end of the
  object; an access past the end is a fault.
\<close>

definition buf_get :: "byte list \<Rightarrow> nat \<Rightarrow> byte res" where
  "buf_get buf i = (if i < length buf then Inr (buf ! i) else Inl OutOfBounds)"

definition buf_read :: "byte list \<Rightarrow> nat \<Rightarrow> nat \<Rightarrow> byte list res" where
  "buf_read buf off n =
     (if off + n \<le> length buf then Inr (take n (drop off buf)) else Inl OutOfBounds)"

definition buf_write :: "byte list \<Rightarrow> nat \<Rightarrow> byte list \<Rightarrow> byte list res" where
  "buf_write buf off bs =
     (if off + length bs \<le> length buf
      then Inr (take off buf @ bs @ drop (off + length bs) buf) else Inl BufferOverflow)"

lemma buf_get_ok [simp]: "i < length buf \<Longrightarrow> buf_get buf i = Inr (buf ! i)"
  by (simp add: buf_get_def)

lemma buf_read_ok [simp]: "off + n \<le> length buf \<Longrightarrow> buf_read buf off n = Inr (take n (drop off buf))"
  by (simp add: buf_read_def)

lemma buf_write_length: "buf_write buf off bs = Inr buf' \<Longrightarrow> length buf' = length buf"
  by (auto simp: buf_write_def split: if_splits)

lemma buf_write_then_read:
  "buf_write buf off bs = Inr buf' \<Longrightarrow> buf_read buf' off (length bs) = Inr bs"
  by (auto simp: buf_write_def buf_read_def split: if_splits)

lemma take_list_update_same: "i < length xs \<Longrightarrow> take (Suc i) (xs[i := x]) = take i xs @ [x]"
  by (simp add: take_Suc_conv_app_nth)

section \<open>First match in an array\<close>

primrec first_index :: "('a \<Rightarrow> bool) \<Rightarrow> 'a list \<Rightarrow> nat option" where
  "first_index P [] = None"
| "first_index P (x # xs) = (if P x then Some 0 else map_option Suc (first_index P xs))"

lemma first_index_SomeD:
  "first_index P xs = Some i \<Longrightarrow> i < length xs \<and> P (xs ! i) \<and> (\<forall>j < i. \<not> P (xs ! j))"
proof (induction xs arbitrary: i)
  case Nil
  then show ?case by simp
next
  case (Cons x xs)
  then show ?case
    by (cases i) (auto split: if_splits simp: nth_Cons split: nat.splits)
qed

lemma first_index_None_iff: "first_index P xs = None \<longleftrightarrow> (\<forall>x \<in> set xs. \<not> P x)"
  by (induction xs) auto

lemma first_index_SomeI:
  "i < length xs \<Longrightarrow> P (xs ! i) \<Longrightarrow> (\<And>j. j < i \<Longrightarrow> \<not> P (xs ! j)) \<Longrightarrow> first_index P xs = Some i"
proof (induction xs arbitrary: i)
  case Nil
  then show ?case by simp
next
  case (Cons x xs)
  show ?case
  proof (cases i)
    case 0
    with Cons.prems show ?thesis by simp
  next
    case (Suc k)
    have "\<not> P x" using Cons.prems(3) [of 0] Suc by simp
    moreover have "first_index P xs = Some k"
    proof (rule Cons.IH)
      show "k < length xs" "P (xs ! k)" using Cons.prems Suc by simp_all
      fix j assume "j < k"
      then show "\<not> P (xs ! j)" using Cons.prems(3) [of "Suc j"] Suc by simp
    qed
    ultimately show ?thesis using Suc by simp
  qed
qed

text \<open>The \<open>int\<close> a C search returns: the index, or a negative error code.\<close>

definition index_or :: "int \<Rightarrow> nat option \<Rightarrow> int" where
  "index_or err r = (case r of Some i \<Rightarrow> int i | None \<Rightarrow> err)"

lemma index_or_simps [simp]: "index_or err (Some i) = int i" "index_or err None = err"
  by (simp_all add: index_or_def)

section \<open>Byte order\<close>

definition le16 :: "u16 \<Rightarrow> byte list" where
  "le16 w = [ucast w, ucast (drop_bit 8 w)]"

definition be16 :: "u16 \<Rightarrow> byte list" where
  "be16 w = [ucast (drop_bit 8 w), ucast w]"

definition le16_of :: "byte \<Rightarrow> byte \<Rightarrow> u16" where
  "le16_of lo hi = push_bit 8 (ucast hi) OR ucast lo"

lemma length_le16 [simp]: "length (le16 w) = 2"
  by (simp add: le16_def)

lemma le16_of_bytes [simp]: "le16_of (ucast w) (ucast (drop_bit 8 w)) = w"
  unfolding le16_of_def by (rule bit_word_eqI) (auto simp: bit_simps)

lemma le16_le16_of [simp]: "le16 (le16_of lo hi) = [lo, hi]"
  unfolding le16_def le16_of_def
  by (auto intro!: bit_word_eqI simp: bit_simps impossible_bit)

lemma le16_of_nth: "le16_of (le16 w ! 0) (le16 w ! 1) = w"
  by (simp add: le16_def)

lemma le16_inject: "le16 v = le16 w \<longleftrightarrow> v = w"
proof
  assume "le16 v = le16 w"
  then have "le16_of (le16 v ! 0) (le16 v ! 1) = le16_of (le16 w ! 0) (le16 w ! 1)" by simp
  then show "v = w" by (simp only: le16_of_nth)
qed simp

lemma unat_u16_bound [simp]: "unat (w :: u16) < 65536"
  using unsigned_less [of w, where 'a = nat] by simp

lemma unat_u8_bound [simp]: "unat (w :: u8) < 256"
  using unsigned_less [of w, where 'a = nat] by simp

lemma unat_of_nat_u16: "n < 65536 \<Longrightarrow> unat (of_nat n :: u16) = n"
  by (simp add: unat_of_nat)

section \<open>Hint collections\<close>

named_theorems gb_consts \<open>values of the protocol constants\<close>
named_theorems frame_simps \<open>which parts of the firmware state an operation leaves alone\<close>

end
