(* ===== verification/Platform.thy ===== *)
theory Platform
  imports Prelude
begin

text \<open>
  The boundary of the firmware.  Everything below it (the Zephyr kernel, its ring buffer, heap,
  memory slabs, UART driver, CRC and socket layers) is outside the repository and is a parameter:
  one field of the record \<open>zephyr\<close> per call the sources make, each a function of the call's
  arguments and of the platform's own hidden state, of the arbitrary type \<open>'w\<close>.  What a theorem
  needs to know about a call is a named hypothesis below, taken from the call's documentation.

  The record \<open>platform\<close> is the root of the firmware state; every component extends it with its own
  static variables.  \<open>uart_tx\<close> is the sequence of bytes given to \<open>uart_poll_out\<close> so far, which is
  everything the host ever sees of the firmware.
\<close>

section \<open>The calls the sources make\<close>

record revents =
  pollin :: bool
  pollnval :: bool
  pollhup :: bool
  pollerr :: bool

record 'w zephyr =
  crc16_ccitt :: "u16 \<Rightarrow> byte list \<Rightarrow> u16"
  ring_buf_put_claim :: "nat \<Rightarrow> 'w \<Rightarrow> nat \<times> 'w"
  ring_buf_put_finish :: "byte list \<Rightarrow> 'w \<Rightarrow> int \<times> 'w"
  ring_buf_get_claim :: "nat \<Rightarrow> 'w \<Rightarrow> byte list \<times> 'w"
  ring_buf_get_finish :: "nat \<Rightarrow> 'w \<Rightarrow> int \<times> 'w"
  uart_irq_update :: "'w \<Rightarrow> bool \<times> 'w"
  uart_irq_rx_ready :: "'w \<Rightarrow> bool \<times> 'w"
  uart_fifo_read :: "nat \<Rightarrow> 'w \<Rightarrow> int \<times> byte list \<times> 'w"
  k_heap_alloc :: "nat \<Rightarrow> 'w \<Rightarrow> byte list option \<times> 'w"
  k_heap_free :: "nat \<Rightarrow> 'w \<Rightarrow> 'w"
  freed_u16 :: "nat \<Rightarrow> 'w \<Rightarrow> u16"
  k_mem_slab_alloc :: "bool list \<Rightarrow> 'w \<Rightarrow> nat option \<times> 'w"
  zsock_socket :: "bool \<Rightarrow> 'w \<Rightarrow> int \<times> 'w"
  zsock_connect :: "int \<Rightarrow> byte list \<Rightarrow> u16 \<Rightarrow> 'w \<Rightarrow> int \<times> 'w"
  zsock_close :: "int \<Rightarrow> 'w \<Rightarrow> 'w"
  zsock_send :: "int \<Rightarrow> byte list \<Rightarrow> 'w \<Rightarrow> int \<times> 'w"
  zsock_recv :: "int \<Rightarrow> nat \<Rightarrow> 'w \<Rightarrow> int \<times> byte list \<times> 'w"
  zsock_poll :: "int list \<Rightarrow> int \<Rightarrow> 'w \<Rightarrow> int \<times> revents list \<times> 'w"
  zsock_socketpair :: "'w \<Rightarrow> int \<times> int \<times> int \<times> 'w"
  device_is_ready :: "'w \<Rightarrow> bool \<times> 'w"
  uart_irq_callback_user_data_set :: "'w \<Rightarrow> int \<times> 'w"
  uart_irq_rx_enable :: "'w \<Rightarrow> 'w"
  stack_bytes :: "nat \<Rightarrow> 'w \<Rightarrow> byte list"
  zsock_socket_dgram :: "'w \<Rightarrow> int \<times> 'w"
  zsock_reuse :: "int \<Rightarrow> 'w \<Rightarrow> 'w"
  zsock_bind :: "int \<Rightarrow> u16 \<Rightarrow> 'w \<Rightarrow> int \<times> 'w"
  zsock_getsockname :: "int \<Rightarrow> 'w \<Rightarrow> int \<times> bool \<times> u16 \<times> 'w"
  zsock_sendto :: "int \<Rightarrow> byte list \<Rightarrow> byte list \<Rightarrow> u16 \<Rightarrow> 'w \<Rightarrow> int \<times> 'w"
  zsock_recvfrom :: "int \<Rightarrow> nat \<Rightarrow> 'w \<Rightarrow> int \<times> byte list \<times> byte list \<times> 'w"
  net_if_get_default :: "'w \<Rightarrow> bool \<times> 'w"
  net_if_ipv6_maddr_add :: "byte list \<Rightarrow> 'w \<Rightarrow> bool \<times> 'w"
  net_if_ipv6_maddr_join :: "'w \<Rightarrow> 'w"

text \<open>
  Conventions: a call that fills a caller's buffer returns the bytes it wrote.
  \<open>k_heap_alloc\<close> returns the (uninitialised) contents of the block it hands out, or \<open>None\<close>.
  \<open>freed_u16\<close> is what a 16-bit read from a message that has already been given back to the heap
  happens to find there.  \<open>k_mem_slab_alloc\<close> is told which blocks are in use and picks one.
  The argument of \<open>zsock_socket\<close> says whether the family is \<open>AF_INET6\<close>; sockets of type \<open>SOCK_DGRAM\<close>
  come from \<open>zsock_socket_dgram\<close>.  \<open>zsock_poll\<close> is given the descriptors, all polled for
  \<open>ZSOCK_POLLIN\<close>, and the timeout.  \<open>zsock_reuse\<close> stands for the two \<open>zsock_setsockopt\<close> calls,
  whose results are ignored; \<open>zsock_getsockname\<close> returns whether the family is \<open>AF_INET6\<close> and the
  port.  \<open>stack_bytes\<close> is what an uninitialised automatic array holds.
\<close>

section \<open>The documented behaviour the theorems rely on\<close>

text \<open>
  \<open>crc16_ccitt\<close> is documented as the reflected CRC-16 with polynomial \<open>0x1021\<close> (\<open>0x8408\<close>
  reflected), with no reflection or XOR of the result.  The bit-serial form of that algorithm:
\<close>

definition crc_bit :: "u16 \<Rightarrow> u16" where
  "crc_bit c = (if bit c 0 then drop_bit 1 c XOR 0x8408 else drop_bit 1 c)"

definition crc_byte :: "u16 \<Rightarrow> byte \<Rightarrow> u16" where
  "crc_byte c b = (crc_bit ^^ 8) (c XOR ucast b)"

definition crc16_reflected :: "u16 \<Rightarrow> byte list \<Rightarrow> u16" where
  "crc16_reflected c bs = fold (\<lambda>b c. crc_byte c b) bs c"

definition crc_documented :: "'w zephyr \<Rightarrow> bool" where
  "crc_documented z \<longleftrightarrow> crc16_ccitt z = crc16_reflected"

text \<open>A block returned by \<open>k_heap_alloc\<close> has the requested size.\<close>

definition heap_documented :: "'w zephyr \<Rightarrow> bool" where
  "heap_documented z \<longleftrightarrow>
     (\<forall>n w blk w'. k_heap_alloc z n w = (Some blk, w') \<longrightarrow> length blk = n)"

lemma heap_block_length:
  "heap_documented z \<Longrightarrow> k_heap_alloc z n w = (Some blk, w') \<Longrightarrow> length blk = n"
  by (auto simp: heap_documented_def)

text \<open>The heap has room for a block of \<open>n\<close> bytes at whatever moment it is asked.\<close>

definition heap_room :: "'w zephyr \<Rightarrow> nat \<Rightarrow> bool" where
  "heap_room z n \<longleftrightarrow> (\<forall>w. \<exists>blk w'. k_heap_alloc z n w = (Some blk, w'))"

lemma heap_roomE:
  assumes "heap_room z n" obtains blk w' where "k_heap_alloc z n w = (Some blk, w')"
  using assms unfolding heap_room_def by blast

text \<open>A slab hands out one of its unused blocks, and hands one out whenever there is one.\<close>

definition slab_documented :: "'w zephyr \<Rightarrow> bool" where
  "slab_documented z \<longleftrightarrow>
     (\<forall>occ w b w'. k_mem_slab_alloc z occ w = (Some b, w') \<longrightarrow> b < length occ \<and> \<not> occ ! b) \<and>
     (\<forall>occ w. False \<in> set occ \<longrightarrow> fst (k_mem_slab_alloc z occ w) \<noteq> None)"

text \<open>
  A stream socket accepts at least one byte of a non-empty buffer or reports an error, and never
  claims more than it was given; a receive fills at most the space offered.
\<close>

definition send_documented :: "'w zephyr \<Rightarrow> bool" where
  "send_documented z \<longleftrightarrow>
     (\<forall>sock bs w. bs \<noteq> [] \<longrightarrow>
        (let r = fst (zsock_send z sock bs w) in r < 0 \<or> (0 < r \<and> r \<le> int (length bs))))"

definition recv_documented :: "'w zephyr \<Rightarrow> bool" where
  "recv_documented z \<longleftrightarrow>
     (\<forall>sock n w r bs w'. zsock_recv z sock n w = (r, bs, w') \<longrightarrow>
        r \<le> int n \<and> (0 \<le> r \<longrightarrow> length bs = nat r))"

text \<open>A datagram is cut to the space offered; an automatic array has its declared size.\<close>

definition recvfrom_documented :: "'w zephyr \<Rightarrow> bool" where
  "recvfrom_documented z \<longleftrightarrow>
     (\<forall>sock n w r bs a w'. zsock_recvfrom z sock n w = (r, bs, a, w') \<longrightarrow>
        r \<le> int n \<and> (0 \<le> r \<longrightarrow> length bs = nat r)) \<and>
     (\<forall>n w. length (stack_bytes z n w) = n)"

section \<open>CRC arithmetic\<close>

lemma crc_bit_xor: "crc_bit (a XOR b) = crc_bit a XOR crc_bit b"
  unfolding crc_bit_def by (auto intro!: bit_word_eqI simp: bit_simps)

lemma crc_bits_xor: "(crc_bit ^^ n) (a XOR b) = (crc_bit ^^ n) a XOR (crc_bit ^^ n) b"
  by (induction n) (simp_all add: crc_bit_xor)

lemma crc_bits_high:
  "(\<And>i. i < n \<Longrightarrow> \<not> bit x i) \<Longrightarrow> (crc_bit ^^ n) x = drop_bit n x"
proof (induction n arbitrary: x)
  case 0
  then show ?case by simp
next
  case (Suc n)
  have "\<not> bit x 0" using Suc.prems by simp
  then have "crc_bit x = drop_bit 1 x" by (simp add: crc_bit_def)
  moreover have "(crc_bit ^^ n) (drop_bit 1 x) = drop_bit n (drop_bit 1 x)"
    by (rule Suc.IH) (use Suc.prems in \<open>simp add: bit_simps\<close>)
  ultimately show ?case
    by (simp add: funpow_swap1 [symmetric] funpow_Suc_right del: funpow.simps)
qed

text \<open>Masks in a form whose bits the simplifier knows.\<close>

lemma u16_masks:
  "(0xffff :: u16) = mask 16" "(0x00ff :: u16) = mask 8" "(0xff00 :: u16) = push_bit 8 (mask 8)"
  by (simp_all add: mask_eq_exp_minus_1)

lemma u16_high_bit: "bit (c :: u16) (8 + n) \<Longrightarrow> n < 8"
  using bit_imp_le_length [of c "8 + n"] by simp

lemma crc_byte_low_complement:
  "crc_byte c (ucast (c XOR 0xffff)) = drop_bit 8 c XOR 0x0f78"
proof -
  have "c XOR ucast (ucast (c XOR 0xffff) :: byte) = (c AND 0xff00) XOR 0x00ff"
    unfolding u16_masks by (rule bit_word_eqI) (auto simp: bit_simps)
  moreover have "(crc_bit ^^ 8) (c AND 0xff00) = drop_bit 8 (c AND 0xff00)"
    unfolding u16_masks by (rule crc_bits_high) (auto simp: bit_simps)
  moreover have "drop_bit 8 (c AND 0xff00) = drop_bit 8 c"
    unfolding u16_masks by (rule bit_word_eqI) (auto simp: bit_simps u16_high_bit)
  moreover have "(crc_bit ^^ 8) 0x00ff = 0x0f78"
    by code_simp
  ultimately show ?thesis by (simp add: crc_byte_def crc_bits_xor)
qed

text \<open>
  The X.25 residue: a message followed by the complement of its own CRC, low byte first, always
  leaves \<open>0xf0b8\<close>, whatever the message.
\<close>

lemma crc_residue:
  "crc_byte (crc_byte c (ucast (c XOR 0xffff))) (ucast (drop_bit 8 (c XOR 0xffff))) = 0xf0b8"
proof -
  have "ucast (ucast (drop_bit 8 (c XOR 0xffff)) :: byte) = drop_bit 8 c XOR (0x00ff :: u16)"
    unfolding u16_masks by (rule bit_word_eqI) (auto simp: bit_simps dest: u16_high_bit)
  then have "crc_byte (drop_bit 8 c XOR 0x0f78) (ucast (drop_bit 8 (c XOR 0xffff))) =
      (crc_bit ^^ 8) ((drop_bit 8 c XOR 0x0f78) XOR (drop_bit 8 c XOR 0x00ff))"
    by (simp add: crc_byte_def)
  also have "(drop_bit 8 c XOR 0x0f78) XOR (drop_bit 8 c XOR 0x00ff) = (0x0f87 :: u16)"
    by (simp add: xor.assoc xor.left_commute)
  also have "(crc_bit ^^ 8) 0x0f87 = 0xf0b8"
    by code_simp
  finally show ?thesis by (simp add: crc_byte_low_complement)
qed

lemma crc_documented_byte: "crc_documented z \<Longrightarrow> crc16_ccitt z c [b] = crc_byte c b"
  by (simp add: crc_documented_def crc16_reflected_def)

lemma xor_cancel_left: "(a XOR b = a XOR c) = (b = (c :: 'a :: len word))"
  by (metis xor.left_commute xor_self_eq xor.right_neutral)

lemma xor_cancel_right: "(b XOR a = c XOR a) = (b = (c :: 'a :: len word))"
  by (metis xor.commute xor_cancel_left)

text \<open>
  The register is never forgotten: one step is invertible (bit 15 of the result is bit 0 of the
  argument), so two CRC runs that differ once stay different.
\<close>

lemma crc_bit_inject: "crc_bit a = crc_bit b \<longleftrightarrow> a = b"
proof
  assume eq: "crc_bit a = crc_bit b"
  have poly: "bit (0x8408 :: u16) 15" by simp
  have top: "bit (crc_bit x) 15 = bit x 0" for x
    using poly bit_imp_le_length [of x 16] by (auto simp: crc_bit_def bit_simps)
  have lsb: "bit a 0 = bit b 0" using top [of a] top [of b] eq by simp
  then have "drop_bit 1 a = drop_bit 1 b"
    using eq by (auto simp: crc_bit_def xor_cancel_right split: if_splits)
  then have "bit a (Suc n) = bit b (Suc n)" for n
    by (metis bit_drop_bit_eq comp_apply plus_1_eq_Suc)
  with lsb show "a = b" by (metis bit_eqI not0_implies_Suc)
qed simp

lemma crc_bits_inject: "(crc_bit ^^ n) a = (crc_bit ^^ n) b \<longleftrightarrow> a = b"
  by (induction n) (simp_all add: crc_bit_inject)

lemma crc_byte_inject_crc: "crc_byte c b = crc_byte d b \<longleftrightarrow> c = d"
  by (simp add: crc_byte_def crc_bits_inject xor_cancel_right)

lemma ucast_u8_u16_inject: "(ucast (a :: u8) :: u16) = ucast b \<longleftrightarrow> a = b"
proof -
  have "ucast (ucast x :: u16) = x" for x :: u8
    by (rule bit_word_eqI) (simp add: bit_simps)
  then show ?thesis by metis
qed

lemma crc_byte_inject_byte: "crc_byte c a = crc_byte c b \<longleftrightarrow> a = b"
  by (simp add: crc_byte_def crc_bits_inject xor_cancel_left ucast_u8_u16_inject)

section \<open>Root of the firmware state and the transport of main.c\<close>

record 'w platform =
  world :: 'w
  uart_tx :: "byte list"

definition uart_poll_out :: "byte \<Rightarrow> ('w, 'a) platform_scheme \<Rightarrow> ('w, 'a) platform_scheme" where
  "uart_poll_out b s = s\<lparr>uart_tx := uart_tx s @ [b]\<rparr>"

text \<open>\<open>hdlc_send_callback\<close>: the callback \<open>main\<close> installs for sending HDLC bytes.\<close>

definition hdlc_send_callback ::
  "byte list \<Rightarrow> ('w, 'a) platform_scheme \<Rightarrow> int \<times> ('w, 'a) platform_scheme" where
  "hdlc_send_callback buffer s = (int (length buffer), fold uart_poll_out buffer s)"

lemma fold_uart_poll_out: "fold uart_poll_out bs s = s\<lparr>uart_tx := uart_tx s @ bs\<rparr>"
  by (induction bs arbitrary: s) (simp_all add: uart_poll_out_def)

text \<open>A call into the platform that only touches the platform's own state.\<close>

definition on_world :: "('w \<Rightarrow> 'b \<times> 'w) \<Rightarrow> ('w, 'a) platform_scheme \<Rightarrow> 'b \<times> ('w, 'a) platform_scheme" where
  "on_world f s = (let (r, w) = f (world s) in (r, s\<lparr>world := w\<rparr>))"

section \<open>A concrete platform\<close>

text \<open>
  One platform with the documented behaviour, on which the hypotheses above are checked and the
  theorems are exercised: its state is the content of the ring buffer and the bytes still to be
  received from the network, allocations succeed, sockets take everything they are given.
\<close>

type_synonym sample_world = "byte list \<times> byte list"

definition first_free :: "bool list \<Rightarrow> nat option" where
  "first_free occ = first_index (\<lambda>used. \<not> used) occ"

definition sample_zephyr :: "sample_world zephyr" where
  "sample_zephyr = \<lparr>
     crc16_ccitt = crc16_reflected,
     ring_buf_put_claim = (\<lambda>n w. (n - length (fst w), w)),
     ring_buf_put_finish = (\<lambda>bs w. (0, (fst w @ bs, snd w))),
     ring_buf_get_claim = (\<lambda>n w. (take n (fst w), w)),
     ring_buf_get_finish = (\<lambda>n w. (0, (drop n (fst w), snd w))),
     uart_irq_update = (\<lambda>w. (True, w)),
     uart_irq_rx_ready = (\<lambda>w. (True, w)),
     uart_fifo_read = (\<lambda>n w. (0, [], w)),
     k_heap_alloc = (\<lambda>n w. (Some (replicate n 0), w)),
     k_heap_free = (\<lambda>p w. w),
     freed_u16 = (\<lambda>p w. 0),
     k_mem_slab_alloc = (\<lambda>occ w. (first_free occ, w)),
     zsock_socket = (\<lambda>inet6 w. (5, w)),
     zsock_connect = (\<lambda>sock addr port w. (0, w)),
     zsock_close = (\<lambda>sock w. w),
     zsock_send = (\<lambda>sock bs w. (int (length bs), w)),
     zsock_recv = (\<lambda>sock n w. (int (length (take n (snd w))), take n (snd w), (fst w, drop n (snd w)))),
     zsock_poll = (\<lambda>fds timeout w. (1, map (\<lambda>fd. \<lparr>pollin = snd w \<noteq> [], pollnval = False, pollhup = False,
       pollerr = False\<rparr>) fds, w)),
     zsock_socketpair = (\<lambda>w. (0, 10, 11, w)),
     device_is_ready = (\<lambda>w. (True, w)),
     uart_irq_callback_user_data_set = (\<lambda>w. (0, w)),
     uart_irq_rx_enable = (\<lambda>w. w),
     stack_bytes = (\<lambda>n w. replicate n 0),
     zsock_socket_dgram = (\<lambda>w. (6, w)),
     zsock_reuse = (\<lambda>sock w. w),
     zsock_bind = (\<lambda>sock port w. (0, w)),
     zsock_getsockname = (\<lambda>sock w. (0, True, 5353, w)),
     zsock_sendto = (\<lambda>sock bs addr port w. (int (length bs), (bs, snd w))),
     zsock_recvfrom = (\<lambda>sock n w. (int (length (take n (snd w))), take n (snd w), replicate 16 0, (fst w, []))),
     net_if_get_default = (\<lambda>w. (True, w)),
     net_if_ipv6_maddr_add = (\<lambda>addr w. (True, w)),
     net_if_ipv6_maddr_join = (\<lambda>w. w)\<rparr>"

lemma sample_documented:
  "crc_documented sample_zephyr" "heap_documented sample_zephyr" "slab_documented sample_zephyr"
  "send_documented sample_zephyr" "recv_documented sample_zephyr" "recvfrom_documented sample_zephyr"
  by (auto simp: crc_documented_def heap_documented_def slab_documented_def send_documented_def
      recv_documented_def recvfrom_documented_def sample_zephyr_def first_free_def first_index_None_iff
      dest!: first_index_SomeD)

lemma sample_room: "heap_room sample_zephyr n"
  by (simp add: heap_room_def sample_zephyr_def)

lemma sample_zephyr_sel [simp]:
  "crc16_ccitt sample_zephyr = crc16_reflected"
  "k_heap_alloc sample_zephyr n w = (Some (replicate n 0), w)"
  "k_heap_free sample_zephyr p w = w" "freed_u16 sample_zephyr p w = 0"
  "k_mem_slab_alloc sample_zephyr occ w = (first_free occ, w)"
  "zsock_socket sample_zephyr f w = (5, w)" "zsock_connect sample_zephyr sk a port w = (0, w)"
  "zsock_close sample_zephyr sk w = w" "zsock_send sample_zephyr sk bs w = (int (length bs), w)"
  "zsock_recv sample_zephyr sk n w =
     (int (length (take n (snd w))), take n (snd w), (fst w, drop n (snd w)))"
  "zsock_poll sample_zephyr fds tm w = (1, map (\<lambda>fd. \<lparr>pollin = snd w \<noteq> [], pollnval = False,
     pollhup = False, pollerr = False\<rparr>) fds, w)"
  "stack_bytes sample_zephyr n w = replicate n 0" "zsock_getsockname sample_zephyr sk w = (0, True, 5353, w)"
  "zsock_sendto sample_zephyr sk bs a port w = (int (length bs), (bs, snd w))"
  "zsock_recvfrom sample_zephyr sk n w =
     (int (length (take n (snd w))), take n (snd w), replicate 16 0, (fst w, []))"
  by (simp_all add: sample_zephyr_def)

end
