(* ===== verification/Hdlc.thy ===== *)
theory Hdlc
  imports Platform
begin

text \<open>
  The HDLC driver of src/hdlc.c: byte stuffing, frame check sequence, frame assembly and dispatch,
  and the hand-over of received bytes from the UART interrupt to the receive work queue.  The
  driver's static variables extend the platform state; the two callbacks of \<open>struct hdlc_driver\<close>
  are arguments, \<open>cb\<close> for a complete frame and \<open>send\<close> for outgoing bytes.  Log output is not
  modelled.
\<close>

section \<open>State\<close>

definition HDLC_RX_BUF_SIZE :: nat where "HDLC_RX_BUF_SIZE = 1024"
definition HDLC_MAX_BLOCK_SIZE :: nat where "HDLC_MAX_BLOCK_SIZE = 256"
definition HDLC_FRAME :: byte where "HDLC_FRAME = 0x7E"
definition HDLC_ESC :: byte where "HDLC_ESC = 0x7D"
definition ADDRESS_GREYBUS :: u8 where "ADDRESS_GREYBUS = 0x01"
definition ADDRESS_DBG :: u8 where "ADDRESS_DBG = 0x02"
definition ADDRESS_CONTROL :: u8 where "ADDRESS_CONTROL = 0x03"

lemmas hdlc_consts = HDLC_RX_BUF_SIZE_def HDLC_MAX_BLOCK_SIZE_def HDLC_FRAME_def HDLC_ESC_def
  ADDRESS_GREYBUS_def ADDRESS_DBG_def ADDRESS_CONTROL_def

record 'w hdlc_driver = "'w platform" +
  crc :: u16
  next_escaped :: bool
  rx_send_seq :: u8
  send_seq :: u8
  rx_buffer_len :: nat
  rx_buffer :: "byte list"
  rx_work_pending :: bool

type_synonym ('w, 'a) hd = "('w, 'a) hdlc_driver_scheme"

text \<open>
  The frame callback receives the memory from the payload pointer to the end of \<open>rx_buffer\<close>, the
  payload length and the HDLC address, and returns an \<open>int\<close>.
\<close>

type_synonym ('w, 'a) process_cb = "byte list \<Rightarrow> nat \<Rightarrow> u8 \<Rightarrow> ('w, 'a) hd \<Rightarrow> (int \<times> ('w, 'a) hd) res"
type_synonym ('w, 'a) send_cb = "byte list \<Rightarrow> ('w, 'a) hd \<Rightarrow> int \<times> ('w, 'a) hd"

section \<open>Transmit path\<close>

definition uart_poll_out_crc ::
  "('w, 'a) send_cb \<Rightarrow> 'w zephyr \<Rightarrow> byte \<Rightarrow> u16 \<times> ('w, 'a) hd \<Rightarrow> u16 \<times> ('w, 'a) hd" where
  "uart_poll_out_crc send z byte cs =
     (let (c, s) = cs;
          c' = crc16_ccitt z c [byte];
          (byte', s') = (if byte = HDLC_FRAME \<or> byte = HDLC_ESC
                         then (byte XOR 0x20, snd (send [HDLC_ESC] s)) else (byte, s))
      in (c', snd (send [byte'] s')))"

definition hdlc_block_send_sync ::
  "('w, 'a) send_cb \<Rightarrow> 'w zephyr \<Rightarrow> byte list \<Rightarrow> nat \<Rightarrow> u8 \<Rightarrow> u8 \<Rightarrow> ('w, 'a) hd \<Rightarrow>
     (int \<times> ('w, 'a) hd) res" where
  "hdlc_block_send_sync send z buffer buffer_len address control s =
     bnd (buf_read buffer 0 buffer_len) (\<lambda>data.
       let put = uart_poll_out_crc send z;
           s = snd (send [HDLC_FRAME] s);
           (c, s) = put address (0xffff, s);
           (c, s) = (if control = 0 then put (push_bit 1 (send_seq s)) (c, s)
                     else put control (c, s));
           (c, s) = fold put data (c, s);
           crc_calc = c XOR 0xffff;
           (c, s) = put (ucast crc_calc) (c, s);
           (c, s) = put (ucast (drop_bit 8 crc_calc)) (c, s)
       in Inr (0, snd (send [HDLC_FRAME] s)))"

section \<open>Receive path\<close>

definition hdlc_process_complete_frame ::
  "('w, 'a) process_cb \<Rightarrow> ('w, 'a) hd \<Rightarrow> ('w, 'a) hd res" where
  "hdlc_process_complete_frame cb s =
     bnd (buf_get (rx_buffer s) 0) (\<lambda>address.
     bnd (cb (drop 2 (rx_buffer s)) (size_sub (rx_buffer_len s) 4) address s) (\<lambda>(ret, s). Inr s))"

definition hdlc_process_frame ::
  "('w, 'a) process_cb \<Rightarrow> ('w, 'a) hd \<Rightarrow> ('w, 'a) hd res" where
  "hdlc_process_frame cb s =
     bnd (if 3 < rx_buffer_len s \<and> crc s = 0xf0b8
          then bnd (buf_get (rx_buffer s) 1) (\<lambda>ctrl.
                 if ctrl AND 1 = 0
                 then Inr (s\<lparr>rx_send_seq := drop_bit 5 ctrl AND 0x07\<rparr>)
                 else hdlc_process_complete_frame cb s)
          else Inr s) (\<lambda>s.
     Inr (s\<lparr>crc := 0xffff, rx_buffer_len := 0\<rparr>))"

definition hdlc_save_byte :: "byte \<Rightarrow> ('w, 'a) hd \<Rightarrow> ('w, 'a) hd res" where
  "hdlc_save_byte byte s =
     (let s = (if HDLC_MAX_BLOCK_SIZE \<le> rx_buffer_len s
               then s\<lparr>crc := 0xffff, rx_buffer_len := 0\<rparr> else s)
      in if rx_buffer_len s < length (rx_buffer s)
         then Inr (s\<lparr>rx_buffer := (rx_buffer s)[rx_buffer_len s := byte],
                     rx_buffer_len := (rx_buffer_len s + 1) mod 2 ^ 16\<rparr>)
         else Inl BufferOverflow)"

definition hdlc_rx_input_byte ::
  "('w, 'a) process_cb \<Rightarrow> 'w zephyr \<Rightarrow> byte \<Rightarrow> ('w, 'a) hd \<Rightarrow> ('w, 'a) hd res" where
  "hdlc_rx_input_byte cb z byte s =
     (if byte = HDLC_FRAME then
        (if rx_buffer_len s \<noteq> 0 then hdlc_process_frame cb s else Inr s)
      else if byte = HDLC_ESC then Inr (s\<lparr>next_escaped := True\<rparr>)
      else
        let (byte, s) = (if next_escaped s then (byte XOR 0x20, s\<lparr>next_escaped := False\<rparr>)
                         else (byte, s));
            s = s\<lparr>crc := crc16_ccitt z (crc s) [byte]\<rparr>
        in hdlc_save_byte byte s)"

definition hdlc_process_buffer ::
  "('w, 'a) process_cb \<Rightarrow> 'w zephyr \<Rightarrow> byte list \<Rightarrow> ('w, 'a) hd \<Rightarrow> (int \<times> ('w, 'a) hd) res" where
  "hdlc_process_buffer cb z buf s =
     bnd (foldres (hdlc_rx_input_byte cb z) buf s) (\<lambda>s. Inr (int (length buf), s))"

text \<open>The work item: take what the ring buffer offers contiguously, process it, release it.\<close>

definition hdlc_rx_handler ::
  "('w, 'a) process_cb \<Rightarrow> 'w zephyr \<Rightarrow> ('w, 'a) hd \<Rightarrow> ('w, 'a) hd res" where
  "hdlc_rx_handler cb z s =
     (let (data, w) = ring_buf_get_claim z HDLC_RX_BUF_SIZE (world s) in
      bnd (hdlc_process_buffer cb z data (s\<lparr>world := w\<rparr>)) (\<lambda>(ret, s).
        let (ret, w) = ring_buf_get_finish z (nat ret) (world s)
        in Inr (s\<lparr>world := w\<rparr>)))"

definition hdlc_init :: "('w, 'a) hd \<Rightarrow> int \<times> ('w, 'a) hd" where
  "hdlc_init s = (0, s\<lparr>crc := 0xffff, send_seq := 0, rx_send_seq := 0, next_escaped := False,
                      rx_buffer_len := 0\<rparr>)"

definition hdlc_rx_start :: "'w zephyr \<Rightarrow> ('w, 'a) hd \<Rightarrow> nat \<times> ('w, 'a) hd" where
  "hdlc_rx_start z s =
     (let (n, w) = ring_buf_put_claim z HDLC_RX_BUF_SIZE (world s) in (n, s\<lparr>world := w\<rparr>))"

text \<open>
  \<open>hdlc_rx_finish\<close> commits the bytes written into the claimed space and submits the work item,
  also when the ring buffer refuses them.
\<close>

definition hdlc_rx_finish :: "'w zephyr \<Rightarrow> byte list \<Rightarrow> ('w, 'a) hd \<Rightarrow> int \<times> ('w, 'a) hd" where
  "hdlc_rx_finish z written s =
     (let (ret, w) = ring_buf_put_finish z written (world s)
      in (ret, s\<lparr>world := w, rx_work_pending := True\<rparr>))"

section \<open>Wire format\<close>

text \<open>What a frame is on the wire, independently of how the driver produces or consumes it.\<close>

definition hdlc_escape_byte :: "byte \<Rightarrow> byte list" where
  "hdlc_escape_byte b = (if b = HDLC_FRAME \<or> b = HDLC_ESC then [HDLC_ESC, b XOR 0x20] else [b])"

definition hdlc_escape :: "byte list \<Rightarrow> byte list" where
  "hdlc_escape bs = concat (map hdlc_escape_byte bs)"

definition crc_chain :: "'w zephyr \<Rightarrow> u16 \<Rightarrow> byte list \<Rightarrow> u16" where
  "crc_chain z c bs = fold (\<lambda>b c. crc16_ccitt z c [b]) bs c"

definition hdlc_fcs :: "'w zephyr \<Rightarrow> byte list \<Rightarrow> byte list" where
  "hdlc_fcs z bs = le16 (crc_chain z 0xffff bs XOR 0xffff)"

definition hdlc_body :: "'w zephyr \<Rightarrow> u8 \<Rightarrow> u8 \<Rightarrow> byte list \<Rightarrow> byte list" where
  "hdlc_body z address control payload =
     address # control # payload @ hdlc_fcs z (address # control # payload)"

definition hdlc_frame :: "'w zephyr \<Rightarrow> u8 \<Rightarrow> u8 \<Rightarrow> byte list \<Rightarrow> byte list" where
  "hdlc_frame z address control payload =
     HDLC_FRAME # hdlc_escape (hdlc_body z address control payload) @ [HDLC_FRAME]"

lemma hdlc_escape_simps [simp]:
  "hdlc_escape [] = []"
  "hdlc_escape (b # bs) = hdlc_escape_byte b @ hdlc_escape bs"
  "hdlc_escape (xs @ ys) = hdlc_escape xs @ hdlc_escape ys"
  by (simp_all add: hdlc_escape_def)

lemma crc_chain_simps [simp]:
  "crc_chain z c [] = c"
  "crc_chain z c (b # bs) = crc_chain z (crc16_ccitt z c [b]) bs"
  "crc_chain z c (xs @ ys) = crc_chain z (crc_chain z c xs) ys"
  by (simp_all add: crc_chain_def)

lemma length_hdlc_fcs [simp]: "length (hdlc_fcs z bs) = 2"
  by (simp add: hdlc_fcs_def)

lemma length_hdlc_body [simp]: "length (hdlc_body z a c p) = length p + 4"
  by (simp add: hdlc_body_def)

lemma flag_not_in_escape_byte: "HDLC_FRAME \<notin> set (hdlc_escape_byte b)"
  by (auto simp: hdlc_escape_byte_def hdlc_consts)

lemma flag_not_in_escape: "HDLC_FRAME \<notin> set (hdlc_escape bs)"
  by (induction bs) (auto simp: flag_not_in_escape_byte)

text \<open>The check sequence of any body brings the running CRC to the constant the receiver tests.\<close>

lemma crc_chain_body:
  assumes "crc_documented z"
  shows "crc_chain z 0xffff (hdlc_body z a c p) = 0xf0b8"
proof -
  let ?c = "crc_chain z 0xffff (a # c # p)"
  have "crc_chain z 0xffff (hdlc_body z a c p) = crc_chain z ?c (hdlc_fcs z (a # c # p))"
    by (simp add: hdlc_body_def)
  also have "\<dots> = 0xf0b8"
    using crc_residue [of ?c]
    by (simp add: hdlc_fcs_def le16_def crc_documented_byte [OF assms])
  finally show ?thesis .
qed

section \<open>Transmit path: a sent block is one frame\<close>

text \<open>
  The transmit path relies on one thing of the transport below it: sending bytes one after the
  other is sending them together, and does not disturb the driver's sequence number.
\<close>

locale hdlc_sink =
  fixes send :: "('w, 'a) send_cb"
  assumes send_append: "snd (send ys (snd (send xs s))) = snd (send (xs @ ys) s)"
    and send_seq_send: "send_seq (snd (send xs s)) = send_seq s"
begin

lemma put_byte:
  "uart_poll_out_crc send z b (c, s) =
     (crc16_ccitt z c [b], snd (send (hdlc_escape_byte b) s))"
  by (auto simp: uart_poll_out_crc_def hdlc_escape_byte_def send_append)

lemma put_bytes:
  "fold (uart_poll_out_crc send z) bs (c, snd (send xs s)) =
     (crc_chain z c bs, snd (send (xs @ hdlc_escape bs) s))"
  by (induction bs arbitrary: c xs) (simp_all add: put_byte send_append)

lemma block_send:
  assumes "buffer_len \<le> length buffer"
  shows "hdlc_block_send_sync send z buffer buffer_len address control s =
    Inr (0, snd (send (hdlc_frame z address
      (if control = 0 then push_bit 1 (send_seq s) else control) (take buffer_len buffer)) s))"
  using assms
  by (simp add: hdlc_block_send_sync_def put_byte put_bytes send_append send_seq_send
      hdlc_frame_def hdlc_body_def hdlc_fcs_def le16_def Let_def)

end

interpretation uart: hdlc_sink hdlc_send_callback
  by unfold_locales (simp_all add: hdlc_send_callback_def fold_uart_poll_out)

lemma hdlc_block_send_uart:
  assumes "buffer_len \<le> length buffer" and "control \<noteq> 0"
  shows "hdlc_block_send_sync hdlc_send_callback z buffer buffer_len address control s =
    Inr (0, s\<lparr>uart_tx := uart_tx s @ hdlc_frame z address control (take buffer_len buffer)\<rparr>)"
  using assms by (simp add: uart.block_send hdlc_send_callback_def fold_uart_poll_out)

section \<open>Receive path: what the driver keeps true\<close>

definition rx_ok :: "('w, 'a) hd \<Rightarrow> bool" where
  "rx_ok s \<longleftrightarrow> length (rx_buffer s) = HDLC_MAX_BLOCK_SIZE \<and> rx_buffer_len s \<le> HDLC_MAX_BLOCK_SIZE"

definition rx_idle :: "('w, 'a) hd \<Rightarrow> bool" where
  "rx_idle s \<longleftrightarrow> crc s = 0xffff \<and> \<not> next_escaped s \<and> rx_buffer_len s = 0"

lemma rx_ok_update [simp]:
  "rx_ok (s\<lparr>crc := c\<rparr>) = rx_ok s" "rx_ok (s\<lparr>next_escaped := e\<rparr>) = rx_ok s"
  "rx_ok (s\<lparr>rx_send_seq := n\<rparr>) = rx_ok s" "rx_ok (s\<lparr>world := w\<rparr>) = rx_ok s"
  "rx_ok (s\<lparr>rx_work_pending := p\<rparr>) = rx_ok s" "rx_ok s \<Longrightarrow> rx_ok (s\<lparr>rx_buffer_len := 0\<rparr>)"
  by (simp_all add: rx_ok_def)

lemma rx_ok_get [simp]:
  "rx_ok s \<Longrightarrow> buf_get (rx_buffer s) 0 = Inr (rx_buffer s ! 0)"
  "rx_ok s \<Longrightarrow> buf_get (rx_buffer s) 1 = Inr (rx_buffer s ! 1)"
  "rx_ok s \<Longrightarrow> buf_get (rx_buffer s) (Suc 0) = Inr (rx_buffer s ! Suc 0)"
  by (simp_all add: rx_ok_def hdlc_consts)

text \<open>Saving a byte never leaves the buffer: the guard restarts the frame instead.\<close>

lemma hdlc_save_byte_eq:
  assumes "rx_ok s"
  shows "hdlc_save_byte b s =
    (if rx_buffer_len s < HDLC_MAX_BLOCK_SIZE
     then Inr (s\<lparr>rx_buffer := (rx_buffer s)[rx_buffer_len s := b], rx_buffer_len := rx_buffer_len s + 1\<rparr>)
     else Inr (s\<lparr>crc := 0xffff, rx_buffer := (rx_buffer s)[0 := b], rx_buffer_len := 1\<rparr>))"
  using assms by (simp add: hdlc_save_byte_def rx_ok_def hdlc_consts Let_def)

lemma hdlc_save_byte_ok: "rx_ok s \<Longrightarrow> \<exists>s'. hdlc_save_byte b s = Inr s' \<and> rx_ok s'"
  by (auto simp: hdlc_save_byte_eq rx_ok_def hdlc_consts)

text \<open>
  The contract the driver asks of a frame callback: on a well-formed payload window it returns,
  and it leaves the receive buffer in shape.
\<close>

locale frame_handler =
  fixes cb :: "('w, 'a) process_cb" and I :: "('w, 'a) hd \<Rightarrow> bool"
  assumes cb_ok: "rx_ok s \<Longrightarrow> I s \<Longrightarrow> cb buf len a s = Inr (r, s') \<Longrightarrow> rx_ok s' \<and> I s'"
    and I_crc: "I s \<Longrightarrow> I (s\<lparr>crc := c\<rparr>)"
    and I_escaped: "I s \<Longrightarrow> I (s\<lparr>next_escaped := e\<rparr>)"
    and I_seq: "I s \<Longrightarrow> I (s\<lparr>rx_send_seq := n\<rparr>)"
    and I_len: "I s \<Longrightarrow> I (s\<lparr>rx_buffer_len := l\<rparr>)"
    and I_buffer: "I s \<Longrightarrow> I (s\<lparr>rx_buffer := b\<rparr>)"
begin

lemmas I_rx = I_crc I_escaped I_seq I_len I_buffer

lemma process_frame_ok:
  "rx_ok s \<Longrightarrow> I s \<Longrightarrow> hdlc_process_frame cb s = Inr s' \<Longrightarrow> rx_ok s' \<and> I s'"
  by (auto simp: hdlc_process_frame_def hdlc_process_complete_frame_def
      intro: I_rx dest: cb_ok split: if_splits prod.splits)

lemma save_byte_ok: "rx_ok s \<Longrightarrow> I s \<Longrightarrow> hdlc_save_byte b s = Inr s' \<Longrightarrow> rx_ok s' \<and> I s'"
  by (auto simp: hdlc_save_byte_eq rx_ok_def hdlc_consts intro!: I_rx split: if_splits)

lemma input_byte_ok:
  assumes "rx_ok s" "I s" "hdlc_rx_input_byte cb z b s = Inr s'"
  shows "rx_ok s' \<and> I s'"
proof (cases "b = HDLC_FRAME \<or> b = HDLC_ESC")
  case True
  with assms show ?thesis
    by (auto simp: hdlc_rx_input_byte_def hdlc_consts intro: I_rx dest: process_frame_ok split: if_splits)
next
  case False
  define b' where "b' = (if next_escaped s then b XOR 0x20 else b)"
  define t where "t = (if next_escaped s then s\<lparr>next_escaped := False\<rparr> else s)
    \<lparr>crc := crc16_ccitt z (crc s) [b']\<rparr>"
  have "rx_ok t" "I t" using assms by (simp_all add: t_def I_rx)
  moreover have "hdlc_save_byte b' t = Inr s'"
    using assms(3) False by (auto simp: hdlc_rx_input_byte_def b'_def t_def split: if_splits)
  ultimately show ?thesis by (rule save_byte_ok)
qed

lemma process_buffer_ok:
  assumes "rx_ok s" "I s" "hdlc_process_buffer cb z buf s = Inr (n, s')"
  shows "rx_ok s' \<and> I s'"
proof -
  from assms(3) have "foldres (hdlc_rx_input_byte cb z) buf s = Inr s'"
    by (auto simp: hdlc_process_buffer_def)
  from foldres_invariant [where P = "\<lambda>s. rx_ok s \<and> I s", OF _ _ this] show ?thesis
    using assms(1,2) input_byte_ok by blast
qed

end

definition keeps_rx :: "('w, 'a) process_cb \<Rightarrow> bool" where
  "keeps_rx cb \<longleftrightarrow> (\<forall>buf len a s r s'. rx_ok s \<longrightarrow> cb buf len a s = Inr (r, s') \<longrightarrow> rx_ok s')"

lemma rx_input_byte_ok:
  assumes "keeps_rx cb" "rx_ok s" "hdlc_rx_input_byte cb z b s = Inr s'"
  shows "rx_ok s'"
proof -
  have "frame_handler cb (\<lambda>_. True)"
    using assms(1) by unfold_locales (auto simp: keeps_rx_def)
  from frame_handler.input_byte_ok [OF this assms(2) _ assms(3)] show ?thesis by simp
qed

text \<open>The driver itself never faults: any fault while a byte is processed is the callback's.\<close>

lemma hdlc_save_byte_not_Inl: "rx_ok s \<Longrightarrow> hdlc_save_byte b s \<noteq> Inl f"
  by (simp add: hdlc_save_byte_eq)

lemma hdlc_process_frame_Inl:
  "rx_ok s \<Longrightarrow> hdlc_process_frame cb s = Inl f \<Longrightarrow>
     cb (drop 2 (rx_buffer s)) (rx_buffer_len s - 4) (rx_buffer s ! 0) s = Inl f"
  by (cases "cb (drop 2 (rx_buffer s)) (rx_buffer_len s - 4) (rx_buffer s ! 0) s")
    (auto simp: hdlc_process_frame_def hdlc_process_complete_frame_def size_sub_exact rx_ok_def
      hdlc_consts split: if_splits)

lemma hdlc_rx_input_byte_Inl:
  assumes "rx_ok s" "hdlc_rx_input_byte cb z b s = Inl f"
  shows "b = HDLC_FRAME \<and> 3 < rx_buffer_len s \<and> crc s = 0xf0b8 \<and>
    cb (drop 2 (rx_buffer s)) (rx_buffer_len s - 4) (rx_buffer s ! 0) s = Inl f"
proof -
  have b: "b = HDLC_FRAME"
    using assms by (auto simp: hdlc_rx_input_byte_def Let_def hdlc_save_byte_not_Inl split: if_splits prod.splits)
  with assms have pf: "hdlc_process_frame cb s = Inl f"
    by (simp add: hdlc_rx_input_byte_def split: if_splits)
  then have "3 < rx_buffer_len s \<and> crc s = 0xf0b8"
    by (auto simp: hdlc_process_frame_def split: if_splits)
  with b pf hdlc_process_frame_Inl [OF assms(1)] show ?thesis by blast
qed

section \<open>Receive path: from the wire back to the payload\<close>

text \<open>The driver after it has taken in the unescaped bytes \<open>bs\<close> of a frame.\<close>

definition rx_loaded :: "'w zephyr \<Rightarrow> byte list \<Rightarrow> ('w, 'a) hd \<Rightarrow> ('w, 'a) hd" where
  "rx_loaded z bs s = s\<lparr>crc := crc_chain z (crc s) bs,
     rx_buffer := take (rx_buffer_len s) (rx_buffer s) @ bs @ drop (rx_buffer_len s + length bs) (rx_buffer s),
     rx_buffer_len := rx_buffer_len s + length bs\<rparr>"

lemma not_escaped_update: "\<not> next_escaped s \<Longrightarrow> s\<lparr>next_escaped := False\<rparr> = s"
  by simp

lemma rx_escaped_byte:
  assumes "rx_ok s" "\<not> next_escaped s" "rx_buffer_len s < HDLC_MAX_BLOCK_SIZE"
  shows "foldres (hdlc_rx_input_byte cb z) (hdlc_escape_byte b) s = Inr (rx_loaded z [b] s)"
proof -
  have upd: "(rx_buffer s)[rx_buffer_len s := b] =
      take (rx_buffer_len s) (rx_buffer s) @ b # drop (Suc (rx_buffer_len s)) (rx_buffer s)"
    using assms by (simp add: upd_conv_take_nth_drop rx_ok_def)
  have "b XOR 32 XOR 32 = b" by (simp add: xor.assoc)
  with assms upd show ?thesis
    by (auto simp: hdlc_escape_byte_def hdlc_rx_input_byte_def hdlc_save_byte_eq rx_loaded_def
        hdlc_consts not_escaped_update)
qed

lemma rx_loaded_ok:
  "rx_ok s \<Longrightarrow> rx_buffer_len s + length bs \<le> HDLC_MAX_BLOCK_SIZE \<Longrightarrow> rx_ok (rx_loaded z bs s)"
  by (auto simp: rx_ok_def rx_loaded_def)

lemma rx_loaded_Nil [simp]: "rx_loaded z [] s = s"
  by (simp add: rx_loaded_def)

lemma rx_loaded_Cons:
  "rx_ok s \<Longrightarrow> rx_buffer_len s < HDLC_MAX_BLOCK_SIZE \<Longrightarrow>
     rx_loaded z bs (rx_loaded z [b] s) = rx_loaded z (b # bs) s"
  by (simp add: rx_loaded_def rx_ok_def add.commute)

lemma rx_escaped_bytes:
  "rx_ok s \<Longrightarrow> \<not> next_escaped s \<Longrightarrow> rx_buffer_len s + length bs \<le> HDLC_MAX_BLOCK_SIZE \<Longrightarrow>
     foldres (hdlc_rx_input_byte cb z) (hdlc_escape bs) s = Inr (rx_loaded z bs s)"
proof (induction bs arbitrary: s)
  case Nil
  then show ?case by simp
next
  case (Cons b bs)
  have "foldres (hdlc_rx_input_byte cb z) (hdlc_escape bs) (rx_loaded z [b] s) =
      Inr (rx_loaded z bs (rx_loaded z [b] s))"
    by (rule Cons.IH) (use Cons.prems in \<open>auto simp: rx_ok_def rx_loaded_def\<close>)
  with Cons.prems show ?case
    by (simp add: foldres_append rx_escaped_byte rx_loaded_Cons)
qed

text \<open>A leading flag on an idle driver is skipped, so frames may share or repeat flags.\<close>

lemma rx_flag_idle: "rx_buffer_len s = 0 \<Longrightarrow> hdlc_rx_input_byte cb z HDLC_FRAME s = Inr s"
  by (simp add: hdlc_rx_input_byte_def)

definition rx_reset :: "('w, 'a) hd \<Rightarrow> ('w, 'a) hd" where
  "rx_reset s = s\<lparr>crc := 0xffff, rx_buffer_len := 0\<rparr>"

lemma rx_flag_end:
  "rx_buffer_len s \<noteq> 0 \<Longrightarrow> hdlc_rx_input_byte cb z HDLC_FRAME s = hdlc_process_frame cb s"
  by (simp add: hdlc_rx_input_byte_def)

lemma hdlc_process_frame_reset:
  "hdlc_process_frame cb s =
     bnd (if 3 < rx_buffer_len s \<and> crc s = 0xf0b8
          then bnd (buf_get (rx_buffer s) 1) (\<lambda>ctrl.
                 if ctrl AND 1 = 0 then Inr (s\<lparr>rx_send_seq := drop_bit 5 ctrl AND 0x07\<rparr>)
                 else hdlc_process_complete_frame cb s)
          else Inr s) (\<lambda>s. Inr (rx_reset s))"
  by (simp add: hdlc_process_frame_def rx_reset_def)

text \<open>
  A whole frame through the receiver: the callback runs once, on exactly the payload the frame
  was built from, and the driver is ready for the next frame.
\<close>

lemma rx_whole_frame:
  assumes "crc_documented z" "rx_ok s" "rx_idle s" "length payload + 4 \<le> HDLC_MAX_BLOCK_SIZE"
    and "control AND 1 \<noteq> 0"
  shows "foldres (hdlc_rx_input_byte cb z) (hdlc_frame z address control payload) s =
    bnd (cb (payload @ hdlc_fcs z (address # control # payload) @
               drop (length payload + 4) (rx_buffer s))
            (length payload) address (rx_loaded z (hdlc_body z address control payload) s))
        (\<lambda>(ret, s). Inr (rx_reset s))"
proof -
  let ?body = "hdlc_body z address control payload"
  let ?t = "rx_loaded z ?body s"
  have idle: "crc s = 0xffff" "\<not> next_escaped s" "rx_buffer_len s = 0"
    using assms(3) by (simp_all add: rx_idle_def)
  have load: "foldres (hdlc_rx_input_byte cb z) (hdlc_escape ?body) s = Inr ?t"
    by (rule rx_escaped_bytes) (use assms idle in simp_all)
  have t: "rx_buffer_len ?t = length payload + 4" "crc ?t = 0xf0b8"
    "rx_buffer ?t = ?body @ drop (length payload + 4) (rx_buffer s)"
    using idle crc_chain_body [OF assms(1)] by (simp_all add: rx_loaded_def)
  have "hdlc_process_frame cb ?t =
    bnd (cb (payload @ hdlc_fcs z (address # control # payload) @
               drop (length payload + 4) (rx_buffer s)) (length payload) address ?t)
        (\<lambda>(ret, s). Inr (rx_reset s))"
    using t assms(4,5) unfolding hdlc_process_frame_reset hdlc_process_complete_frame_def
    by (simp add: hdlc_body_def size_sub_exact hdlc_consts bnd_assoc split_def)
  with load t show ?thesis
    by (simp add: hdlc_frame_def foldres_append rx_flag_idle [OF idle(3)] rx_flag_end split_def)
qed

section \<open>Receive path: rejected input and recovery\<close>

lemma crc_chain_inject:
  "crc_documented z \<Longrightarrow> crc_chain z c bs = crc_chain z d bs \<longleftrightarrow> c = d"
  by (induction bs arbitrary: c d) (simp_all add: crc_documented_byte crc_byte_inject_crc)

lemma crc_chain_update:
  assumes "crc_documented z" "i < length bs" "b \<noteq> bs ! i"
  shows "crc_chain z c (bs[i := b]) \<noteq> crc_chain z c bs"
proof -
  have "bs = take i bs @ bs ! i # drop (Suc i) bs"
    by (simp add: assms(2) id_take_nth_drop)
  then have "crc_chain z c bs = crc_chain z c (take i bs @ bs ! i # drop (Suc i) bs)"
    by simp
  moreover have "bs[i := b] = take i bs @ b # drop (Suc i) bs"
    by (rule upd_conv_take_nth_drop) (rule assms)
  ultimately show ?thesis
    using assms by (simp add: crc_chain_inject crc_documented_byte crc_byte_inject_byte)
qed

text \<open>A stretch of stuffed bytes between two flags that does not check is dropped.\<close>

lemma rx_bad_body:
  assumes "rx_ok s" "rx_idle s" "length body \<le> HDLC_MAX_BLOCK_SIZE"
    and "length body \<le> 3 \<or> crc_chain z 0xffff body \<noteq> 0xf0b8"
  shows "foldres (hdlc_rx_input_byte cb z) (HDLC_FRAME # hdlc_escape body @ [HDLC_FRAME]) s =
    Inr (rx_reset (rx_loaded z body s))"
proof -
  let ?t = "rx_loaded z body s"
  have idle: "crc s = 0xffff" "\<not> next_escaped s" "rx_buffer_len s = 0"
    using assms(2) by (simp_all add: rx_idle_def)
  have load: "foldres (hdlc_rx_input_byte cb z) (hdlc_escape body) s = Inr ?t"
    by (rule rx_escaped_bytes) (use assms idle in simp_all)
  have t: "rx_buffer_len ?t = length body" "crc ?t = crc_chain z 0xffff body"
    using idle by (simp_all add: rx_loaded_def)
  have drop: "hdlc_process_frame cb ?t = Inr (rx_reset ?t)"
    using t assms(4) by (auto simp: hdlc_process_frame_reset)
  show ?thesis
  proof (cases "body = []")
    case True
    with idle show ?thesis by (simp add: rx_flag_idle rx_reset_def)
  next
    case False
    with load t drop show ?thesis
      by (simp add: foldres_append rx_flag_idle [OF idle(3)] rx_flag_end)
  qed
qed

text \<open>Between frames the running CRC is at its seed.\<close>

definition rx_sync :: "('w, 'a) hd \<Rightarrow> bool" where
  "rx_sync s \<longleftrightarrow> (rx_buffer_len s = 0 \<longrightarrow> crc s = 0xffff)"

lemma hdlc_process_frame_sync:
  "hdlc_process_frame cb s = Inr t \<Longrightarrow> rx_buffer_len t = 0 \<and> crc t = 0xffff"
  by (auto simp: hdlc_process_frame_reset rx_reset_def)

lemma rx_sync_flag:
  "rx_sync s \<Longrightarrow> hdlc_rx_input_byte cb z HDLC_FRAME s = Inr t \<Longrightarrow> rx_buffer_len t = 0 \<and> crc t = 0xffff"
  by (auto simp: hdlc_rx_input_byte_def rx_sync_def dest: hdlc_process_frame_sync split: if_splits)

lemma hdlc_save_byte_nonempty: "hdlc_save_byte b s = Inr t \<Longrightarrow> rx_ok s \<Longrightarrow> rx_buffer_len t \<noteq> 0"
  by (auto simp: hdlc_save_byte_eq split: if_splits)

lemma rx_sync_byte:
  assumes "rx_ok s" "rx_sync s" "hdlc_rx_input_byte cb z b s = Inr t"
  shows "rx_sync t"
proof (cases "b = HDLC_FRAME \<or> b = HDLC_ESC")
  case True
  with assms show ?thesis
    by (auto simp: hdlc_rx_input_byte_def hdlc_consts rx_sync_def dest: hdlc_process_frame_sync split: if_splits)
next
  case False
  with assms have "rx_buffer_len t \<noteq> 0"
    by (auto simp: hdlc_rx_input_byte_def Let_def dest!: hdlc_save_byte_nonempty split: if_splits)
  then show ?thesis by (simp add: rx_sync_def)
qed

lemma rx_idle_after_flag:
  "rx_sync s \<Longrightarrow> hdlc_rx_input_byte cb z HDLC_FRAME s = Inr t \<Longrightarrow> \<not> next_escaped t \<Longrightarrow> rx_idle t"
  by (auto simp: rx_idle_def dest: rx_sync_flag)

lemma hdlc_init_rx: "rx_sync (snd (hdlc_init s))" "rx_idle (snd (hdlc_init s))"
  by (simp_all add: hdlc_init_def rx_sync_def rx_idle_def)

section \<open>Properties of the link layer\<close>

definition sample_hd :: "sample_world hdlc_driver" where
  "sample_hd = \<lparr>world = ([], []), uart_tx = [], crc = 0xffff, next_escaped = False, rx_send_seq = 0,
     send_seq = 0, rx_buffer_len = 0, rx_buffer = replicate HDLC_MAX_BLOCK_SIZE 0, rx_work_pending = False\<rparr>"

definition sample_cb :: "('w, 'a) process_cb" where
  "sample_cb buf len a s = Inr (0, s)"

definition sample_bad_cb :: "('w, 'a) process_cb" where
  "sample_bad_cb buf len a s = Inl NullDeref"

lemma sample_hd_ok: "rx_ok sample_hd" "rx_idle sample_hd" "rx_sync sample_hd"
  by (simp_all add: sample_hd_def rx_ok_def rx_idle_def rx_sync_def)

lemma sample_hd_sel [simp]: "rx_buffer_len sample_hd = 0" "\<not> next_escaped sample_hd"
  by (simp_all add: sample_hd_def)

lemma sample_keeps_rx: "keeps_rx sample_cb" "keeps_rx sample_bad_cb"
  by (simp_all add: keeps_rx_def sample_cb_def sample_bad_cb_def)

text \<open>
  C1. What one side sends the other side receives.  The bytes \<open>hdlc_block_send_sync\<close> puts on the
  UART for a block of \<open>n\<close> bytes, fed to an idle receiver, make it call its frame callback exactly
  once, with the same \<open>n\<close> bytes, the same length and the same address, whatever those bytes are
  (flag and escape values included), and leave it ready for the next frame.  The block fits with its
  address, control and check octets (\<open>n + 4 \<le> 256\<close>), and the control octet is odd, as the one all
  callers pass is.
\<close>

theorem hdlc_roundtrip:
  assumes "crc_documented z" and "rx_ok s" and "rx_idle s"
    and "n \<le> length buffer" and "n + 4 \<le> HDLC_MAX_BLOCK_SIZE" and "control AND 1 \<noteq> 0"
  shows "\<exists>wire window t b.
    hdlc_block_send_sync hdlc_send_callback z buffer n address control tx =
      Inr (0, tx\<lparr>uart_tx := uart_tx tx @ wire\<rparr>) \<and>
    take n window = take n buffer \<and>
    t = s\<lparr>crc := 0xf0b8, rx_buffer := b, rx_buffer_len := n + 4\<rparr> \<and>
    hdlc_process_buffer cb z wire s =
      bnd (cb window n address t) (\<lambda>(ret, s). Inr (int (length wire), rx_reset s))"
proof (intro exI conjI)
  let ?p = "take n buffer"
  let ?wire = "hdlc_frame z address control ?p"
  let ?t = "rx_loaded z (hdlc_body z address control ?p) s"
  let ?w = "?p @ hdlc_fcs z (address # control # ?p) @ drop (length ?p + 4) (rx_buffer s)"
  have idle: "crc s = 0xffff" "rx_buffer_len s = 0" using assms(3) by (simp_all add: rx_idle_def)
  have len: "length ?p = n" using assms(4) by simp
  have "control \<noteq> 0" using assms(6) by auto
  then show "hdlc_block_send_sync hdlc_send_callback z buffer n address control tx =
      Inr (0, tx\<lparr>uart_tx := uart_tx tx @ ?wire\<rparr>)"
    using assms(4) by (simp add: hdlc_block_send_uart)
  show "take n ?w = ?p" using len by simp
  show "?t = s\<lparr>crc := 0xf0b8, rx_buffer := rx_buffer ?t, rx_buffer_len := n + 4\<rparr>"
    using idle len crc_chain_body [OF assms(1)] by (simp add: rx_loaded_def)
  have "foldres (hdlc_rx_input_byte cb z) ?wire s =
      bnd (cb ?w (length ?p) address ?t) (\<lambda>(ret, s). Inr (rx_reset s))"
    by (rule rx_whole_frame) (use assms len in simp_all)
  then show "hdlc_process_buffer cb z ?wire s =
      bnd (cb ?w n address ?t) (\<lambda>(ret, s). Inr (int (length ?wire), rx_reset s))"
    unfolding len by (simp add: hdlc_process_buffer_def bnd_assoc split_def)
qed

theorem hdlc_roundtrip_witness:
  "\<exists>wire window t b.
    hdlc_block_send_sync hdlc_send_callback sample_zephyr [0x7E, 0x7D, 1] 3 1 3 sample_hd =
      Inr (0, sample_hd\<lparr>uart_tx := uart_tx sample_hd @ wire\<rparr>) \<and>
    take 3 window = take 3 ([0x7E, 0x7D, 1] :: byte list) \<and>
    t = sample_hd\<lparr>crc := 0xf0b8, rx_buffer := b, rx_buffer_len := 3 + 4\<rparr> \<and>
    hdlc_process_buffer sample_cb sample_zephyr wire sample_hd =
      bnd (sample_cb window 3 1 t) (\<lambda>(ret, s). Inr (int (length wire), rx_reset s))"
  by (rule hdlc_roundtrip)
    (simp_all add: sample_documented sample_hd_ok HDLC_MAX_BLOCK_SIZE_def)

text \<open>
  Recovery.  Whatever bytes came before, once a flag has been seen (and no escape is pending)
  the next frame is received as if the line had been quiet: its callback runs on its payload.
  The only demand on the callback is that it leaves the receive buffer's shape alone.
\<close>

lemma hdlc_resync:
  assumes "crc_documented z" and "rx_ok s" and "rx_sync s"
    and cb: "keeps_rx cb"
    and junk: "hdlc_process_buffer cb z (junk @ [HDLC_FRAME]) s = Inr (m, t)" and "\<not> next_escaped t"
    and "length payload + 4 \<le> HDLC_MAX_BLOCK_SIZE" and "control AND 1 \<noteq> 0"
  shows "\<exists>window u. take (length payload) window = payload \<and> world u = world t \<and> uart_tx u = uart_tx t \<and>
    hdlc_process_buffer cb z (junk @ [HDLC_FRAME] @ hdlc_frame z address control payload) s =
      bnd (cb window (length payload) address u)
        (\<lambda>(ret, s). Inr (m + int (length (hdlc_frame z address control payload)), rx_reset s))"
proof (intro exI conjI)
  let ?f = "hdlc_rx_input_byte cb z" and ?body = "hdlc_body z address control payload"
  let ?w = "payload @ hdlc_fcs z (address # control # payload) @ drop (length payload + 4) (rx_buffer t)"
  have fold_junk: "foldres ?f (junk @ [HDLC_FRAME]) s = Inr t" and m: "m = int (length junk + 1)"
    using junk by (auto simp: hdlc_process_buffer_def)
  then obtain u where u: "foldres ?f junk s = Inr u" "?f HDLC_FRAME u = Inr t"
    by (auto simp: foldres_append)
  have step: "rx_ok s \<and> rx_sync s \<Longrightarrow> ?f b s = Inr s' \<Longrightarrow> rx_ok s' \<and> rx_sync s'" for b s s'
    using rx_input_byte_ok [OF cb] rx_sync_byte by blast
  have "rx_ok u \<and> rx_sync u"
    by (rule foldres_invariant [where P = "\<lambda>s. rx_ok s \<and> rx_sync s", OF _ _ u(1)])
      (use step assms in blast)+
  with step [OF _ u(2)] rx_idle_after_flag [OF _ u(2)] assms(6) have "rx_ok t" "rx_idle t" by blast+
  then have "foldres ?f (hdlc_frame z address control payload) t =
      bnd (cb ?w (length payload) address (rx_loaded z ?body t)) (\<lambda>(ret, s). Inr (rx_reset s))"
    using assms by (intro rx_whole_frame)
  then have "foldres ?f ((junk @ [HDLC_FRAME]) @ hdlc_frame z address control payload) s =
      bnd (cb ?w (length payload) address (rx_loaded z ?body t)) (\<lambda>(ret, s). Inr (rx_reset s))"
    unfolding foldres_append [of _ "junk @ [HDLC_FRAME]"] fold_junk by simp
  then show "hdlc_process_buffer cb z (junk @ [HDLC_FRAME] @ hdlc_frame z address control payload) s =
      bnd (cb ?w (length payload) address (rx_loaded z ?body t))
        (\<lambda>(ret, s). Inr (m + int (length (hdlc_frame z address control payload)), rx_reset s))"
    by (simp add: hdlc_process_buffer_def bnd_assoc split_def m add.assoc)
  show "take (length payload) ?w = payload" by simp
  show "world (rx_loaded z ?body t) = world t" "uart_tx (rx_loaded z ?body t) = uart_tx t"
    by (simp_all add: rx_loaded_def)
qed

lemma hdlc_resync_witness:
  "\<exists>window u. take (length ([9] :: byte list)) window = [9] \<and>
    world u = world (rx_reset (rx_loaded sample_zephyr [1, 2] sample_hd)) \<and>
    uart_tx u = uart_tx (rx_reset (rx_loaded sample_zephyr [1, 2] sample_hd)) \<and>
    hdlc_process_buffer sample_cb sample_zephyr ([1, 2] @ [HDLC_FRAME] @ hdlc_frame sample_zephyr 1 3 [9]) sample_hd =
      bnd (sample_cb window (length ([9] :: byte list)) 1 u)
        (\<lambda>(ret, s). Inr (3 + int (length (hdlc_frame sample_zephyr 1 3 [9])), rx_reset s))"
proof (rule hdlc_resync)
  have "foldres (hdlc_rx_input_byte sample_cb sample_zephyr) (HDLC_FRAME # hdlc_escape [1, 2] @ [HDLC_FRAME]) sample_hd =
      Inr (rx_reset (rx_loaded sample_zephyr [1, 2] sample_hd))"
    by (rule rx_bad_body) (simp_all add: sample_hd_ok HDLC_MAX_BLOCK_SIZE_def)
  moreover have "hdlc_escape [1, 2] = [1, 2]"
    by (simp add: hdlc_escape_byte_def hdlc_consts)
  moreover have "rx_buffer_len sample_hd = 0" by simp
  ultimately have "foldres (hdlc_rx_input_byte sample_cb sample_zephyr) ([1, 2] @ [HDLC_FRAME]) sample_hd =
      Inr (rx_reset (rx_loaded sample_zephyr [1, 2] sample_hd))"
    by (simp only: foldres.simps rx_flag_idle bnd_Inr append.simps)
  then show "hdlc_process_buffer sample_cb sample_zephyr ([1, 2] @ [HDLC_FRAME]) sample_hd =
      Inr (3, rx_reset (rx_loaded sample_zephyr [1, 2] sample_hd))"
    by (simp add: hdlc_process_buffer_def del: foldres.simps)
qed (simp_all add: sample_documented sample_hd_ok HDLC_MAX_BLOCK_SIZE_def sample_keeps_rx
      rx_reset_def rx_loaded_def)

text \<open>
  The driver adds no fault of its own: on any byte stream whatsoever, if processing it faults,
  then the frame callback faulted, on a frame that was longer than three bytes, checked, and was
  handed over from inside the receive buffer.
\<close>

lemma hdlc_faults_are_callback_faults:
  assumes "rx_ok s"
    and cb: "keeps_rx cb"
    and "hdlc_process_buffer cb z buf s = Inl f"
  shows "\<exists>t. rx_ok t \<and> 3 < rx_buffer_len t \<and> rx_buffer_len t \<le> length (rx_buffer t) \<and> crc t = 0xf0b8 \<and>
    cb (drop 2 (rx_buffer t)) (rx_buffer_len t - 4) (rx_buffer t ! 0) t = Inl f"
proof -
  have step: "rx_ok s \<Longrightarrow> hdlc_rx_input_byte cb z b s = Inr s' \<Longrightarrow> rx_ok s'" for b s s'
    using rx_input_byte_ok [OF cb] by blast
  have "rx_ok s \<Longrightarrow> foldres (hdlc_rx_input_byte cb z) buf s = Inl f \<Longrightarrow>
      \<exists>t b. rx_ok t \<and> hdlc_rx_input_byte cb z b t = Inl f"
  proof (induction buf arbitrary: s)
    case Nil
    then show ?case by simp
  next
    case (Cons b buf)
    show ?case
    proof (cases "hdlc_rx_input_byte cb z b s")
      case (Inl e)
      with Cons.prems show ?thesis by auto
    next
      case (Inr s')
      with Cons.prems step Cons.IH show ?thesis by fastforce
    qed
  qed
  then obtain t b where "rx_ok t" "hdlc_rx_input_byte cb z b t = Inl f"
    using assms(1,3) by (cases "foldres (hdlc_rx_input_byte cb z) buf s") (auto simp: hdlc_process_buffer_def)
  with hdlc_rx_input_byte_Inl [OF this] show ?thesis by (auto simp: rx_ok_def)
qed

lemma hdlc_faults_are_callback_faults_witness:
  "\<exists>t :: sample_world hdlc_driver. rx_ok t \<and> 3 < rx_buffer_len t \<and>
    rx_buffer_len t \<le> length (rx_buffer t) \<and> crc t = 0xf0b8 \<and>
    sample_bad_cb (drop 2 (rx_buffer t)) (rx_buffer_len t - 4) (rx_buffer t ! 0) t = Inl NullDeref"
proof (rule hdlc_faults_are_callback_faults)
  have "foldres (hdlc_rx_input_byte sample_bad_cb sample_zephyr) (hdlc_frame sample_zephyr 1 3 [9]) sample_hd =
      Inl NullDeref"
    using rx_whole_frame [OF sample_documented(1) sample_hd_ok(1,2), of "[9]" 3 sample_bad_cb 1]
    by (simp add: HDLC_MAX_BLOCK_SIZE_def sample_bad_cb_def)
  then show "hdlc_process_buffer sample_bad_cb sample_zephyr (hdlc_frame sample_zephyr 1 3 [9]) sample_hd =
      Inl NullDeref"
    by (simp add: hdlc_process_buffer_def)
qed (simp_all add: sample_hd_ok sample_keeps_rx)

text \<open>
  A pending escape survives a flag.  After the two bytes \<open>HDLC_ESC HDLC_FRAME\<close> (the HDLC abort
  sequence) the driver has closed the frame but still holds \<open>next_escaped\<close>, so the first ordinary
  byte of the next frame, its address, is stored with bit 5 flipped.
\<close>

lemma hdlc_escape_survives_flag:
  assumes "rx_ok s" and "rx_buffer_len s = 0" and "b \<noteq> HDLC_FRAME" and "b \<noteq> HDLC_ESC"
  shows "\<exists>t. hdlc_process_buffer cb z [HDLC_ESC, HDLC_FRAME, b] s = Inr (3, t) \<and>
    rx_buffer_len t = 1 \<and> rx_buffer t ! 0 = b XOR 0x20"
  using assms
  by (auto simp: hdlc_process_buffer_def hdlc_rx_input_byte_def hdlc_save_byte_eq rx_ok_def hdlc_consts)

lemma hdlc_escape_survives_flag_witness:
  "\<exists>t. hdlc_process_buffer sample_cb sample_zephyr [HDLC_ESC, HDLC_FRAME, ADDRESS_GREYBUS] sample_hd =
     Inr (3, t) \<and> rx_buffer_len t = 1 \<and> rx_buffer t ! 0 = ADDRESS_GREYBUS XOR 0x20"
  by (rule hdlc_escape_survives_flag) (simp_all add: hdlc_consts sample_hd_ok)

text \<open>
  C19. The transmit routine against the wire format: for a buffer of at least \<open>buffer_len\<close> bytes,
  \<open>hdlc_block_send_sync\<close> returns 0 and puts on the UART exactly the reference frame, flag, stuffed body
  with check sequence, flag, and changes nothing else; a zero control byte is replaced by the
  sequence number in its upper bits.  The frame has no flag inside and at most doubles the body.
\<close>

theorem hdlc_send_is_reference_frame:
  assumes "n \<le> length buffer"
  shows "hdlc_block_send_sync hdlc_send_callback z buffer n address control s =
      Inr (0, s\<lparr>uart_tx := uart_tx s @
        hdlc_frame z address (if control = 0 then push_bit 1 (send_seq s) else control) (take n buffer)\<rparr>) \<and>
    HDLC_FRAME \<notin> set (butlast (tl (hdlc_frame z address c (take n buffer)))) \<and>
    length (hdlc_frame z address c (take n buffer)) \<le> 2 * n + 10"
proof -
  have "length (hdlc_escape bs) \<le> 2 * length bs" for bs
    by (induction bs) (auto simp: hdlc_escape_byte_def)
  from this [of "hdlc_body z address c (take n buffer)"] assms
  have "HDLC_FRAME \<notin> set (butlast (tl (hdlc_frame z address c (take n buffer))))"
    "length (hdlc_frame z address c (take n buffer)) \<le> 2 * n + 10"
    by (simp_all add: hdlc_frame_def butlast_append flag_not_in_escape)
  with assms show ?thesis by (simp add: uart.block_send hdlc_send_callback_def fold_uart_poll_out)
qed

theorem hdlc_send_is_reference_frame_witness:
  "hdlc_block_send_sync hdlc_send_callback sample_zephyr [0x7e, 2, 0x7d] 2 ADDRESS_DBG 0 sample_hd =
      Inr (0, sample_hd\<lparr>uart_tx := uart_tx sample_hd @
        hdlc_frame sample_zephyr ADDRESS_DBG (if (0 :: u8) = 0 then push_bit 1 (send_seq sample_hd) else 0) (take 2 [0x7e, 2, 0x7d])\<rparr>) \<and>
    HDLC_FRAME \<notin> set (butlast (tl (hdlc_frame sample_zephyr ADDRESS_DBG 3 (take 2 [0x7e, 2, 0x7d])))) \<and>
    length (hdlc_frame sample_zephyr ADDRESS_DBG 3 (take 2 [0x7e, 2, 0x7d])) \<le> 2 * 2 + 10"
  by (rule hdlc_send_is_reference_frame) simp

end
