(* ===== verification/Greybus_Protocols.thy ===== *)
theory Greybus_Protocols
  imports Prelude
begin

text \<open>
  The part of include/greybus_protocols.h the firmware uses: the operation message header, the
  request types and status values of the SVC and control protocols, and the payload structures it
  reads or fills in.  All structures are packed and little endian, as is the CPU, so the memory
  image of a structure is its wire image; the declarations themselves are in \<open>Control_Layouts\<close>, and
  \<open>Wire_Formats\<close> shows that what is built and read here agrees with them.
\<close>

section \<open>Constants\<close>

definition GB_OP_RESPONSE :: u8 where [gb_consts]: "GB_OP_RESPONSE = 0x80"

definition GB_RESPONSE :: "u8 \<Rightarrow> u8" where [gb_consts]: "GB_RESPONSE req = req OR GB_OP_RESPONSE"

definition GB_REQUEST_TYPE_CPORT_SHUTDOWN :: u8 where [gb_consts]: "GB_REQUEST_TYPE_CPORT_SHUTDOWN = 0x00"
definition GB_REQUEST_TYPE_INVALID :: u8 where [gb_consts]: "GB_REQUEST_TYPE_INVALID = 0x7f"
definition GB_CONTROL_TYPE_VERSION :: u8 where [gb_consts]: "GB_CONTROL_TYPE_VERSION = 0x01"
definition GB_CONTROL_TYPE_GET_MANIFEST_SIZE :: u8 where [gb_consts]: "GB_CONTROL_TYPE_GET_MANIFEST_SIZE = 0x03"
definition GB_CONTROL_TYPE_GET_MANIFEST :: u8 where [gb_consts]: "GB_CONTROL_TYPE_GET_MANIFEST = 0x04"
definition GB_CONTROL_TYPE_CONNECTED :: u8 where [gb_consts]: "GB_CONTROL_TYPE_CONNECTED = 0x05"
definition GB_CONTROL_TYPE_DISCONNECTED :: u8 where [gb_consts]: "GB_CONTROL_TYPE_DISCONNECTED = 0x06"
definition GB_CONTROL_TYPE_TIMESYNC_ENABLE :: u8 where [gb_consts]: "GB_CONTROL_TYPE_TIMESYNC_ENABLE = 0x07"
definition GB_CONTROL_TYPE_TIMESYNC_DISABLE :: u8 where [gb_consts]: "GB_CONTROL_TYPE_TIMESYNC_DISABLE = 0x08"
definition GB_CONTROL_TYPE_TIMESYNC_AUTHORITATIVE :: u8 where
  [gb_consts]: "GB_CONTROL_TYPE_TIMESYNC_AUTHORITATIVE = 0x09"
definition GB_CONTROL_TYPE_DISCONNECTING :: u8 where [gb_consts]: "GB_CONTROL_TYPE_DISCONNECTING = 0x0c"
definition GB_CONTROL_TYPE_INTF_HIBERNATE_ABORT :: u8 where
  [gb_consts]: "GB_CONTROL_TYPE_INTF_HIBERNATE_ABORT = 0x15"

definition GB_SVC_VERSION_MAJOR :: u8 where [gb_consts]: "GB_SVC_VERSION_MAJOR = 0x00"
definition GB_SVC_VERSION_MINOR :: u8 where [gb_consts]: "GB_SVC_VERSION_MINOR = 0x01"

definition GB_SVC_TYPE_PROTOCOL_VERSION :: u8 where [gb_consts]: "GB_SVC_TYPE_PROTOCOL_VERSION = 0x01"
definition GB_SVC_TYPE_SVC_HELLO :: u8 where [gb_consts]: "GB_SVC_TYPE_SVC_HELLO = 0x02"
definition GB_SVC_TYPE_INTF_DEVICE_ID :: u8 where [gb_consts]: "GB_SVC_TYPE_INTF_DEVICE_ID = 0x03"
definition GB_SVC_TYPE_CONN_CREATE :: u8 where [gb_consts]: "GB_SVC_TYPE_CONN_CREATE = 0x07"
definition GB_SVC_TYPE_CONN_DESTROY :: u8 where [gb_consts]: "GB_SVC_TYPE_CONN_DESTROY = 0x08"
definition GB_SVC_TYPE_DME_PEER_GET :: u8 where [gb_consts]: "GB_SVC_TYPE_DME_PEER_GET = 0x09"
definition GB_SVC_TYPE_DME_PEER_SET :: u8 where [gb_consts]: "GB_SVC_TYPE_DME_PEER_SET = 0x0a"
definition GB_SVC_TYPE_ROUTE_CREATE :: u8 where [gb_consts]: "GB_SVC_TYPE_ROUTE_CREATE = 0x0b"
definition GB_SVC_TYPE_ROUTE_DESTROY :: u8 where [gb_consts]: "GB_SVC_TYPE_ROUTE_DESTROY = 0x0c"
definition GB_SVC_TYPE_INTF_SET_PWRM :: u8 where [gb_consts]: "GB_SVC_TYPE_INTF_SET_PWRM = 0x10"
definition GB_SVC_TYPE_PING :: u8 where [gb_consts]: "GB_SVC_TYPE_PING = 0x13"
definition GB_SVC_TYPE_PWRMON_RAIL_COUNT_GET :: u8 where [gb_consts]: "GB_SVC_TYPE_PWRMON_RAIL_COUNT_GET = 0x14"
definition GB_SVC_TYPE_MODULE_INSERTED :: u8 where [gb_consts]: "GB_SVC_TYPE_MODULE_INSERTED = 0x1f"
definition GB_SVC_TYPE_MODULE_REMOVED :: u8 where [gb_consts]: "GB_SVC_TYPE_MODULE_REMOVED = 0x20"
definition GB_SVC_TYPE_INTF_VSYS_ENABLE :: u8 where [gb_consts]: "GB_SVC_TYPE_INTF_VSYS_ENABLE = 0x21"
definition GB_SVC_TYPE_INTF_VSYS_DISABLE :: u8 where [gb_consts]: "GB_SVC_TYPE_INTF_VSYS_DISABLE = 0x22"
definition GB_SVC_TYPE_INTF_REFCLK_ENABLE :: u8 where [gb_consts]: "GB_SVC_TYPE_INTF_REFCLK_ENABLE = 0x23"
definition GB_SVC_TYPE_INTF_REFCLK_DISABLE :: u8 where [gb_consts]: "GB_SVC_TYPE_INTF_REFCLK_DISABLE = 0x24"
definition GB_SVC_TYPE_INTF_UNIPRO_ENABLE :: u8 where [gb_consts]: "GB_SVC_TYPE_INTF_UNIPRO_ENABLE = 0x25"
definition GB_SVC_TYPE_INTF_UNIPRO_DISABLE :: u8 where [gb_consts]: "GB_SVC_TYPE_INTF_UNIPRO_DISABLE = 0x26"
definition GB_SVC_TYPE_INTF_ACTIVATE :: u8 where [gb_consts]: "GB_SVC_TYPE_INTF_ACTIVATE = 0x27"
definition GB_SVC_TYPE_INTF_RESUME :: u8 where [gb_consts]: "GB_SVC_TYPE_INTF_RESUME = 0x28"

definition GB_SVC_OP_SUCCESS :: u8 where [gb_consts]: "GB_SVC_OP_SUCCESS = 0x00"
definition GB_SVC_OP_UNKNOWN_ERROR :: u8 where [gb_consts]: "GB_SVC_OP_UNKNOWN_ERROR = 0x01"
definition GB_SVC_INTF_VSYS_OK :: u8 where [gb_consts]: "GB_SVC_INTF_VSYS_OK = 0x00"
definition GB_SVC_INTF_REFCLK_OK :: u8 where [gb_consts]: "GB_SVC_INTF_REFCLK_OK = 0x00"
definition GB_SVC_INTF_UNIPRO_OK :: u8 where [gb_consts]: "GB_SVC_INTF_UNIPRO_OK = 0x00"
definition GB_SVC_UNIPRO_HIBERNATE_MODE :: u8 where [gb_consts]: "GB_SVC_UNIPRO_HIBERNATE_MODE = 0x11"
definition GB_SVC_SETPWRM_PWR_OK :: u8 where [gb_consts]: "GB_SVC_SETPWRM_PWR_OK = 0x00"
definition GB_SVC_SETPWRM_PWR_LOCAL :: u8 where [gb_consts]: "GB_SVC_SETPWRM_PWR_LOCAL = 0x01"
definition GB_SVC_INTF_TYPE_GREYBUS :: u8 where [gb_consts]: "GB_SVC_INTF_TYPE_GREYBUS = 0x03"

section \<open>The operation message header\<close>

record gb_operation_msg_hdr =
  hdr_size :: u16
  hdr_operation_id :: u16
  hdr_type :: u8
  hdr_result :: u8
  hdr_pad :: "u8 \<times> u8"

definition hdr_len :: nat where "hdr_len = 8"

definition hdr_bytes :: "gb_operation_msg_hdr \<Rightarrow> byte list" where
  "hdr_bytes h = le16 (hdr_size h) @ le16 (hdr_operation_id h) @
     [hdr_type h, hdr_result h, fst (hdr_pad h), snd (hdr_pad h)]"

definition hdr_of_bytes :: "byte list \<Rightarrow> gb_operation_msg_hdr" where
  "hdr_of_bytes b = \<lparr>hdr_size = le16_of (b ! 0) (b ! 1), hdr_operation_id = le16_of (b ! 2) (b ! 3),
     hdr_type = b ! 4, hdr_result = b ! 5, hdr_pad = (b ! 6, b ! 7)\<rparr>"

lemma length_hdr_bytes [simp]: "length (hdr_bytes h) = 8"
  by (simp add: hdr_bytes_def)

lemma hdr_of_hdr_bytes [simp]: "hdr_of_bytes (hdr_bytes h @ rest) = h"
  by (simp add: hdr_of_bytes_def hdr_bytes_def le16_def)

lemma hdr_of_hdr_bytes' [simp]: "hdr_of_bytes (hdr_bytes h) = h"
  using hdr_of_hdr_bytes [of h "[]"] by simp

section \<open>Payloads the firmware reads\<close>

text \<open>
  A handler casts the payload pointer to a structure and reads the fields it needs, without looking
  at the payload length: reading beyond the message is a fault.
\<close>

record gb_svc_conn_request =
  intf1_id :: u8
  cport1_id :: u16
  intf2_id :: u8
  cport2_id :: u16

definition gb_svc_conn_request_read :: "byte list \<Rightarrow> gb_svc_conn_request res" where
  "gb_svc_conn_request_read p =
     bnd (buf_read p 0 6) (\<lambda>b. Inr \<lparr>intf1_id = b ! 0, cport1_id = le16_of (b ! 1) (b ! 2),
       intf2_id = b ! 3, cport2_id = le16_of (b ! 4) (b ! 5)\<rparr>)"

definition gb_svc_conn_request_bytes :: "gb_svc_conn_request \<Rightarrow> byte list" where
  "gb_svc_conn_request_bytes r = [intf1_id r] @ le16 (cport1_id r) @ [intf2_id r] @ le16 (cport2_id r)"

lemma gb_svc_conn_request_roundtrip [simp]:
  "gb_svc_conn_request_read (gb_svc_conn_request_bytes r @ rest) = Inr r"
  by (simp add: gb_svc_conn_request_read_def gb_svc_conn_request_bytes_def le16_def)

text \<open>\<open>tx_mode\<close> is the third, \<open>rx_mode\<close> the eighth byte of \<open>gb_svc_intf_set_pwrm_request\<close>.\<close>

definition gb_svc_intf_set_pwrm_modes :: "byte list \<Rightarrow> (u8 \<times> u8) res" where
  "gb_svc_intf_set_pwrm_modes p =
     bnd (buf_get p 2) (\<lambda>tx_mode. bnd (buf_get p 7) (\<lambda>rx_mode. Inr (tx_mode, rx_mode)))"

section \<open>Payloads the firmware fills in\<close>

definition gb_svc_version_request :: "u8 \<Rightarrow> u8 \<Rightarrow> byte list" where
  "gb_svc_version_request major minor = [major, minor]"

definition gb_svc_hello_request :: "u16 \<Rightarrow> u8 \<Rightarrow> byte list" where
  "gb_svc_hello_request endo_id interface_id = le16 endo_id @ [interface_id]"

definition gb_svc_module_inserted_request :: "u8 \<Rightarrow> u8 \<Rightarrow> u16 \<Rightarrow> byte list" where
  "gb_svc_module_inserted_request primary_intf_id intf_count flags =
     [primary_intf_id, intf_count] @ le16 flags"

definition gb_svc_module_removed_request :: "u8 \<Rightarrow> byte list" where
  "gb_svc_module_removed_request primary_intf_id = [primary_intf_id]"

definition gb_svc_dme_peer_get_response :: "u16 \<Rightarrow> u16 \<Rightarrow> byte list" where
  \<comment> \<open>\<open>attr_value\<close> is 32 bits wide; the values the firmware sends fit the low half\<close>
  "gb_svc_dme_peer_get_response result_code attr_value = le16 result_code @ le16 attr_value @ [0, 0]"

definition gb_svc_dme_peer_set_response :: "u16 \<Rightarrow> byte list" where
  "gb_svc_dme_peer_set_response result_code = le16 result_code"

definition gb_svc_intf_activate_response :: "u8 \<Rightarrow> u8 \<Rightarrow> byte list" where
  "gb_svc_intf_activate_response status intf_type = [status, intf_type]"

definition gb_svc_result_code_response :: "u8 \<Rightarrow> byte list" where
  \<comment> \<open>the one-byte responses: vsys, refclk, unipro, set_pwrm, resume, rail count\<close>
  "gb_svc_result_code_response code = [code]"

definition gb_control_version_response :: "u8 \<Rightarrow> u8 \<Rightarrow> byte list" where
  "gb_control_version_response major minor = [major, minor]"

definition gb_control_get_manifest_size_response :: "u16 \<Rightarrow> byte list" where
  "gb_control_get_manifest_size_response sz = le16 sz"

lemmas gb_payload_defs = gb_svc_version_request_def gb_svc_hello_request_def
  gb_svc_module_inserted_request_def gb_svc_module_removed_request_def
  gb_svc_dme_peer_get_response_def gb_svc_dme_peer_set_response_def
  gb_svc_intf_activate_response_def gb_svc_result_code_response_def
  gb_control_version_response_def gb_control_get_manifest_size_response_def

end
