(* ===== verification/Greybus_Messages.thy ===== *)
theory Greybus_Messages
  imports Hdlc Greybus_Protocols
begin

text \<open>
  Greybus messages (src/greybus_messages.c, include/greybus_messages.h) and their way to the AP
  (src/ap.c and \<open>gb_message_hdlc_send\<close> of include/hdlc.h).  Messages live on a Zephyr heap and are
  passed by pointer with their ownership; the model names them by allocation number and keeps the
  live ones in \<open>msg_heap\<close>, so that a use after free and a double free are visible.
\<close>

section \<open>State and messages\<close>

record gb_message =
  header :: gb_operation_msg_hdr
  payload :: "byte list"

record 'w gb_state = "'w hdlc_driver" +
  operation_id_counter :: int
  msg_heap :: "nat \<rightharpoonup> gb_message"
  msg_next :: nat

type_synonym ('w, 'a) gs = "('w, 'a) gb_state_scheme"

definition gb_hdr_payload_len :: "gb_operation_msg_hdr \<Rightarrow> nat" where
  "gb_hdr_payload_len hdr = size_sub (unat (hdr_size hdr)) hdr_len"

definition gb_message_payload_len :: "gb_message \<Rightarrow> nat" where
  "gb_message_payload_len msg = gb_hdr_payload_len (header msg)"

definition gb_hdr_is_response :: "gb_operation_msg_hdr \<Rightarrow> bool" where
  "gb_hdr_is_response hdr \<longleftrightarrow> hdr_type hdr AND GB_OP_RESPONSE \<noteq> 0"

definition gb_hdr_is_success :: "gb_operation_msg_hdr \<Rightarrow> bool" where
  "gb_hdr_is_success hdr \<longleftrightarrow> hdr_result hdr = 0x00"

definition gb_message_is_response :: "gb_message \<Rightarrow> bool" where
  "gb_message_is_response msg = gb_hdr_is_response (header msg)"

definition gb_message_is_success :: "gb_message \<Rightarrow> bool" where
  "gb_message_is_success msg = gb_hdr_is_success (header msg)"

definition gb_message_type :: "gb_message \<Rightarrow> u8" where
  "gb_message_type msg = hdr_type (header msg)"

section \<open>Operations\<close>

definition OPERATION_ID_START :: int where "OPERATION_ID_START = 1"

definition new_operation_id :: "('w, 'a) gs \<Rightarrow> u16 \<times> ('w, 'a) gs" where
  "new_operation_id s =
     (let temp = operation_id_counter s;
          s = s\<lparr>operation_id_counter := temp + 1\<rparr>;
          s = (if temp = 65535 then s\<lparr>operation_id_counter := OPERATION_ID_START\<rparr> else s)
      in (word_of_int temp, s))"

text \<open>
  \<open>gb_message_alloc\<close> writes the four fields of the header it is given; the two pad bytes and the
  payload keep what the heap block held.  A block smaller than the header (when the 32-bit sum
  \<open>8 + payload_len\<close> wraps) does not hold the structure that is written to it.
\<close>

definition gb_message_alloc ::
  "'w zephyr \<Rightarrow> nat \<Rightarrow> u8 \<Rightarrow> u16 \<Rightarrow> u8 \<Rightarrow> ('w, 'a) gs \<Rightarrow> (nat option \<times> ('w, 'a) gs) res" where
  "gb_message_alloc z payload_len message_type operation_id status s =
     (let (mem, w) = k_heap_alloc z (size_add hdr_len payload_len) (world s);
          s = s\<lparr>world := w\<rparr>
      in case mem of
           None \<Rightarrow> Inr (None, s)
         | Some blk \<Rightarrow>
             if length blk < hdr_len then Inl BufferOverflow
             else let hdr = \<lparr>hdr_size = of_nat (size_add hdr_len payload_len),
                        hdr_operation_id = operation_id, hdr_type = message_type,
                        hdr_result = status, hdr_pad = (blk ! 6, blk ! 7)\<rparr>;
                      msg = \<lparr>header = hdr, payload = drop hdr_len blk\<rparr>
                  in Inr (Some (msg_next s),
                       s\<lparr>msg_heap := (msg_heap s)(msg_next s \<mapsto> msg), msg_next := msg_next s + 1\<rparr>))"

definition gb_message_dealloc :: "'w zephyr \<Rightarrow> nat \<Rightarrow> ('w, 'a) gs \<Rightarrow> ('w, 'a) gs res" where
  "gb_message_dealloc z msg s =
     (case msg_heap s msg of
        None \<Rightarrow> Inl DoubleFree
      | Some m \<Rightarrow> Inr (s\<lparr>world := k_heap_free z msg (world s), msg_heap := (msg_heap s)(msg := None)\<rparr>))"

definition msg_get :: "nat \<Rightarrow> ('w, 'a) gs \<Rightarrow> gb_message res" where
  "msg_get p s = (case msg_heap s p of None \<Rightarrow> Inl UseAfterFree | Some m \<Rightarrow> Inr m)"

text \<open>\<open>memcpy(msg->payload, bs, len)\<close>\<close>

definition msg_payload_write :: "nat \<Rightarrow> byte list \<Rightarrow> ('w, 'a) gs \<Rightarrow> ('w, 'a) gs res" where
  "msg_payload_write p bs s =
     bnd (msg_get p s) (\<lambda>m. bnd (buf_write (payload m) 0 bs) (\<lambda>pl.
       Inr (s\<lparr>msg_heap := (msg_heap s)(p \<mapsto> m\<lparr>payload := pl\<rparr>)\<rparr>)))"

text \<open>
  The copy into a freshly allocated message happens before anyone looks at the pointer: copying at
  least one byte through a null pointer is a fault, copying none is not.
\<close>

definition fill_message :: "nat option \<Rightarrow> byte list \<Rightarrow> ('w, 'a) gs \<Rightarrow> (nat option \<times> ('w, 'a) gs) res" where
  "fill_message msg bs s =
     (case msg of
        None \<Rightarrow> if bs = [] then Inr (None, s) else Inl NullDeref
      | Some p \<Rightarrow> bnd (msg_payload_write p bs s) (\<lambda>s. Inr (Some p, s)))"

definition gb_message_request_alloc ::
  "'w zephyr \<Rightarrow> byte list \<Rightarrow> u8 \<Rightarrow> bool \<Rightarrow> ('w, 'a) gs \<Rightarrow> (nat option \<times> ('w, 'a) gs) res" where
  "gb_message_request_alloc z bs request_type is_oneshot s =
     (let (operation_id, s) = (if is_oneshot then (0, s) else new_operation_id s) in
      bnd (gb_message_alloc z (length bs) request_type operation_id 0 s) (\<lambda>(msg, s).
        fill_message msg bs s))"

definition gb_message_response_alloc ::
  "'w zephyr \<Rightarrow> byte list \<Rightarrow> u8 \<Rightarrow> u16 \<Rightarrow> u8 \<Rightarrow> ('w, 'a) gs \<Rightarrow> (nat option \<times> ('w, 'a) gs) res" where
  "gb_message_response_alloc z bs request_type operation_id status s =
     bnd (gb_message_alloc z (length bs) (GB_OP_RESPONSE OR request_type) operation_id status s)
       (\<lambda>(msg, s). fill_message msg bs s)"

section \<open>Sending to the AP\<close>

definition gb_message_hdlc_send :: "'w zephyr \<Rightarrow> nat \<Rightarrow> u16 \<Rightarrow> ('w, 'a) gs \<Rightarrow> (int \<times> ('w, 'a) gs) res" where
  "gb_message_hdlc_send z msg cport s =
     bnd (msg_get msg s) (\<lambda>m.
     bnd (buf_write (replicate HDLC_MAX_BLOCK_SIZE 0) 0 (le16 cport)) (\<lambda>buffer.
     bnd (buf_write buffer 2 (hdr_bytes (header m))) (\<lambda>buffer.
     bnd (buf_read (payload m) 0 (gb_message_payload_len m)) (\<lambda>data.
     bnd (buf_write buffer (hdr_len + 2) data) (\<lambda>buffer.
     bnd (hdlc_block_send_sync hdlc_send_callback z buffer (unat (hdr_size (header m)) + 2)
            ADDRESS_GREYBUS 0x03 s) (\<lambda>(ret, s).
     Inr (0, s)))))))"

definition ap_send :: "'w zephyr \<Rightarrow> nat \<Rightarrow> u16 \<Rightarrow> ('w, 'a) gs \<Rightarrow> (int \<times> ('w, 'a) gs) res" where
  "ap_send z msg cport s =
     bnd (gb_message_hdlc_send z msg cport s) (\<lambda>(ret, s).
     bnd (gb_message_dealloc z msg s) (\<lambda>s. Inr (ret, s)))"

section \<open>Operation identifiers\<close>

definition op_ids_ok :: "('w, 'a) gs \<Rightarrow> bool" where
  "op_ids_ok s \<longleftrightarrow> 1 \<le> operation_id_counter s \<and> operation_id_counter s \<le> 65535"

lemma new_operation_id_eq:
  "new_operation_id s =
     (word_of_int (operation_id_counter s),
      s\<lparr>operation_id_counter := (if operation_id_counter s = 65535 then 1 else operation_id_counter s + 1)\<rparr>)"
  by (simp add: new_operation_id_def OPERATION_ID_START_def Let_def)

lemma new_operation_id_ok: "op_ids_ok s \<Longrightarrow> op_ids_ok (snd (new_operation_id s))"
  by (simp add: new_operation_id_eq op_ids_ok_def)

text \<open>The identifier handed out by the \<open>k\<close>-th call from now on.\<close>

primrec op_id_seq :: "nat \<Rightarrow> ('w, 'a) gs \<Rightarrow> u16" where
  "op_id_seq 0 s = fst (new_operation_id s)"
| "op_id_seq (Suc k) s = op_id_seq k (snd (new_operation_id s))"

lemma op_id_counter_step:
  assumes "op_ids_ok s"
  shows "operation_id_counter (snd (new_operation_id s)) - 1 = operation_id_counter s mod 65535"
  using assms by (auto simp: new_operation_id_eq op_ids_ok_def)

lemma op_id_seq_unat:
  "op_ids_ok s \<Longrightarrow> uint (op_id_seq k s) = (operation_id_counter s - 1 + int k) mod 65535 + 1"
proof (induction k arbitrary: s)
  case 0
  then have "operation_id_counter s mod 65536 = operation_id_counter s"
    "(operation_id_counter s - 1) mod 65535 = operation_id_counter s - 1"
    by (simp_all add: op_ids_ok_def)
  then show ?case by (simp add: new_operation_id_eq uint_word_of_int)
next
  case (Suc k)
  let ?t = "snd (new_operation_id s)"
  have "uint (op_id_seq (Suc k) s) = (operation_id_counter ?t - 1 + int k) mod 65535 + 1"
    using Suc.IH [OF new_operation_id_ok [OF Suc.prems]] by simp
  also have "\<dots> = (operation_id_counter s mod 65535 + int k) mod 65535 + 1"
    by (simp only: op_id_counter_step [OF Suc.prems])
  also have "\<dots> = (operation_id_counter s - 1 + int (Suc k)) mod 65535 + 1"
    by (simp add: mod_add_left_eq)
  finally show ?case .
qed

section \<open>The heap of messages\<close>

text \<open>A message whose header announces exactly the payload it carries, and which fits an HDLC block.\<close>

definition wf_msg :: "gb_message \<Rightarrow> bool" where
  "wf_msg m \<longleftrightarrow> unat (hdr_size (header m)) = hdr_len + length (payload m)"

definition fits_block :: "gb_message \<Rightarrow> bool" where
  "fits_block m \<longleftrightarrow> length (payload m) + hdr_len + 2 \<le> HDLC_MAX_BLOCK_SIZE"

definition msg_bytes :: "gb_message \<Rightarrow> byte list" where
  "msg_bytes m = hdr_bytes (header m) @ payload m"

text \<open>What the AP sees of a message sent to it on a CPort: one HDLC frame.\<close>

definition ap_frame :: "'w zephyr \<Rightarrow> u16 \<Rightarrow> gb_message \<Rightarrow> byte list" where
  "ap_frame z cport m = hdlc_frame z ADDRESS_GREYBUS 0x03 (le16 cport @ msg_bytes m)"

definition heap_ok :: "('w, 'a) gs \<Rightarrow> bool" where
  "heap_ok s \<longleftrightarrow> (\<forall>p \<ge> msg_next s. msg_heap s p = None)"

lemma heap_ok_fresh: "heap_ok s \<Longrightarrow> msg_heap s (msg_next s) = None"
  by (simp add: heap_ok_def)

lemma wf_msg_payload_len: "wf_msg m \<Longrightarrow> gb_message_payload_len m = length (payload m)"
  using unat_u16_bound [of "hdr_size (header m)"]
  unfolding wf_msg_def gb_message_payload_len_def gb_hdr_payload_len_def
  by (subst size_sub_exact) (simp_all add: hdr_len_def)

lemma msg_bytes_length: "length (msg_bytes m) = hdr_len + length (payload m)"
  by (simp add: msg_bytes_def hdr_len_def)

text \<open>A header size below eight is the one case where the payload length wraps.\<close>

lemma gb_hdr_payload_len_wraps:
  "unat (hdr_size h) < hdr_len \<Longrightarrow> gb_hdr_payload_len h = 2 ^ 32 + unat (hdr_size h) - hdr_len"
  unfolding gb_hdr_payload_len_def by (rule size_sub_wraps) (simp_all add: hdr_len_def)

lemma gb_hdr_payload_len_exact:
  "hdr_len \<le> unat (hdr_size h) \<Longrightarrow> gb_hdr_payload_len h = unat (hdr_size h) - hdr_len"
  unfolding gb_hdr_payload_len_def
  by (rule size_sub_exact) (simp_all add: order.strict_trans [OF unat_u16_bound])

text \<open>Allocation of a message of a sensible size: either none, or a fresh one with the given header.\<close>

definition new_msg :: "nat \<Rightarrow> u8 \<Rightarrow> u16 \<Rightarrow> u8 \<Rightarrow> byte list \<Rightarrow> gb_message" where
  "new_msg n ty op st blk = \<lparr>header = \<lparr>hdr_size = of_nat (hdr_len + n), hdr_operation_id = op,
     hdr_type = ty, hdr_result = st, hdr_pad = (blk ! 6, blk ! 7)\<rparr>, payload = drop hdr_len blk\<rparr>"

lemma gb_message_alloc_eq:
  assumes "heap_documented z" "hdr_len + n < 65536"
  shows "gb_message_alloc z n ty op st s =
    (case k_heap_alloc z (hdr_len + n) (world s) of
       (None, w) \<Rightarrow> Inr (None, s\<lparr>world := w\<rparr>)
     | (Some blk, w) \<Rightarrow> Inr (Some (msg_next s), s\<lparr>world := w,
         msg_heap := (msg_heap s)(msg_next s \<mapsto> new_msg n ty op st blk), msg_next := msg_next s + 1\<rparr>))"
proof -
  have "size_add hdr_len n = hdr_len + n" using assms(2) by (simp add: size_add_exact)
  then show ?thesis
    using heap_block_length [OF assms(1), of "hdr_len + n" "world s"]
    by (auto simp: gb_message_alloc_def new_msg_def Let_def split: prod.splits option.splits)
qed

text \<open>The two ways to build a message with a payload, in one equation.\<close>

definition sent_msg :: "u8 \<Rightarrow> u16 \<Rightarrow> u8 \<Rightarrow> u8 \<times> u8 \<Rightarrow> byte list \<Rightarrow> gb_message" where
  "sent_msg ty op st pad bs = \<lparr>header = \<lparr>hdr_size = of_nat (hdr_len + length bs), hdr_operation_id = op,
     hdr_type = ty, hdr_result = st, hdr_pad = pad\<rparr>, payload = bs\<rparr>"

definition with_msg :: "gb_message \<Rightarrow> 'w \<Rightarrow> ('w, 'a) gs \<Rightarrow> ('w, 'a) gs" where
  "with_msg m w s = s\<lparr>world := w, msg_heap := (msg_heap s)(msg_next s \<mapsto> m), msg_next := msg_next s + 1\<rparr>"

lemma wf_sent_msg: "hdr_len + length bs < 65536 \<Longrightarrow> wf_msg (sent_msg ty op st pad bs)"
  unfolding wf_msg_def sent_msg_def by (simp add: unat_of_nat_u16 del: of_nat_add)

lemma alloc_fill_eq:
  assumes "heap_documented z" "hdr_len + length bs < 65536"
  shows "bnd (gb_message_alloc z (length bs) ty op st s) (\<lambda>(msg, s). fill_message msg bs s) =
    (case k_heap_alloc z (hdr_len + length bs) (world s) of
       (None, w) \<Rightarrow> if bs = [] then Inr (None, s\<lparr>world := w\<rparr>) else Inl NullDeref
     | (Some blk, w) \<Rightarrow> Inr (Some (msg_next s), with_msg (sent_msg ty op st (blk ! 6, blk ! 7) bs) w s))"
  unfolding gb_message_alloc_eq [OF assms]
  using heap_block_length [OF assms(1), of "hdr_len + length bs" "world s"]
  by (auto simp: fill_message_def msg_payload_write_def msg_get_def new_msg_def
      sent_msg_def with_msg_def buf_write_def hdr_len_def split: prod.splits option.splits)

lemma gb_message_response_alloc_eq:
  assumes "heap_documented z" "hdr_len + length bs < 65536"
  shows "gb_message_response_alloc z bs rt op st s =
    (case k_heap_alloc z (hdr_len + length bs) (world s) of
       (None, w) \<Rightarrow> if bs = [] then Inr (None, s\<lparr>world := w\<rparr>) else Inl NullDeref
     | (Some blk, w) \<Rightarrow> Inr (Some (msg_next s),
         with_msg (sent_msg (GB_OP_RESPONSE OR rt) op st (blk ! 6, blk ! 7) bs) w s))"
  unfolding gb_message_response_alloc_def by (rule alloc_fill_eq [OF assms])

lemma gb_message_request_alloc_eq:
  assumes "heap_documented z" "hdr_len + length bs < 65536"
  shows "gb_message_request_alloc z bs rt False s =
    (case k_heap_alloc z (hdr_len + length bs) (world s) of
       (None, w) \<Rightarrow> if bs = [] then Inr (None, (snd (new_operation_id s))\<lparr>world := w\<rparr>) else Inl NullDeref
     | (Some blk, w) \<Rightarrow> Inr (Some (msg_next s),
         with_msg (sent_msg rt (fst (new_operation_id s)) 0 (blk ! 6, blk ! 7) bs) w (snd (new_operation_id s))))"
proof (cases "new_operation_id s")
  case (Pair op t)
  then have "world t = world s" "msg_next t = msg_next s"
    by (auto simp: new_operation_id_eq)
  with Pair show ?thesis
    by (simp add: gb_message_request_alloc_def alloc_fill_eq [OF assms] split: prod.split option.split)
qed

lemma with_msg_sel [simp]:
  "msg_heap (with_msg m w s) = (msg_heap s)(msg_next s \<mapsto> m)" "world (with_msg m w s) = w"
  "msg_next (with_msg m w s) = msg_next s + 1" "uart_tx (with_msg m w s) = uart_tx s"
  by (simp_all add: with_msg_def)

section \<open>Sending to the AP: one frame, and the message is gone\<close>

lemma hdlc_send_buffer:
  assumes "length d + hdr_len + 2 \<le> HDLC_MAX_BLOCK_SIZE"
  shows "bnd (buf_write (replicate HDLC_MAX_BLOCK_SIZE 0) 0 (le16 cport)) (\<lambda>b.
     bnd (buf_write b 2 (hdr_bytes h)) (\<lambda>b. buf_write b (hdr_len + 2) d)) =
   Inr (le16 cport @ hdr_bytes h @ d @ replicate (HDLC_MAX_BLOCK_SIZE - (length d + hdr_len + 2)) 0)"
  using assms by (simp add: buf_write_def hdr_len_def hdlc_consts)

lemma gb_message_hdlc_send_eq:
  assumes "msg_heap s p = Some m" "wf_msg m" "fits_block m"
  shows "gb_message_hdlc_send z p cport s = Inr (0, s\<lparr>uart_tx := uart_tx s @ ap_frame z cport m\<rparr>)"
proof -
  let ?d = "payload m" and ?h = "header m"
  let ?buf = "le16 cport @ hdr_bytes ?h @ ?d @ replicate (HDLC_MAX_BLOCK_SIZE - (length ?d + hdr_len + 2)) 0"
  have fits: "length ?d + hdr_len + 2 \<le> HDLC_MAX_BLOCK_SIZE"
    using assms(3) by (simp add: fits_block_def)
  have n: "unat (hdr_size ?h) + 2 = length ?d + hdr_len + 2"
    using assms(2) by (simp add: wf_msg_def)
  have "gb_message_hdlc_send z p cport s =
      bnd (bnd (buf_write (replicate HDLC_MAX_BLOCK_SIZE 0) 0 (le16 cport)) (\<lambda>b.
             bnd (buf_write b 2 (hdr_bytes ?h)) (\<lambda>b. buf_write b (hdr_len + 2) ?d))) (\<lambda>buffer.
        bnd (hdlc_block_send_sync hdlc_send_callback z buffer (unat (hdr_size ?h) + 2)
               ADDRESS_GREYBUS 0x03 s) (\<lambda>(ret, s). Inr (0, s)))"
    using assms wf_msg_payload_len [OF assms(2)]
    by (simp add: gb_message_hdlc_send_def msg_get_def bnd_assoc)
  also have "\<dots> = bnd (hdlc_block_send_sync hdlc_send_callback z ?buf (length ?d + hdr_len + 2)
               ADDRESS_GREYBUS 0x03 s) (\<lambda>(ret, s). Inr (0, s))"
    unfolding hdlc_send_buffer [OF fits] n by simp
  also have "\<dots> = Inr (0, s\<lparr>uart_tx := uart_tx s @ hdlc_frame z ADDRESS_GREYBUS 0x03
      (take (length ?d + hdr_len + 2) ?buf)\<rparr>)"
    using fits by (subst hdlc_block_send_uart) (simp_all add: hdr_len_def)
  also have "take (length ?d + hdr_len + 2) ?buf = le16 cport @ msg_bytes m"
    by (simp add: msg_bytes_def hdr_len_def)
  finally show ?thesis by (simp add: ap_frame_def)
qed

lemma ap_send_eq:
  assumes "msg_heap s p = Some m" "wf_msg m" "fits_block m"
  shows "ap_send z p cport s = Inr (0, s\<lparr>uart_tx := uart_tx s @ ap_frame z cport m,
     world := k_heap_free z p (world s), msg_heap := (msg_heap s)(p := None)\<rparr>)"
  using assms by (simp add: ap_send_def gb_message_hdlc_send_eq gb_message_dealloc_def)

section \<open>Properties of messages\<close>

definition sample_gs :: "sample_world gb_state" where
  "sample_gs = hdlc_driver.extend sample_hd
     \<lparr>operation_id_counter = OPERATION_ID_START, msg_heap = Map.empty, msg_next = 0\<rparr>"

lemma sample_gs_sel [simp]:
  "operation_id_counter sample_gs = 1" "msg_heap sample_gs = Map.empty" "msg_next sample_gs = 0"
  "world sample_gs = ([], [])" "uart_tx sample_gs = []" "rx_buffer_len sample_gs = 0"
  by (simp_all add: sample_gs_def hdlc_driver.defs sample_hd_def OPERATION_ID_START_def)

text \<open>
  C27. Operation identifiers, when no call of \<open>new_operation_id\<close> interrupts another: starting from a counter
  between 1 and 65535, as it is at start-up and after every such call, the \<open>k\<close>-th request from
  now carries an identifier that is not 0 (the identifier reserved for one-shot messages), and
  two requests carry the same identifier exactly if their distance is a multiple of 65535, so a
  response can be matched to its request.  \<open>Id_Race\<close> treats calls that do interrupt each other: they are
  harmless until the counter passes the end of its range, and break this property there.
\<close>

theorem operation_ids_unique:
  assumes "op_ids_ok s"
  shows "op_id_seq k s \<noteq> 0 \<and> (op_id_seq j s = op_id_seq k s \<longleftrightarrow> j mod 65535 = k mod 65535)"
proof -
  let ?c = "operation_id_counter s - 1"
  note seq = op_id_seq_unat [OF assms]
  have "uint (op_id_seq k s) \<noteq> 0"
    using seq [of k] pos_mod_sign [of 65535 "?c + int k"] by linarith
  moreover have "op_id_seq j s = op_id_seq k s \<longleftrightarrow> (?c + int j) mod 65535 = (?c + int k) mod 65535"
    using seq [of j] seq [of k] by (metis add_right_cancel word_uint_eq_iff)
  moreover have "(?c + int j) mod 65535 = (?c + int k) mod 65535 \<longleftrightarrow> j mod 65535 = k mod 65535"
  proof -
    have "(?c + int j) mod 65535 = (?c + int k) mod 65535 \<longleftrightarrow> int j mod 65535 = int k mod 65535"
      by (simp add: mod_eq_dvd_iff)
    also have "\<dots> \<longleftrightarrow> int (j mod 65535) = int (k mod 65535)"
      by (simp only: zmod_int of_nat_numeral)
    finally show ?thesis by (simp only: of_nat_eq_iff)
  qed
  ultimately show ?thesis by auto
qed

theorem operation_ids_unique_witness:
  "op_id_seq 65534 sample_gs \<noteq> 0 \<and>
   (op_id_seq 1 sample_gs = op_id_seq 65534 sample_gs \<longleftrightarrow> (1 :: nat) mod 65535 = 65534 mod 65535)"
  by (rule operation_ids_unique) (simp add: op_ids_ok_def)

text \<open>
  A message sent to the AP arrives whole: \<open>ap_send\<close> on a live message whose header announces its
  payload and which fits an HDLC block appends exactly one frame to the UART, from which an idle
  HDLC receiver delivers, to the Greybus address, the CPort number followed by the header and the
  payload; the message is given back to the heap, and no other message is touched.
\<close>

lemma ap_send_delivers:
  assumes "msg_heap s p = Some m" and "wf_msg m" and "fits_block m"
    and "crc_documented z" and "rx_ok r" and "rx_idle r" and "keeps_rx cb"
    and "length (payload m) + 14 \<le> HDLC_MAX_BLOCK_SIZE"
  shows "\<exists>s' wire window t.
    ap_send z p cport s = Inr (0, s') \<and> uart_tx s' = uart_tx s @ wire \<and>
    msg_heap s' = (msg_heap s)(p := None) \<and>
    take (length (payload m) + 10) window = le16 cport @ hdr_bytes (header m) @ payload m \<and>
    hdlc_process_buffer cb z wire r =
      bnd (cb window (length (payload m) + 10) ADDRESS_GREYBUS t)
        (\<lambda>(ret, r). Inr (int (length wire), rx_reset r))"
proof (intro exI conjI)
  let ?pl = "le16 cport @ msg_bytes m"
  show "ap_send z p cport s = Inr (0, s\<lparr>uart_tx := uart_tx s @ ap_frame z cport m,
     world := k_heap_free z p (world s), msg_heap := (msg_heap s)(p := None)\<rparr>)"
    by (rule ap_send_eq) (use assms in simp_all)
  have len: "length ?pl = length (payload m) + 10" by (simp add: msg_bytes_length hdr_len_def)
  have "foldres (hdlc_rx_input_byte cb z) (ap_frame z cport m) r =
     bnd (cb (?pl @ hdlc_fcs z (ADDRESS_GREYBUS # 3 # ?pl) @ drop (length ?pl + 4) (rx_buffer r))
            (length ?pl) ADDRESS_GREYBUS (rx_loaded z (hdlc_body z ADDRESS_GREYBUS 3 ?pl) r))
        (\<lambda>(ret, s). Inr (rx_reset s))"
    unfolding ap_frame_def by (rule rx_whole_frame) (use assms len in simp_all)
  then show "hdlc_process_buffer cb z (ap_frame z cport m) r =
      bnd (cb (?pl @ hdlc_fcs z (ADDRESS_GREYBUS # 3 # ?pl) @ drop (length ?pl + 4) (rx_buffer r))
          (length (payload m) + 10) ADDRESS_GREYBUS (rx_loaded z (hdlc_body z ADDRESS_GREYBUS 3 ?pl) r))
        (\<lambda>(ret, r). Inr (int (length (ap_frame z cport m)), rx_reset r))"
    unfolding hdlc_process_buffer_def len by (simp add: bnd_assoc split_def)
  show "take (length (payload m) + 10)
      (?pl @ hdlc_fcs z (ADDRESS_GREYBUS # 3 # ?pl) @ drop (length ?pl + 4) (rx_buffer r)) =
      le16 cport @ hdr_bytes (header m) @ payload m"
    using len by (simp add: msg_bytes_def)
qed simp_all

definition sample_msg :: gb_message where
  "sample_msg = sent_msg GB_SVC_TYPE_PING 7 0 (0, 0) []"

lemma ap_send_delivers_witness:
  "\<exists>s' wire window t.
    ap_send sample_zephyr 0 0 (sample_gs\<lparr>msg_heap := [0 \<mapsto> sample_msg]\<rparr>) = Inr (0, s') \<and>
    uart_tx s' = uart_tx (sample_gs\<lparr>msg_heap := [0 \<mapsto> sample_msg]\<rparr>) @ wire \<and>
    msg_heap s' = (msg_heap (sample_gs\<lparr>msg_heap := [0 \<mapsto> sample_msg]\<rparr>))(0 := None) \<and>
    take (length (payload sample_msg) + 10) window =
      le16 0 @ hdr_bytes (header sample_msg) @ payload sample_msg \<and>
    hdlc_process_buffer sample_cb sample_zephyr wire sample_hd =
      bnd (sample_cb window (length (payload sample_msg) + 10) ADDRESS_GREYBUS t)
        (\<lambda>(ret, r). Inr (int (length wire), rx_reset r))"
  by (rule ap_send_delivers)
    (simp_all add: sample_documented sample_hd_ok sample_keeps_rx sample_msg_def wf_msg_def fits_block_def
      sent_msg_def hdr_len_def HDLC_MAX_BLOCK_SIZE_def)

text \<open>
  C38. The 256-byte buffer of \<open>gb_message_hdlc_send\<close> is not checked against the message: a live,
  consistent message with more than 246 payload bytes (a node may send one of up to 65527) is
  copied past the end of that buffer.
\<close>

theorem ap_send_oversize_overflows:
  assumes "msg_heap s p = Some m" and "wf_msg m" and "246 < length (payload m)"
  shows "ap_send z p cport s = Inl BufferOverflow"
proof -
  have "length (payload m) \<le> length (payload m)" by simp
  with assms show ?thesis
    by (simp add: ap_send_def gb_message_hdlc_send_def msg_get_def wf_msg_payload_len buf_write_def
        HDLC_MAX_BLOCK_SIZE_def hdr_len_def)
qed

theorem ap_send_oversize_overflows_witness:
  "ap_send sample_zephyr 0 0
     (sample_gs\<lparr>msg_heap := [0 \<mapsto> sent_msg GB_SVC_TYPE_PING 7 0 (0, 0) (replicate 247 0)]\<rparr>) =
   Inl BufferOverflow"
  by (rule ap_send_oversize_overflows [where m = "sent_msg GB_SVC_TYPE_PING 7 0 (0, 0) (replicate 247 0)"])
    (simp_all add: wf_msg_def sent_msg_def hdr_len_def)

text \<open>
  A header announcing fewer than eight bytes breaks message allocation: the payload length
  computed from it wraps to almost \<open>2 ^ 32\<close>, the size of the allocation wraps back to the announced
  size, and the header is written to a block too small to hold it.
\<close>

lemma short_header_overflows:
  assumes "heap_documented z" and "unat (hdr_size h) < 8"
    and "k_heap_alloc z (unat (hdr_size h)) (world s) = (Some blk, w)"
  shows "gb_message_alloc z (gb_hdr_payload_len h) ty op st s = Inl BufferOverflow"
proof -
  have "size_add hdr_len (gb_hdr_payload_len h) = unat (hdr_size h)"
    unfolding gb_hdr_payload_len_def
    by (rule size_add_sub) (use assms(2) in \<open>simp_all add: hdr_len_def\<close>)
  moreover have "length blk < hdr_len"
    using heap_block_length [OF assms(1,3)] assms(2) by (simp add: hdr_len_def)
  ultimately show ?thesis using assms(3) by (simp add: gb_message_alloc_def)
qed

lemma short_header_overflows_witness:
  "gb_message_alloc sample_zephyr (gb_hdr_payload_len (header (sample_msg\<lparr>header := (header sample_msg)\<lparr>hdr_size := 3\<rparr>\<rparr>)))
     0 0 0 sample_gs = Inl BufferOverflow"
  by (rule short_header_overflows [where blk = "replicate 3 0" and w = "([], [])"])
    (simp_all add: sample_documented)

end
