(* ===== verification/Id_Race.thy ===== *)
theory Id_Race
  imports Greybus_Messages
begin

text \<open>
  \<open>new_operation_id\<close> of src/greybus_messages.c at the grain of its atomic accesses.  The receive work
  queue, the receive thread of the nodes and the discovery thread all build requests, and a call has
  two shared accesses, \<open>atomic_inc\<close> and, at the end of the range, \<open>atomic_set\<close>; between the two another
  thread may run.  Undisturbed, the two steps are \<open>new_operation_id\<close>; interleaved, they are not.
\<close>

section \<open>Threads\<close>

text \<open>\<open>Fetched v\<close>: the thread has done the \<open>atomic_inc\<close> and holds \<open>temp = v\<close>.\<close>

datatype id_pc = Idle | Fetched int

text \<open>The counter is an \<open>atomic_t\<close>, wide enough not to wrap here; \<open>issued\<close> are the results so far.\<close>

record id_system =
  id_counter :: int
  id_pcs :: "nat \<Rightarrow> id_pc"
  issued :: "u16 list"

definition id_fetch :: "nat \<Rightarrow> id_system \<Rightarrow> id_system" where
  "id_fetch t c = c\<lparr>id_counter := id_counter c + 1, id_pcs := (id_pcs c)(t := Fetched (id_counter c))\<rparr>"

definition id_return :: "nat \<Rightarrow> int \<Rightarrow> id_system \<Rightarrow> id_system" where
  "id_return t temp c =
     c\<lparr>id_counter := (if temp = 65535 then OPERATION_ID_START else id_counter c),
       id_pcs := (id_pcs c)(t := Idle), issued := issued c @ [word_of_int temp]\<rparr>"

inductive id_step :: "id_system \<Rightarrow> id_system \<Rightarrow> bool" where
  fetch: "id_pcs c t = Idle \<Longrightarrow> id_step c (id_fetch t c)"
| return: "id_pcs c t = Fetched temp \<Longrightarrow> id_step c (id_return t temp c)"

section \<open>One call at a time\<close>

definition id_call :: "nat \<Rightarrow> id_system \<Rightarrow> id_system" where
  "id_call t c = id_return t (id_counter c) (id_fetch t c)"

lemma id_call_steps: "id_pcs c t = Idle \<Longrightarrow> id_step\<^sup>*\<^sup>* c (id_call t c)"
proof -
  assume "id_pcs c t = Idle"
  then have "id_step c (id_fetch t c)" by (rule id_step.fetch)
  moreover have "id_step (id_fetch t c) (id_call t c)"
    unfolding id_call_def by (rule id_step.return) (simp add: id_fetch_def)
  ultimately show ?thesis by (meson converse_rtranclp_into_rtranclp r_into_rtranclp)
qed

lemma id_call_eq:
  "id_call t c = c\<lparr>id_counter := (if id_counter c = 65535 then OPERATION_ID_START else id_counter c + 1),
     id_pcs := (id_pcs c)(t := Idle), issued := issued c @ [word_of_int (id_counter c)]\<rparr>"
  by (simp add: id_call_def id_fetch_def id_return_def)

text \<open>A call that is not interrupted is \<open>new_operation_id\<close>.\<close>

lemma id_call_new_operation_id:
  assumes "id_counter c = operation_id_counter s"
  shows "issued (id_call t c) = issued c @ [fst (new_operation_id s)] \<and>
    id_counter (id_call t c) = operation_id_counter (snd (new_operation_id s))"
  using assms by (simp add: id_call_eq new_operation_id_eq OPERATION_ID_START_def)

section \<open>Interrupted before the end of the range\<close>

text \<open>
  As long as the counter has not gone past 65535, the threads may interrupt each other as they like: no id is
  issued twice, none is 0, and none that a thread still holds has been issued.
\<close>

definition ids_sound :: "id_system \<Rightarrow> bool" where
  "ids_sound c \<longleftrightarrow> 1 \<le> id_counter c \<and> id_counter c \<le> 65535 \<and> distinct (issued c) \<and>
     (\<forall>x \<in> set (issued c). 1 \<le> uint x \<and> uint x < id_counter c) \<and>
     (\<forall>t v. id_pcs c t = Fetched v \<longrightarrow> 1 \<le> v \<and> v < id_counter c \<and> v \<notin> uint ` set (issued c)) \<and>
     (\<forall>t u v. id_pcs c t = Fetched v \<and> id_pcs c u = Fetched v \<longrightarrow> t = u)"

lemma id_step_sound:
  assumes "id_step c d" "ids_sound c" "id_counter d \<le> 65535"
  shows "ids_sound d"
  using assms(1)
proof cases
  case (fetch t)
  then show ?thesis using assms(2,3) by (fastforce simp: ids_sound_def id_fetch_def)
next
  case (return t temp)
  have t: "1 \<le> temp" "temp < 65535" "temp < id_counter c" "temp \<notin> uint ` set (issued c)"
    using assms(2) return(2) unfolding ids_sound_def by force+
  then have u: "uint (word_of_int temp :: u16) = temp" by (simp add: uint_word_of_int)
  with t(4) have "word_of_int temp \<notin> set (issued c)" by (metis imageI)
  moreover have "v \<noteq> temp" if "id_pcs c r = Fetched v" "r \<noteq> t" for r v
    using assms(2) return(2) that unfolding ids_sound_def by metis
  ultimately show ?thesis
    using assms(2) t u unfolding return(1) by (auto simp: ids_sound_def id_return_def)
qed

lemma ids_distinct_before_end:
  assumes "(\<lambda>c d. id_step c d \<and> id_counter d \<le> 65535)\<^sup>*\<^sup>* c d" "ids_sound c"
  shows "distinct (issued d) \<and> 0 \<notin> set (issued d)"
proof -
  have "ids_sound d" using assms by (induction rule: rtranclp_induct) (auto intro: id_step_sound)
  then show ?thesis by (fastforce simp: ids_sound_def)
qed

lemma ids_sound_start: "ids_sound \<lparr>id_counter = OPERATION_ID_START, id_pcs = (\<lambda>t. Idle), issued = []\<rparr>"
  by (simp add: ids_sound_def OPERATION_ID_START_def)

section \<open>Interrupted at the end of the range\<close>

text \<open>
  C40. The counter of \<open>new_operation_id\<close> is reset by a second atomic access, and a thread interrupted between
  the two lets the others run past the end: when the counter stands at 65535, thread \<open>t\<close> can be
  interrupted after its \<open>atomic_inc\<close>; two calls of thread \<open>u\<close> then return 0, which is the id of a
  one-shot message, and 1; and after \<open>t\<close> has returned 65535 and reset the counter, the next call returns 1
  again, so two outstanding requests share an id.
\<close>

theorem operation_id_race:
  assumes "id_counter c = 65535" and "t \<noteq> u" and "id_pcs c t = Idle" and "id_pcs c u = Idle"
  shows "\<exists>d. id_step\<^sup>*\<^sup>* c d \<and> issued d = issued c @ [0, 1, 0xffff, 1] \<and> id_counter d = 2 \<and>
    id_pcs d t = Idle \<and> id_pcs d u = Idle"
proof -
  define c1 where "c1 = id_fetch t c"
  define c2 where "c2 = id_call u (id_call u c1)"
  define c3 where "c3 = id_return t 65535 c2"
  have 1: "id_counter c1 = 65536" "id_pcs c1 t = Fetched 65535" "id_pcs c1 u = Idle" "issued c1 = issued c"
    using assms by (simp_all add: c1_def id_fetch_def)
  have 2: "id_counter c2 = 65538" "id_pcs c2 t = Fetched 65535" "id_pcs c2 u = Idle" "issued c2 = issued c @ [0, 1]"
    using 1 assms(2) by (simp_all add: c2_def id_call_eq)
  have 3: "id_counter c3 = 1" "id_pcs c3 t = Idle" "id_pcs c3 u = Idle" "issued c3 = issued c @ [0, 1, 0xffff]"
    using 2 assms(2) by (simp_all add: c3_def id_return_def OPERATION_ID_START_def)
  have "id_step\<^sup>*\<^sup>* c c1" unfolding c1_def by (rule r_into_rtranclp, rule id_step.fetch, rule assms(3))
  also have "id_step\<^sup>*\<^sup>* c1 (id_call u c1)" by (rule id_call_steps [OF 1(3)])
  also have "id_step\<^sup>*\<^sup>* (id_call u c1) c2"
    unfolding c2_def by (rule id_call_steps) (simp add: id_call_eq)
  also have "id_step\<^sup>*\<^sup>* c2 c3" unfolding c3_def by (rule r_into_rtranclp, rule id_step.return, rule 2(2))
  also have "id_step\<^sup>*\<^sup>* c3 (id_call u c3)" by (rule id_call_steps [OF 3(3)])
  finally show ?thesis
    using 3 assms(2) by (intro exI [of _ "id_call u c3"]) (simp add: id_call_eq)
qed

theorem operation_id_race_witness:
  "\<exists>d. id_step\<^sup>*\<^sup>* \<lparr>id_counter = 65535, id_pcs = (\<lambda>t. Idle), issued = []\<rparr> d \<and>
    issued d = issued \<lparr>id_counter = 65535, id_pcs = (\<lambda>t. Idle), issued = []\<rparr> @ [0, 1, 0xffff, 1] \<and>
    id_counter d = 2 \<and> id_pcs d 0 = Idle \<and> id_pcs d 1 = Idle"
  by (rule operation_id_race) simp_all

end
