(* ===== verification/Interfaces.thy ===== *)
theory Interfaces
  imports Greybus_Messages
begin

text \<open>
  Greybus interfaces (include/greybus_interfaces.h, src/greybus_interfaces.c) and the two static
  ones, of the SVC (src/svc.c) and of the local node (src/local_node.c).  A pointer to an interface
  names one of the static objects or a block of the interface slab; function pointers are named by
  the function they point to.
\<close>

definition E2BIG :: int where [gb_consts]: "E2BIG = 7"
definition ENOMEM :: int where [gb_consts]: "ENOMEM = 12"
definition EINVAL :: int where [gb_consts]: "EINVAL = 22"
definition EALREADY :: int where [gb_consts]: "EALREADY = 120"

definition SVC_INF_ID :: u8 where [gb_consts]: "SVC_INF_ID = 0"
definition AP_INF_ID :: u8 where [gb_consts]: "AP_INF_ID = 1"
definition LOCAL_NODE_ID :: u8 where [gb_consts]: "LOCAL_NODE_ID = 2"
definition INTERFACE_ID_START :: int where "INTERFACE_ID_START = 3"
definition MAX_GREYBUS_INTERFACES :: nat where "MAX_GREYBUS_INTERFACES = 10"

section \<open>State\<close>

datatype intf_ptr = SvcIntf | LocalIntf | NodeIntf nat

datatype write_fn = Svc_inf_write | Local_intf_write | Node_inf_write
datatype create_fn =
  Svc_inf_create_connection | Local_intf_create_connection | Node_intf_create_connection
datatype destroy_fn =
  Svc_inf_destroy_connection | Local_intf_destroy_connection | Node_intf_destroy_connection

record gb_interface =
  intf_id :: u8
  intf_write :: write_fn
  intf_create_connection :: create_fn
  intf_destroy_connection :: destroy_fn
  ctrl_data :: "nat option"

record 'w intf_state = "'w gb_state" +
  interface_id_counter :: int
  gb_interface_slab :: "gb_interface option list"
  svc_is_read_flag :: bool

type_synonym ('w, 'a) ist = "('w, 'a) intf_state_scheme"

section \<open>Static interfaces\<close>

definition svc_intf :: gb_interface where
  "svc_intf = \<lparr>intf_id = SVC_INF_ID, intf_write = Svc_inf_write,
     intf_create_connection = Svc_inf_create_connection,
     intf_destroy_connection = Svc_inf_destroy_connection, ctrl_data = None\<rparr>"

definition local_intf :: gb_interface where
  "local_intf = \<lparr>intf_id = LOCAL_NODE_ID, intf_write = Local_intf_write,
     intf_create_connection = Local_intf_create_connection,
     intf_destroy_connection = Local_intf_destroy_connection, ctrl_data = None\<rparr>"

definition intf_deref :: "intf_ptr \<Rightarrow> ('w, 'a) ist \<Rightarrow> gb_interface res" where
  "intf_deref p s =
     (case p of
        SvcIntf \<Rightarrow> Inr svc_intf
      | LocalIntf \<Rightarrow> Inr local_intf
      | NodeIntf b \<Rightarrow>
          if b < length (gb_interface_slab s)
          then (case gb_interface_slab s ! b of None \<Rightarrow> Inl UseAfterFree | Some i \<Rightarrow> Inr i)
          else Inl OutOfBounds)"

definition svc_is_ready :: "('w, 'a) ist \<Rightarrow> bool" where
  "svc_is_ready s = svc_is_read_flag s"

definition svc_init :: "('w, 'a) ist \<Rightarrow> ('w, 'a) ist" where
  "svc_init s = s\<lparr>svc_is_read_flag := True\<rparr>"

definition svc_deinit :: "('w, 'a) ist \<Rightarrow> ('w, 'a) ist" where
  "svc_deinit s = s\<lparr>svc_is_read_flag := False\<rparr>"

definition svc_interface :: "('w, 'a) ist \<Rightarrow> intf_ptr option" where
  "svc_interface s = (if svc_is_ready s then Some SvcIntf else None)"

definition local_node_interface :: "('w, 'a) ist \<Rightarrow> intf_ptr" where
  "local_node_interface s = LocalIntf"

section \<open>Allocation\<close>

definition new_interface_id :: "('w, 'a) ist \<Rightarrow> u8 \<times> ('w, 'a) ist" where
  "new_interface_id s =
     (let temp = interface_id_counter s;
          s = s\<lparr>interface_id_counter := temp + 1\<rparr>;
          s = (if temp = 255 then s\<lparr>interface_id_counter := INTERFACE_ID_START\<rparr> else s)
      in (word_of_int temp, s))"

definition slab_used :: "'b option list \<Rightarrow> bool list" where
  "slab_used slab = map (\<lambda>b. b \<noteq> None) slab"

definition gb_interface_alloc ::
  "'w zephyr \<Rightarrow> write_fn \<Rightarrow> create_fn \<Rightarrow> destroy_fn \<Rightarrow> nat option \<Rightarrow> ('w, 'a) ist \<Rightarrow>
     (intf_ptr option \<times> ('w, 'a) ist) res" where
  "gb_interface_alloc z write_cb create_connection destroy_connection data s =
     (let (blk, w) = k_mem_slab_alloc z (slab_used (gb_interface_slab s)) (world s);
          s = s\<lparr>world := w\<rparr>
      in case blk of
           None \<Rightarrow> Inr (None, s)
         | Some b \<Rightarrow>
             let (i, s) = new_interface_id s;
                 intf = \<lparr>intf_id = i, intf_write = write_cb, intf_create_connection = create_connection,
                         intf_destroy_connection = destroy_connection, ctrl_data = data\<rparr>
             in if b < length (gb_interface_slab s)
                then Inr (Some (NodeIntf b),
                       s\<lparr>gb_interface_slab := (gb_interface_slab s)[b := Some intf]\<rparr>)
                else Inl OutOfBounds)"

text \<open>Giving back a block that is not in use, or an object that is no block, corrupts the slab.\<close>

definition gb_interface_dealloc :: "intf_ptr \<Rightarrow> ('w, 'a) ist \<Rightarrow> ('w, 'a) ist res" where
  "gb_interface_dealloc p s =
     (case p of
        NodeIntf b \<Rightarrow>
          if b < length (gb_interface_slab s) \<and> gb_interface_slab s ! b \<noteq> None
          then Inr (s\<lparr>gb_interface_slab := (gb_interface_slab s)[b := None]\<rparr>) else Inl DoubleFree
      | _ \<Rightarrow> Inl DoubleFree)"

section \<open>Lemmas\<close>

lemma intf_deref_static [simp]: "intf_deref SvcIntf s = Inr svc_intf" "intf_deref LocalIntf s = Inr local_intf"
  by (simp_all add: intf_deref_def)

lemma intf_deref_node:
  "intf_deref (NodeIntf b) s = Inr i \<longleftrightarrow> b < length (gb_interface_slab s) \<and> gb_interface_slab s ! b = Some i"
  by (auto simp: intf_deref_def split: option.splits)

lemma intf_deref_cong: "gb_interface_slab s = gb_interface_slab t \<Longrightarrow> intf_deref p s = intf_deref p t"
  by (simp add: intf_deref_def split: intf_ptr.split)

definition intf_ids_ok :: "('w, 'a) ist \<Rightarrow> bool" where
  "intf_ids_ok s \<longleftrightarrow> 3 \<le> interface_id_counter s \<and> interface_id_counter s \<le> 255"

lemma new_interface_id_eq:
  "new_interface_id s =
     (word_of_int (interface_id_counter s),
      s\<lparr>interface_id_counter := (if interface_id_counter s = 255 then 3 else interface_id_counter s + 1)\<rparr>)"
  by (simp add: new_interface_id_def INTERFACE_ID_START_def Let_def)

lemma new_interface_id_ok: "intf_ids_ok s \<Longrightarrow> intf_ids_ok (snd (new_interface_id s))"
  by (simp add: new_interface_id_eq intf_ids_ok_def)

text \<open>
  Ids handed out by the counter are at least 3, so a dynamic interface is never confused with the
  SVC, the AP or the local node.
\<close>

lemma new_interface_id_range:
  assumes "intf_ids_ok s" shows "3 \<le> unat (fst (new_interface_id s))"
proof -
  have "interface_id_counter s mod 256 = interface_id_counter s"
    using assms by (simp add: intf_ids_ok_def)
  then have "uint (fst (new_interface_id s)) = interface_id_counter s"
    by (simp add: new_interface_id_eq uint_word_of_int)
  then show ?thesis using assms by (simp add: intf_ids_ok_def unat_eq_nat_uint le_nat_iff)
qed

lemma new_interface_id_not_static:
  assumes "intf_ids_ok s"
  shows "fst (new_interface_id s) \<noteq> SVC_INF_ID" "fst (new_interface_id s) \<noteq> AP_INF_ID"
    "fst (new_interface_id s) \<noteq> LOCAL_NODE_ID"
  using new_interface_id_range [OF assms] by (auto simp: gb_consts)

end
