(* ===== verification/Apbridge.thy ===== *)
theory Apbridge
  imports Interfaces
begin

text \<open>
  The AP bridge table of src/apbridge.c: for each CPort of the AP, the interface and CPort at the
  other end.  This theory holds the table, its operations and the node-to-AP direction of
  \<open>connection_send\<close>; creating and destroying connections and the AP-to-node direction need the
  interfaces and are in \<open>Connection\<close> and \<open>Firmware\<close>.
\<close>

definition AP_MAX_NODES :: nat where "AP_MAX_NODES = 32"

record node_ap_item =
  node_intf :: "intf_ptr option"
  node_cport :: u16
  node_id :: u8

record 'w ap_state = "'w intf_state" +
  node_ap_map :: "node_ap_item list"

type_synonym ('w, 'a) aps = "('w, 'a) ap_state_scheme"

definition empty_item :: node_ap_item where
  "empty_item = \<lparr>node_intf = None, node_cport = 0, node_id = 0\<rparr>"

section \<open>Operations\<close>

definition node_ap_add ::
  "u16 \<Rightarrow> u16 \<Rightarrow> intf_ptr \<Rightarrow> ('w, 'a) aps \<Rightarrow> (int \<times> ('w, 'a) aps) res" where
  "node_ap_add ap_cport cport intf s =
     (if AP_MAX_NODES \<le> unat ap_cport then Inr (- E2BIG, s)
      else if node_intf (node_ap_map s ! unat ap_cport) \<noteq> None then Inr (- EALREADY, s)
      else bnd (intf_deref intf s) (\<lambda>i.
        Inr (0, s\<lparr>node_ap_map := (node_ap_map s)[unat ap_cport :=
          \<lparr>node_intf = Some intf, node_cport = cport, node_id = intf_id i\<rparr>]\<rparr>)))"

definition node_ap_remove :: "u16 \<Rightarrow> ('w, 'a) aps \<Rightarrow> int \<times> ('w, 'a) aps" where
  "node_ap_remove ap_cport s =
     (if AP_MAX_NODES \<le> unat ap_cport then (- E2BIG, s)
      else (0, s\<lparr>node_ap_map := (node_ap_map s)[unat ap_cport := empty_item]\<rparr>))"

definition node_to_ap_cport :: "u8 \<Rightarrow> u16 \<Rightarrow> ('w, 'a) aps \<Rightarrow> int" where
  "node_to_ap_cport nid cport s =
     index_or (- EINVAL)
       (first_index (\<lambda>e. node_id e = nid \<and> node_cport e = cport) (take AP_MAX_NODES (node_ap_map s)))"

definition apbridge_init :: "('w, 'a) aps \<Rightarrow> ('w, 'a) aps" where
  "apbridge_init s = s"

definition apbridge_deinit :: "('w, 'a) aps \<Rightarrow> ('w, 'a) aps" where
  "apbridge_deinit s = s\<lparr>node_ap_map := map (\<lambda>e. empty_item) (node_ap_map s)\<rparr>"

text \<open>
  The branch of \<open>connection_send\<close> for a sender other than the AP.  The SVC and the local node call
  \<open>connection_send\<close> with their own fixed ids, which are not the AP's, so this is all they reach.
\<close>

definition connection_send_to_ap ::
  "'w zephyr \<Rightarrow> u8 \<Rightarrow> u16 \<Rightarrow> nat \<Rightarrow> ('w, 'a) aps \<Rightarrow> (int \<times> ('w, 'a) aps) res" where
  "connection_send_to_ap z nid cport msg s =
     (let ret = node_to_ap_cport nid cport s in
      if ret < 0 then Inr (ret, s) else ap_send z msg (word_of_int ret) s)"

section \<open>Invariant\<close>

definition ap_map_ok :: "('w, 'a) aps \<Rightarrow> bool" where
  "ap_map_ok s \<longleftrightarrow> length (node_ap_map s) = AP_MAX_NODES \<and>
     (\<forall>e \<in> set (node_ap_map s). node_intf e = None \<longrightarrow> e = empty_item)"

lemma ap_map_ok_update: "ap_map_ok s \<Longrightarrow> node_ap_map t = node_ap_map s \<Longrightarrow> ap_map_ok t"
  by (simp add: ap_map_ok_def)

lemma ap_map_ok_length: "ap_map_ok s \<Longrightarrow> length (node_ap_map s) = AP_MAX_NODES"
  by (simp add: ap_map_ok_def)

lemma node_ap_add_ok: "ap_map_ok s \<Longrightarrow> node_ap_add p c i s = Inr (r, s') \<Longrightarrow> ap_map_ok s'"
  unfolding ap_map_ok_def node_ap_add_def
  by (auto split: if_splits dest!: set_update_subset_insert [THEN subsetD])

lemma node_ap_remove_ok: "ap_map_ok s \<Longrightarrow> ap_map_ok (snd (node_ap_remove p s))"
  unfolding ap_map_ok_def node_ap_remove_def
  by (auto dest!: set_update_subset_insert [THEN subsetD])

lemma apbridge_deinit_ok: "ap_map_ok s \<Longrightarrow> ap_map_ok (apbridge_deinit s)"
  by (auto simp: ap_map_ok_def apbridge_deinit_def)

section \<open>The table as a map\<close>

text \<open>
  What the table promises: a partial map from AP CPorts to the other end, with the bound
  \<open>AP_MAX_NODES\<close> and no overwriting of a live connection.
\<close>

locale route_table =
  fixes route :: "'s \<Rightarrow> u16 \<Rightarrow> ('i \<times> u16 \<times> u8) option"
    and resolve :: "'i \<Rightarrow> 's \<Rightarrow> u8 option"
    and add :: "u16 \<Rightarrow> u16 \<Rightarrow> 'i \<Rightarrow> 's \<Rightarrow> (int \<times> 's) res"
    and remove :: "u16 \<Rightarrow> 's \<Rightarrow> int \<times> 's"
    and limit :: nat
    and inv :: "'s \<Rightarrow> bool"
  assumes add_free: "inv s \<Longrightarrow> unat p < limit \<Longrightarrow> route s p = None \<Longrightarrow> resolve i s = Some n \<Longrightarrow>
      \<exists>s'. add p c i s = Inr (0, s') \<and> route s' = (route s)(p \<mapsto> (i, c, n)) \<and> inv s'"
    and add_taken: "inv s \<Longrightarrow> unat p < limit \<Longrightarrow> route s p \<noteq> None \<Longrightarrow> \<exists>e < 0. add p c i s = Inr (e, s)"
    and add_big: "limit \<le> unat p \<Longrightarrow> \<exists>e < 0. add p c i s = Inr (e, s)"
    and remove_in: "inv s \<Longrightarrow> unat p < limit \<Longrightarrow>
      fst (remove p s) = 0 \<and> route (snd (remove p s)) = (route s)(p := None) \<and> inv (snd (remove p s))"
    and remove_big: "limit \<le> unat p \<Longrightarrow> snd (remove p s) = s"
begin

lemma connect_disconnect:
  assumes "inv s" "unat p < limit" "route s p = None" "resolve i s = Some n"
  shows "\<exists>s'. add p c i s = Inr (0, s') \<and> route s' p = Some (i, c, n) \<and>
    route (snd (remove p s')) = route s"
proof -
  obtain s' where s': "add p c i s = Inr (0, s')" "route s' = (route s)(p \<mapsto> (i, c, n))" "inv s'"
    using add_free [OF assms] by blast
  moreover have "route (snd (remove p s')) = route s"
    using remove_in [OF s'(3) assms(2)] s'(2) assms(3) by (simp add: fun_upd_idem)
  ultimately show ?thesis by auto
qed

lemma second_add_rejected:
  assumes "inv s" "unat p < limit" "route s p = None" "resolve i s = Some n"
  shows "\<exists>s' e. add p c i s = Inr (0, s') \<and> e < 0 \<and> add p c' i' s' = Inr (e, s')"
proof -
  obtain s' where s': "add p c i s = Inr (0, s')" "route s' = (route s)(p \<mapsto> (i, c, n))" "inv s'"
    using add_free [OF assms] by blast
  with add_taken [OF s'(3) assms(2), of c' i'] show ?thesis by auto
qed

end

definition ap_route :: "('w, 'a) aps \<Rightarrow> u16 \<Rightarrow> (intf_ptr \<times> u16 \<times> u8) option" where
  "ap_route s p =
     (if unat p < length (node_ap_map s)
      then let e = node_ap_map s ! unat p in
           map_option (\<lambda>i. (i, node_cport e, node_id e)) (node_intf e)
      else None)"

definition intf_resolve :: "intf_ptr \<Rightarrow> ('w, 'a) aps \<Rightarrow> u8 option" where
  "intf_resolve i s = (case intf_deref i s of Inl e \<Rightarrow> None | Inr intf \<Rightarrow> Some (intf_id intf))"

lemma ap_route_update:
  assumes "unat p < length (node_ap_map s)"
  shows "ap_route (s\<lparr>node_ap_map := (node_ap_map s)[unat p := e]\<rparr>) =
    (ap_route s)(p := map_option (\<lambda>i. (i, node_cport e, node_id e)) (node_intf e))"
proof (rule ext)
  fix q :: u16
  show "ap_route (s\<lparr>node_ap_map := (node_ap_map s)[unat p := e]\<rparr>) q =
      ((ap_route s)(p := map_option (\<lambda>i. (i, node_cport e, node_id e)) (node_intf e))) q"
    using assms by (auto simp: ap_route_def Let_def nth_list_update dest: word_unat_eq_iff [THEN iffD2])
qed

interpretation ap: route_table ap_route intf_resolve node_ap_add node_ap_remove AP_MAX_NODES ap_map_ok
proof unfold_locales
  fix s :: "('a, 'b) aps" and p c :: u16 and i :: intf_ptr and n :: u8
  assume ok: "ap_map_ok s" "unat p < AP_MAX_NODES"
  note len = ap_map_ok_length [OF ok(1)]
  { assume "ap_route s p = None" "intf_resolve i s = Some n"
    then have free: "node_intf (node_ap_map s ! unat p) = None" and "map_sum Inl intf_id (intf_deref i s) = Inr n"
      using ok len by (auto simp: ap_route_def Let_def intf_resolve_def split: sum.splits)
    then obtain intf where "intf_deref i s = Inr intf" "intf_id intf = n"
      by (cases "intf_deref i s") auto
    with free ok len have "node_ap_add p c i s = Inr (0, s\<lparr>node_ap_map := (node_ap_map s)[unat p :=
          \<lparr>node_intf = Some i, node_cport = c, node_id = n\<rparr>]\<rparr>)"
      by (simp add: node_ap_add_def)
    with node_ap_add_ok [OF ok(1) this] ok len
    show "\<exists>s'. node_ap_add p c i s = Inr (0, s') \<and> ap_route s' = (ap_route s)(p \<mapsto> (i, c, n)) \<and> ap_map_ok s'"
      by (auto simp: ap_route_update) }
  show "ap_route s p \<noteq> None \<Longrightarrow> \<exists>e<0. node_ap_add p c i s = Inr (e, s)"
    using ok len by (auto simp: node_ap_add_def ap_route_def Let_def EALREADY_def)
  show "fst (node_ap_remove p s) = 0 \<and> ap_route (snd (node_ap_remove p s)) = (ap_route s)(p := None) \<and>
      ap_map_ok (snd (node_ap_remove p s))"
    using ok len node_ap_remove_ok [OF ok(1), of p]
    by (auto simp: node_ap_remove_def ap_route_update empty_item_def)
qed (auto simp: node_ap_add_def node_ap_remove_def E2BIG_def)

section \<open>Routing towards the AP\<close>

lemma node_to_ap_cport_cases:
  assumes "ap_map_ok s"
  obtains (none) "node_to_ap_cport n c s = - EINVAL"
      "\<And>i. i < AP_MAX_NODES \<Longrightarrow> \<not> (node_id (node_ap_map s ! i) = n \<and> node_cport (node_ap_map s ! i) = c)"
  | (found) i where "node_to_ap_cport n c s = int i" "i < AP_MAX_NODES"
      "node_id (node_ap_map s ! i) = n" "node_cport (node_ap_map s ! i) = c"
      "\<And>j. j < i \<Longrightarrow> \<not> (node_id (node_ap_map s ! j) = n \<and> node_cport (node_ap_map s ! j) = c)"
proof (cases "first_index (\<lambda>e. node_id e = n \<and> node_cport e = c) (node_ap_map s)")
  case None
  then have "node_to_ap_cport n c s = - EINVAL"
    using ap_map_ok_length [OF assms] by (simp add: node_to_ap_cport_def)
  moreover have "\<forall>e \<in> set (node_ap_map s). \<not> (node_id e = n \<and> node_cport e = c)"
    using None by (simp add: first_index_None_iff)
  ultimately show ?thesis
    using none ap_map_ok_length [OF assms] by (metis nth_mem)
next
  case (Some i)
  with first_index_SomeD [OF Some] show ?thesis
    using found [of i] ap_map_ok_length [OF assms] by (auto simp: node_to_ap_cport_def)
qed

lemma node_to_ap_cport_bounds:
  assumes "ap_map_ok s"
  shows "node_to_ap_cport n c s < 0 \<or> (0 \<le> node_to_ap_cport n c s \<and> node_to_ap_cport n c s < int AP_MAX_NODES)"
  using assms by (cases rule: node_to_ap_cport_cases [where n = n and c = c]) (auto simp: EINVAL_def)

lemma node_to_ap_cport_cong: "node_ap_map s = node_ap_map t \<Longrightarrow> node_to_ap_cport n c s = node_to_ap_cport n c t"
  by (simp add: node_to_ap_cport_def)

text \<open>
  A message allocated a moment ago and sent to the AP: what the state is afterwards.  The heap is
  as before the allocation.
\<close>

definition uplinked ::
  "'w zephyr \<Rightarrow> u16 \<Rightarrow> gb_message \<Rightarrow> 'w \<Rightarrow> ('w, 'a) gs \<Rightarrow> ('w, 'a) gs" where
  "uplinked z cport m w s = s\<lparr>world := k_heap_free z (msg_next s) w,
     uart_tx := uart_tx s @ ap_frame z cport m, msg_next := msg_next s + 1\<rparr>"

lemma ap_send_fresh:
  assumes "heap_ok s" "wf_msg m" "fits_block m"
  shows "ap_send z (msg_next s) cport (with_msg m w s) = Inr (0, uplinked z cport m w s)"
  using heap_ok_fresh [OF assms(1)] assms(2,3)
  by (subst ap_send_eq) (auto intro!: gb_state.equality simp: uplinked_def with_msg_def fun_upd_idem)

lemma connection_send_to_ap_fresh:
  assumes "heap_ok s" "wf_msg m" "fits_block m" "node_to_ap_cport n c s = int i"
  shows "connection_send_to_ap z n c (msg_next s) (with_msg m w s) =
    Inr (0, uplinked z (of_nat i) m w s)"
proof -
  have "node_to_ap_cport n c (with_msg m w s) = int i"
    using assms(4) by (subst node_to_ap_cport_cong [of _ s]) (simp_all add: with_msg_def)
  with assms(1-3) show ?thesis by (simp add: connection_send_to_ap_def ap_send_fresh)
qed

lemma fits_sent_msg: "length bs \<le> 246 \<Longrightarrow> fits_block (sent_msg ty op st pad bs)"
  by (simp add: fits_block_def sent_msg_def hdr_len_def HDLC_MAX_BLOCK_SIZE_def)

lemma uplinked_sel [simp]:
  "msg_heap (uplinked z c m w s) = msg_heap s" "uart_tx (uplinked z c m w s) = uart_tx s @ ap_frame z c m"
  "msg_next (uplinked z c m w s) = msg_next s + 1" "node_ap_map (uplinked z c m w t) = node_ap_map t"
  "operation_id_counter (uplinked z c m w s) = operation_id_counter s"
  "gb_interface_slab (uplinked z c m w t) = gb_interface_slab t"
  "svc_is_read_flag (uplinked z c m w t) = svc_is_read_flag t"
  "interface_id_counter (uplinked z c m w t) = interface_id_counter t"
  by (simp_all add: uplinked_def)

lemma heap_ok_uplinked: "heap_ok s \<Longrightarrow> heap_ok (uplinked z c m w s)"
  by (simp add: heap_ok_def)

text \<open>The table is determined by the routes, and a new route leaves the resolution of others alone.\<close>

definition item_of_route :: "(intf_ptr \<times> u16 \<times> u8) option \<Rightarrow> node_ap_item" where
  "item_of_route r = (case r of None \<Rightarrow> empty_item
     | Some (q, c, n) \<Rightarrow> \<lparr>node_intf = Some q, node_cport = c, node_id = n\<rparr>)"

lemma ap_map_of_route:
  assumes "ap_map_ok s" "i < AP_MAX_NODES"
  shows "node_ap_map s ! i = item_of_route (ap_route s (of_nat i))"
proof -
  have u: "unat (of_nat i :: u16) = i" using assms(2) by (simp add: unat_of_nat_u16 AP_MAX_NODES_def)
  have len: "i < length (node_ap_map s)" using assms by (simp add: ap_map_ok_def)
  show ?thesis
  proof (cases "node_intf (node_ap_map s ! i)")
    case None
    then have "node_ap_map s ! i = empty_item" using assms(1) len by (simp add: ap_map_ok_def)
    with None len u show ?thesis by (simp add: ap_route_def item_of_route_def)
  qed (use len u in \<open>simp add: ap_route_def item_of_route_def Let_def\<close>)
qed

lemma ap_map_same_route:
  assumes "ap_map_ok s" "ap_map_ok t" "ap_route t = ap_route s" shows "node_ap_map t = node_ap_map s"
  using assms ap_map_ok_length [OF assms(1)] ap_map_ok_length [OF assms(2)]
  by (intro nth_equalityI) (simp_all add: ap_map_of_route)

lemma node_to_ap_cport_new_route:
  assumes ok: "ap_map_ok s" "ap_map_ok t" and j: "node_to_ap_cport SVC_INF_ID 0 s = int j"
    and live: "ap_route s (of_nat j) \<noteq> None"
    and p: "unat p < AP_MAX_NODES" "ap_route s p = None" "ap_route t = (ap_route s)(p := r)"
  shows "node_to_ap_cport SVC_INF_ID 0 t = int j"
proof -
  have f: "j < AP_MAX_NODES" "node_id (node_ap_map s ! j) = SVC_INF_ID" "node_cport (node_ap_map s ! j) = 0"
    "\<And>k. k < j \<Longrightarrow> \<not> (node_id (node_ap_map s ! k) = SVC_INF_ID \<and> node_cport (node_ap_map s ! k) = 0)"
    by (cases rule: node_to_ap_cport_cases [OF ok(1), of SVC_INF_ID 0]; use j in \<open>simp add: EINVAL_def\<close>)+
  have pj: "unat p \<noteq> k" if "k \<le> j" for k
  proof
    assume k: "unat p = k"
    then have pk: "p = of_nat k" by (metis of_nat_unat ucast_id)
    then have "node_ap_map s ! k = empty_item"
      using ap_map_of_route [OF ok(1), of k] p(1,2) k by (simp add: item_of_route_def)
    then have "\<not> k < j" using f(4) [of k] by (auto simp: empty_item_def SVC_INF_ID_def)
    with that pk p(2) live show False by simp
  qed
  have same: "node_ap_map t ! k = node_ap_map s ! k" if "k \<le> j" for k
  proof -
    have k: "k < AP_MAX_NODES" using that f(1) by simp
    have "of_nat k \<noteq> p" using pj [OF that] k unat_of_nat_u16 [of k] by (auto simp: AP_MAX_NODES_def)
    then show ?thesis
      using ap_map_of_route [OF ok(1) k] ap_map_of_route [OF ok(2) k] p(3) by simp
  qed
  have "first_index (\<lambda>e. node_id e = SVC_INF_ID \<and> node_cport e = 0) (take AP_MAX_NODES (node_ap_map t)) = Some j"
    using f same ap_map_ok_length [OF ok(2)] by (intro first_index_SomeI) simp_all
  then show ?thesis by (simp add: node_to_ap_cport_def)
qed

end
