(* ===== verification/Svc_Uplink.thy ===== *)
theory Svc_Uplink
  imports Apbridge
begin

text \<open>
  The requests and responses the SVC sends to the AP (the sending half of src/svc.c).  The handlers
  for what the AP sends to the SVC are in \<open>Svc\<close>.
\<close>

definition ENDO_ID :: u16 where "ENDO_ID = 0x4755"

text \<open>
  \<open>msg->header.operation_id\<close>, wherever the message now is.  If it has been freed, this read is a use after
  free.  It is the one access of the program that the model does not make a fault, because \<open>control_send_request\<close>
  makes it on every request it sends and nothing could be said of what follows; its value is whatever the
  freed memory holds.  \<open>control_send_request_reads_freed\<close> states the use after free.
\<close>

definition msg_operation_id :: "'w zephyr \<Rightarrow> nat \<Rightarrow> ('w, 'a) gs \<Rightarrow> u16" where
  "msg_operation_id z p s =
     (case msg_heap s p of Some m \<Rightarrow> hdr_operation_id (header m) | None \<Rightarrow> freed_u16 z p (world s))"

definition control_send_request ::
  "'w zephyr \<Rightarrow> byte list \<Rightarrow> u8 \<Rightarrow> ('w, 'a) aps \<Rightarrow> (int \<times> ('w, 'a) aps) res" where
  "control_send_request z bs request_type s =
     bnd (gb_message_request_alloc z bs request_type False s) (\<lambda>(msg, s).
       case msg of
         None \<Rightarrow> Inr (- ENOMEM, s)
       | Some p \<Rightarrow>
           bnd (connection_send_to_ap z SVC_INF_ID 0 p s) (\<lambda>(ret, s).
             if ret < 0 then Inr (ret, s) else Inr (uint (msg_operation_id z p s), s)))"

definition svc_send_hello :: "'w zephyr \<Rightarrow> ('w, 'a) aps \<Rightarrow> (int \<times> ('w, 'a) aps) res" where
  "svc_send_hello z s = control_send_request z (gb_svc_hello_request ENDO_ID AP_INF_ID) GB_SVC_TYPE_SVC_HELLO s"

definition svc_response_helper ::
  "'w zephyr \<Rightarrow> nat \<Rightarrow> byte list \<Rightarrow> u8 \<Rightarrow> ('w, 'a) aps \<Rightarrow> ('w, 'a) aps res" where
  "svc_response_helper z msg bs status s =
     bnd (msg_get msg s) (\<lambda>m.
     bnd (gb_message_response_alloc z bs (hdr_type (header m)) (hdr_operation_id (header m)) status s)
       (\<lambda>(resp, s).
         case resp of
           None \<Rightarrow> Inr s
         | Some p \<Rightarrow> bnd (connection_send_to_ap z SVC_INF_ID 0 p s) (\<lambda>(ret, s). Inr s)))"

definition svc_send_module_inserted :: "'w zephyr \<Rightarrow> u8 \<Rightarrow> ('w, 'a) aps \<Rightarrow> (int \<times> ('w, 'a) aps) res" where
  "svc_send_module_inserted z primary_intf_id s =
     control_send_request z (gb_svc_module_inserted_request primary_intf_id 1 0) GB_SVC_TYPE_MODULE_INSERTED s"

definition svc_send_version :: "'w zephyr \<Rightarrow> ('w, 'a) aps \<Rightarrow> (int \<times> ('w, 'a) aps) res" where
  "svc_send_version z s =
     control_send_request z (gb_svc_version_request GB_SVC_VERSION_MAJOR GB_SVC_VERSION_MINOR)
       GB_SVC_TYPE_PROTOCOL_VERSION s"

section \<open>What a request and a response do\<close>

lemma heap_ok_new_id [simp]: "heap_ok (snd (new_operation_id s)) = heap_ok s"
  by (simp add: heap_ok_def new_operation_id_eq)

lemma new_id_sel [simp]:
  "node_ap_map (snd (new_operation_id s)) = node_ap_map s" "msg_next (snd (new_operation_id s)) = msg_next s"
  "world (snd (new_operation_id s)) = world s" "uart_tx (snd (new_operation_id s)) = uart_tx s"
  "msg_heap (snd (new_operation_id s)) = msg_heap s"
  by (simp_all add: new_operation_id_eq)

text \<open>
  Sending a request while the SVC is routed to AP CPort \<open>i\<close> and the heap has room: one frame to the
  AP with a fresh operation id, the heap as before.  The value returned is read from the message
  after \<open>ap_send\<close> freed it.
\<close>

lemma control_send_request_eq:
  assumes "heap_documented z" "heap_ok s" "length bs \<le> 246" "node_to_ap_cport SVC_INF_ID 0 s = int i"
    and "k_heap_alloc z (hdr_len + length bs) (world s) = (Some blk, w)"
  shows "control_send_request z bs ty s =
    (let t = uplinked z (of_nat i) (sent_msg ty (fst (new_operation_id s)) 0 (blk ! 6, blk ! 7) bs) w
               (snd (new_operation_id s))
     in Inr (uint (freed_u16 z (msg_next s) (world t)), t))"
proof -
  let ?t = "snd (new_operation_id s)"
  let ?m = "sent_msg ty (fst (new_operation_id s)) 0 (blk ! 6, blk ! 7) bs"
  have small: "hdr_len + length bs < 65536" using assms(3) by (simp add: hdr_len_def)
  have "node_to_ap_cport SVC_INF_ID 0 ?t = int i"
    using assms(4) by (subst node_to_ap_cport_cong [of _ s]) simp_all
  then have "connection_send_to_ap z SVC_INF_ID 0 (msg_next ?t) (with_msg ?m w ?t) =
      Inr (0, uplinked z (of_nat i) ?m w ?t)"
    using assms(2,3) wf_sent_msg [OF small] by (intro connection_send_to_ap_fresh) (simp_all add: fits_sent_msg)
  then show ?thesis
    using assms(5) heap_ok_fresh [OF assms(2)]
    by (simp add: control_send_request_def gb_message_request_alloc_eq [OF assms(1) small]
        msg_operation_id_def Let_def)
qed

text \<open>
  Every request that is sent ends with a read from freed memory: where \<open>control_send_request\<close> reads the
  operation id, the message is no longer allocated.
\<close>

lemma control_send_request_reads_freed:
  assumes "gb_message_request_alloc z bs ty False s = Inr (Some p, t)" "connection_send_to_ap z SVC_INF_ID 0 p t = Inr (ret, u)"
    and "0 \<le> ret"
  shows "msg_heap u p = None \<and> control_send_request z bs ty s = Inr (uint (freed_u16 z p (world u)), u)"
proof -
  have "msg_heap u p = None"
    using assms(2,3) by (auto simp: connection_send_to_ap_def ap_send_def gb_message_dealloc_def Let_def split: option.splits if_splits)
  with assms show ?thesis by (simp add: control_send_request_def msg_operation_id_def)
qed

lemma svc_response_helper_eq:
  assumes "heap_documented z" "heap_ok s" "length bs \<le> 246" "node_to_ap_cport SVC_INF_ID 0 s = int i"
    and "msg_heap s p = Some m"
    and "k_heap_alloc z (hdr_len + length bs) (world s) = (Some blk, w)"
  shows "svc_response_helper z p bs status s =
    Inr (uplinked z (of_nat i) (sent_msg (GB_OP_RESPONSE OR hdr_type (header m))
           (hdr_operation_id (header m)) status (blk ! 6, blk ! 7) bs) w s)"
proof -
  have small: "hdr_len + length bs < 65536" using assms(3) by (simp add: hdr_len_def)
  show ?thesis
    using assms(5,6) connection_send_to_ap_fresh [OF assms(2) wf_sent_msg [OF small] fits_sent_msg [OF assms(3)] assms(4)]
    by (simp add: svc_response_helper_def msg_get_def gb_message_response_alloc_eq [OF assms(1) small])
qed

end
