(* ===== verification/Node_Cache.thy ===== *)
theory Node_Cache
  imports Svc_Uplink "HOL-Library.Multiset"
begin

text \<open>
  The remote nodes the firmware knows (the first half of src/node.c): the node cache, its searches,
  and the creation and destruction of a node's interface with its control data.
\<close>

definition MAX_GREYBUS_NODES :: nat where "MAX_GREYBUS_NODES = 32"

section \<open>State\<close>

record node_item =
  item_sock :: int
  item_id :: u8
  item_addr :: "byte list"
  item_inf :: "intf_ptr option"
  fail_count :: u8

record 'w node_state = "'w ap_state" +
  node_cache :: "node_item list"
  node_cache_pos :: nat
  node_control_data_slab :: "int option list"
  local_pipe_writer :: int

type_synonym ('w, 'a) ns = "('w, 'a) node_state_scheme"

text \<open>The entries in use.\<close>

definition nodes :: "('w, 'a) ns \<Rightarrow> node_item list" where
  "nodes s = take (node_cache_pos s) (node_cache s)"

section \<open>Operations\<close>

definition node_cache_find_by_addr :: "byte list \<Rightarrow> ('w, 'a) ns \<Rightarrow> int" where
  "node_cache_find_by_addr a s = index_or (-1) (first_index (\<lambda>e. item_addr e = a) (nodes s))"

definition node_cache_find_by_sock :: "int \<Rightarrow> ('w, 'a) ns \<Rightarrow> int" where
  "node_cache_find_by_sock sk s = index_or (-1) (first_index (\<lambda>e. item_sock e = sk) (nodes s))"

definition node_cache_find_by_id :: "u8 \<Rightarrow> ('w, 'a) ns \<Rightarrow> int" where
  "node_cache_find_by_id n s = index_or (-1) (first_index (\<lambda>e. item_id e = n) (nodes s))"

definition node_cache_add ::
  "int \<Rightarrow> u8 \<Rightarrow> byte list \<Rightarrow> intf_ptr option \<Rightarrow> ('w, 'a) ns \<Rightarrow> int \<times> ('w, 'a) ns" where
  "node_cache_add sk n a intf s =
     (if MAX_GREYBUS_NODES \<le> node_cache_pos s then (- ENOMEM, s)
      else (0, s\<lparr>node_cache := (node_cache s)[node_cache_pos s :=
                   \<lparr>item_sock = sk, item_id = n, item_addr = a, item_inf = intf, fail_count = 0\<rparr>],
                node_cache_pos := node_cache_pos s + 1\<rparr>))"

definition node_cache_remove_at :: "nat \<Rightarrow> ('w, 'a) ns \<Rightarrow> ('w, 'a) ns res" where
  "node_cache_remove_at pos s =
     (let last_pos = size_sub (node_cache_pos s) 1;
          s = s\<lparr>node_cache_pos := last_pos\<rparr>
      in if pos = last_pos then Inr s
         else if pos < length (node_cache s) \<and> last_pos < length (node_cache s)
         then Inr (s\<lparr>node_cache := (node_cache s)[pos := node_cache s ! last_pos]\<rparr>)
         else Inl OutOfBounds)"

definition node_cache_remove_by_id :: "u8 \<Rightarrow> ('w, 'a) ns \<Rightarrow> (int \<times> ('w, 'a) ns) res" where
  "node_cache_remove_by_id n s =
     (let ret = node_cache_find_by_id n s in
      if 0 \<le> ret then bnd (node_cache_remove_at (nat ret) s) (\<lambda>s. Inr (ret, s)) else Inr (ret, s))"

definition node_find_by_id :: "u8 \<Rightarrow> ('w, 'a) ns \<Rightarrow> intf_ptr option" where
  "node_find_by_id n s =
     (let ret = node_cache_find_by_id n s in
      if 0 \<le> ret then item_inf (node_cache s ! nat ret) else None)"

text \<open>\<open>struct node_control_data\<close> lives in its own slab and holds the node's socket.\<close>

definition ctrl_get :: "nat \<Rightarrow> ('w, 'a) ns \<Rightarrow> int res" where
  "ctrl_get c s =
     (if c < length (node_control_data_slab s)
      then (case node_control_data_slab s ! c of None \<Rightarrow> Inl UseAfterFree | Some sk \<Rightarrow> Inr sk)
      else Inl OutOfBounds)"

definition ctrl_set :: "nat \<Rightarrow> int \<Rightarrow> ('w, 'a) ns \<Rightarrow> ('w, 'a) ns" where
  "ctrl_set c sk s = s\<lparr>node_control_data_slab := (node_control_data_slab s)[c := Some sk]\<rparr>"

definition ctrl_free :: "nat \<Rightarrow> ('w, 'a) ns \<Rightarrow> ('w, 'a) ns res" where
  "ctrl_free c s =
     (if c < length (node_control_data_slab s) \<and> node_control_data_slab s ! c \<noteq> None
      then Inr (s\<lparr>node_control_data_slab := (node_control_data_slab s)[c := None]\<rparr>)
      else Inl DoubleFree)"

text \<open>
  When the cache is full the control data is freed again but the interface is not: the source has
  no \<open>gb_interface_dealloc\<close> on that path.
\<close>

definition node_create_interface ::
  "'w zephyr \<Rightarrow> byte list \<Rightarrow> ('w, 'a) ns \<Rightarrow> (intf_ptr option \<times> ('w, 'a) ns) res" where
  "node_create_interface z a s =
     (let (blk, w) = k_mem_slab_alloc z (slab_used (node_control_data_slab s)) (world s);
          s = s\<lparr>world := w\<rparr>
      in case blk of
           None \<Rightarrow> Inr (None, s)
         | Some c \<Rightarrow>
             if length (node_control_data_slab s) \<le> c then Inl OutOfBounds
             else bnd (gb_interface_alloc z Node_inf_write Node_intf_create_connection
                         Node_intf_destroy_connection (Some c) (ctrl_set c (-1) s)) (\<lambda>(intf, s).
               case intf of
                 None \<Rightarrow> bnd (ctrl_free c s) (\<lambda>s. Inr (None, s))
               | Some p \<Rightarrow>
                   bnd (intf_deref p s) (\<lambda>i.
                     let (ret, s) = node_cache_add (-1) (intf_id i) a (Some p) s in
                     if ret < 0 then bnd (ctrl_free c s) (\<lambda>s. Inr (None, s))
                     else Inr (Some p, s))))"

definition node_destroy_interface ::
  "'w zephyr \<Rightarrow> intf_ptr option \<Rightarrow> ('w, 'a) ns \<Rightarrow> ('w, 'a) ns res" where
  "node_destroy_interface z intf s =
     (case intf of
        None \<Rightarrow> Inr s
      | Some p \<Rightarrow>
          bnd (intf_deref p s) (\<lambda>i.
            case ctrl_data i of
              None \<Rightarrow> Inl NullDeref
            | Some c \<Rightarrow>
                bnd (ctrl_get c s) (\<lambda>sk.
                let s = (if 0 \<le> sk then s\<lparr>world := zsock_close z sk (world s)\<rparr> else s) in
                bnd (node_cache_remove_by_id (intf_id i) s) (\<lambda>(ret, s).
                bnd (ctrl_free c s) (\<lambda>s.
                gb_interface_dealloc p s)))))"

text \<open>
  The loop of \<open>node_destroy_all\<close> runs while the index is below \<open>node_cache_pos\<close>, which the body
  itself lowers; it needs at most as many rounds as there were nodes.
\<close>

primrec node_destroy_loop :: "'w zephyr \<Rightarrow> nat \<Rightarrow> nat \<Rightarrow> ('w, 'a) ns \<Rightarrow> ('w, 'a) ns res" where
  "node_destroy_loop z 0 i s = (if i < node_cache_pos s then Inl Diverges else Inr s)"
| "node_destroy_loop z (Suc n) i s =
     (if i < node_cache_pos s
      then bnd (node_destroy_interface z (item_inf (node_cache s ! i)) s) (node_destroy_loop z n (Suc i))
      else Inr s)"

definition node_destroy_all :: "'w zephyr \<Rightarrow> ('w, 'a) ns \<Rightarrow> ('w, 'a) ns res" where
  "node_destroy_all z s =
     bnd (node_destroy_loop z (node_cache_pos s) 0 s) (\<lambda>s.
       let s = s\<lparr>node_cache_pos := 0\<rparr> in
       if True \<in> set (slab_used (node_control_data_slab s)) then Inl AssertionFailed else Inr s)"

section \<open>Invariant\<close>

text \<open>
  Every cached node owns a live interface block with its id and a live control block with its
  socket; no two nodes share an id, an interface or a control block; and every control block in
  use belongs to a node.
\<close>

definition entry_ctrl :: "gb_interface option list \<Rightarrow> node_item \<Rightarrow> nat option" where
  "entry_ctrl slab e =
     (case item_inf e of
        Some (NodeIntf b) \<Rightarrow> (case slab ! b of Some i \<Rightarrow> ctrl_data i | None \<Rightarrow> None)
      | _ \<Rightarrow> None)"

definition entry_ok :: "gb_interface option list \<Rightarrow> int option list \<Rightarrow> node_item \<Rightarrow> bool" where
  "entry_ok slab ctrl e \<longleftrightarrow>
     (\<exists>b i c. item_inf e = Some (NodeIntf b) \<and> b < length slab \<and> slab ! b = Some i \<and>
        intf_id i = item_id e \<and> intf_write i = Node_inf_write \<and>
        intf_create_connection i = Node_intf_create_connection \<and>
        intf_destroy_connection i = Node_intf_destroy_connection \<and>
        ctrl_data i = Some c \<and> c < length ctrl \<and> ctrl ! c = Some (item_sock e))"

definition nodes_ok :: "node_item list \<Rightarrow> gb_interface option list \<Rightarrow> int option list \<Rightarrow> bool" where
  "nodes_ok es slab ctrl \<longleftrightarrow>
     (\<forall>e \<in> set es. entry_ok slab ctrl e) \<and>
     distinct (map item_id es) \<and> distinct (map item_inf es) \<and> distinct (map (entry_ctrl slab) es) \<and>
     (\<forall>c < length ctrl. ctrl ! c \<noteq> None \<longrightarrow> Some c \<in> entry_ctrl slab ` set es)"

definition node_ok :: "('w, 'a) ns \<Rightarrow> bool" where
  "node_ok s \<longleftrightarrow>
     length (node_cache s) = MAX_GREYBUS_NODES \<and> node_cache_pos s \<le> MAX_GREYBUS_NODES \<and>
     length (gb_interface_slab s) = MAX_GREYBUS_INTERFACES \<and>
     length (node_control_data_slab s) = MAX_GREYBUS_NODES \<and>
     nodes_ok (nodes s) (gb_interface_slab s) (node_control_data_slab s)"

lemma node_ok_cong:
  "node_ok s \<Longrightarrow> node_cache t = node_cache s \<Longrightarrow> node_cache_pos t = node_cache_pos s \<Longrightarrow>
     gb_interface_slab t = gb_interface_slab s \<Longrightarrow> node_control_data_slab t = node_control_data_slab s \<Longrightarrow>
     node_ok t"
  by (simp add: node_ok_def nodes_def)

lemma length_nodes: "node_ok s \<Longrightarrow> length (nodes s) = node_cache_pos s"
  by (simp add: node_ok_def nodes_def)

text \<open>The invariant does not depend on the order of the entries.\<close>

lemma distinct_map_mset:
  assumes "mset es = add_mset e (mset es')" "distinct (map f es)"
  shows "distinct (map f es') \<and> f e \<notin> f ` set es'"
proof -
  have "mset (map f es) = mset (map f (e # es'))" using assms(1) by simp
  with assms(2) have "distinct (map f (e # es'))" by (metis mset_eq_imp_distinct_iff)
  then show ?thesis by simp
qed

lemma set_mset_remove: "mset es = add_mset e (mset es') \<Longrightarrow> set es = insert e (set es')"
  by (metis set_mset_add_mset_insert set_mset_mset)

text \<open>Freeing the two blocks of a removed entry leaves the others in order.\<close>

lemma nodes_ok_remove:
  assumes ok: "nodes_ok es slab ctrl" and es: "mset es = add_mset e (mset es')"
    and b: "item_inf e = Some (NodeIntf b)" and c: "entry_ctrl slab e = Some c"
  shows "nodes_ok es' (slab[b := None]) (ctrl[c := None])"
proof -
  note set_es = set_mset_remove [OF es]
  have d: "distinct (map item_id es')" "distinct (map item_inf es')" "distinct (map (entry_ctrl slab) es')"
    and fresh: "item_inf e \<notin> item_inf ` set es'" "entry_ctrl slab e \<notin> entry_ctrl slab ` set es'"
    using ok distinct_map_mset [OF es] by (auto simp: nodes_ok_def)
  have same: "entry_ctrl (slab[b := None]) x = entry_ctrl slab x \<and> entry_ok (slab[b := None]) (ctrl[c := None]) x"
    if "x \<in> set es'" for x
  proof -
    have "entry_ok slab ctrl x" using ok that set_es by (simp add: nodes_ok_def)
    then obtain b' i c' where x: "item_inf x = Some (NodeIntf b')" "b' < length slab" "slab ! b' = Some i"
      "ctrl_data i = Some c'" "c' < length ctrl" "ctrl ! c' = Some (item_sock x)"
      "intf_id i = item_id x" "intf_write i = Node_inf_write"
      "intf_create_connection i = Node_intf_create_connection"
      "intf_destroy_connection i = Node_intf_destroy_connection"
      by (auto simp: entry_ok_def)
    have "b' \<noteq> b" using fresh(1) b x(1) that by (metis image_eqI)
    moreover have "entry_ctrl slab x = Some c'" using x by (simp add: entry_ctrl_def)
    then have "c' \<noteq> c" using fresh(2) c that by (metis image_eqI)
    ultimately show ?thesis using x by (simp add: entry_ctrl_def entry_ok_def)
  qed
  have img: "entry_ctrl (slab[b := None]) ` set es' = entry_ctrl slab ` set es'"
    and mp: "map (entry_ctrl (slab[b := None])) es' = map (entry_ctrl slab) es'"
    using same by (auto intro!: image_cong)
  have "Some k \<in> entry_ctrl slab ` set es'"
    if "k < length (ctrl[c := None])" "ctrl[c := None] ! k \<noteq> None" for k
  proof -
    have k: "k < length ctrl" using that by simp
    have "k \<noteq> c" using that by auto
    with that k have "ctrl ! k \<noteq> None" by simp
    with k have "Some k \<in> entry_ctrl slab ` set es" using ok by (simp add: nodes_ok_def)
    with \<open>k \<noteq> c\<close> c set_es show ?thesis by auto
  qed
  then show ?thesis using d same by (simp add: nodes_ok_def img mp)
qed

text \<open>Removing by swapping in the last entry removes exactly that entry.\<close>

lemma swap_remove_mset:
  assumes "i < n" "n \<le> length xs"
  shows "mset (take n xs) = add_mset (xs ! i) (mset (take (n - 1) (xs[i := xs ! (n - 1)])))"
proof -
  obtain m where n: "n = Suc m" using assms(1) by (cases n) auto
  have split: "take n xs = take m xs @ [xs ! m]"
    using assms n by (simp add: take_Suc_conv_app_nth)
  show ?thesis
  proof (cases "i = m")
    case True
    with n split show ?thesis by simp
  next
    case False
    then have i: "i < length (take m xs)" using assms n by simp
    have "take (n - 1) (xs[i := xs ! (n - 1)]) = (take m xs)[i := xs ! m]"
      using n by (simp add: take_update_swap)
    moreover have "mset ((take m xs)[i := xs ! m]) = add_mset (xs ! m) (mset (take m xs) - {#xs ! i#})"
      using mset_update [OF i, of "xs ! m"] i by simp
    moreover have "xs ! i \<in># mset (take m xs)"
      using i by (metis nth_mem nth_take set_mset_mset length_take min_less_iff_conj)
    ultimately show ?thesis using split by (simp add: insert_DiffM add_mset_commute [of "xs ! i"])
  qed
qed

section \<open>Searches\<close>

lemma nodes_nth: "i < node_cache_pos s \<Longrightarrow> nodes s ! i = node_cache s ! i"
  by (simp add: nodes_def)

lemma nodes_mem: "node_ok s \<Longrightarrow> i < node_cache_pos s \<Longrightarrow> node_cache s ! i \<in> set (nodes s)"
  by (metis length_nodes nodes_nth nth_mem)

text \<open>Ids are unique, so the search by id finds exactly the entry it is asked for.\<close>

lemma find_by_id_at:
  assumes "node_ok s" "i < node_cache_pos s"
  shows "node_cache_find_by_id (item_id (node_cache s ! i)) s = int i"
proof -
  have d: "distinct (map item_id (nodes s))" using assms(1) by (simp add: node_ok_def nodes_ok_def)
  have len: "length (nodes s) = node_cache_pos s" using assms(1) by (rule length_nodes)
  have "first_index (\<lambda>e. item_id e = item_id (node_cache s ! i)) (nodes s) = Some i"
  proof (rule first_index_SomeI)
    show "i < length (nodes s)" using assms(2) len by simp
    show "item_id (nodes s ! i) = item_id (node_cache s ! i)" using assms(2) by (simp add: nodes_nth)
    fix j assume "j < i"
    then show "item_id (nodes s ! j) \<noteq> item_id (node_cache s ! i)"
      using d assms(2) len nth_eq_iff_index_eq [OF d, of j i] by (simp add: nodes_nth)
  qed
  then show ?thesis by (simp add: node_cache_find_by_id_def)
qed

lemma find_by_id_found:
  assumes "node_ok s" "0 \<le> node_cache_find_by_id n s"
  shows "nat (node_cache_find_by_id n s) < node_cache_pos s"
    "item_id (node_cache s ! nat (node_cache_find_by_id n s)) = n"
proof -
  obtain i where i: "first_index (\<lambda>e. item_id e = n) (nodes s) = Some i"
    using assms(2) by (cases "first_index (\<lambda>e. item_id e = n) (nodes s)") (auto simp: node_cache_find_by_id_def)
  note D = first_index_SomeD [OF i] length_nodes [OF assms(1)]
  with i show "nat (node_cache_find_by_id n s) < node_cache_pos s"
    "item_id (node_cache s ! nat (node_cache_find_by_id n s)) = n"
    by (auto simp: node_cache_find_by_id_def nodes_nth)
qed

lemma find_by_sock_found:
  assumes "node_ok s" "0 \<le> node_cache_find_by_sock k s"
  shows "nat (node_cache_find_by_sock k s) < node_cache_pos s"
    "item_sock (node_cache s ! nat (node_cache_find_by_sock k s)) = k"
proof -
  obtain i where i: "first_index (\<lambda>e. item_sock e = k) (nodes s) = Some i"
    using assms(2) by (cases "first_index (\<lambda>e. item_sock e = k) (nodes s)") (auto simp: node_cache_find_by_sock_def)
  note D = first_index_SomeD [OF i] length_nodes [OF assms(1)]
  with i show "nat (node_cache_find_by_sock k s) < node_cache_pos s"
    "item_sock (node_cache s ! nat (node_cache_find_by_sock k s)) = k"
    by (auto simp: node_cache_find_by_sock_def nodes_nth)
qed

section \<open>Destroying a node\<close>

lemma entry_okE:
  assumes "node_ok s" "i < node_cache_pos s"
  obtains b intf c where "item_inf (node_cache s ! i) = Some (NodeIntf b)" "b < length (gb_interface_slab s)"
    "gb_interface_slab s ! b = Some intf" "intf_id intf = item_id (node_cache s ! i)"
    "intf_write intf = Node_inf_write" "intf_create_connection intf = Node_intf_create_connection"
    "intf_destroy_connection intf = Node_intf_destroy_connection"
    "ctrl_data intf = Some c" "c < length (node_control_data_slab s)"
    "node_control_data_slab s ! c = Some (item_sock (node_cache s ! i))"
    "entry_ctrl (gb_interface_slab s) (node_cache s ! i) = Some c"
proof -
  have "entry_ok (gb_interface_slab s) (node_control_data_slab s) (node_cache s ! i)"
    using assms nodes_mem [OF assms] by (simp add: node_ok_def nodes_ok_def)
  then show ?thesis using that by (fastforce simp: entry_ok_def entry_ctrl_def)
qed

text \<open>The state after the node at position \<open>i\<close> is gone.\<close>

definition node_removed :: "'w zephyr \<Rightarrow> nat \<Rightarrow> nat \<Rightarrow> nat \<Rightarrow> ('w, 'a) ns \<Rightarrow> ('w, 'a) ns" where
  "node_removed z i b c s =
     s\<lparr>world := (let sk = item_sock (node_cache s ! i) in
                 if 0 \<le> sk then zsock_close z sk (world s) else world s),
       gb_interface_slab := (gb_interface_slab s)[b := None],
       node_cache := (node_cache s)[i := node_cache s ! (node_cache_pos s - 1)],
       node_cache_pos := node_cache_pos s - 1,
       node_control_data_slab := (node_control_data_slab s)[c := None]\<rparr>"

lemma node_cache_remove_at_eq:
  assumes "node_ok s" "i < node_cache_pos s"
  shows "node_cache_remove_at i s =
    Inr (s\<lparr>node_cache := (node_cache s)[i := node_cache s ! (node_cache_pos s - 1)],
           node_cache_pos := node_cache_pos s - 1\<rparr>)"
proof -
  have b: "node_cache_pos s \<le> 32" "length (node_cache s) = 32"
    using assms(1) by (simp_all add: node_ok_def MAX_GREYBUS_NODES_def)
  then have "size_sub (node_cache_pos s) 1 = node_cache_pos s - 1"
    using assms(2) by (intro size_sub_exact) auto
  moreover have "i = node_cache_pos s - 1 \<Longrightarrow> (node_cache s)[i := node_cache s ! (node_cache_pos s - 1)] = node_cache s"
    by simp
  ultimately show ?thesis using assms(2) b by (auto simp: node_cache_remove_at_def Let_def)
qed

lemma node_ok_removed:
  assumes "node_ok s" "i < node_cache_pos s" "item_inf (node_cache s ! i) = Some (NodeIntf b)"
    and "entry_ctrl (gb_interface_slab s) (node_cache s ! i) = Some c"
  shows "node_ok (node_removed z i b c s)"
    and "mset (nodes s) = add_mset (node_cache s ! i) (mset (nodes (node_removed z i b c s)))"
proof -
  let ?t = "node_removed z i b c s"
  show m: "mset (nodes s) = add_mset (node_cache s ! i) (mset (nodes ?t))"
    using swap_remove_mset [of i "node_cache_pos s" "node_cache s"] assms(1,2)
    by (simp add: nodes_def node_removed_def node_ok_def)
  have "nodes_ok (nodes ?t) (gb_interface_slab ?t) (node_control_data_slab ?t)"
    using nodes_ok_remove [OF _ m assms(3,4)] assms(1) by (simp add: node_ok_def node_removed_def)
  then show "node_ok ?t" using assms(1) by (auto simp: node_ok_def node_removed_def)
qed

lemma node_destroy_interface_eq:
  assumes "node_ok s" "i < node_cache_pos s"
  obtains b c where "item_inf (node_cache s ! i) = Some (NodeIntf b)"
    "entry_ctrl (gb_interface_slab s) (node_cache s ! i) = Some c"
    "node_destroy_interface z (item_inf (node_cache s ! i)) s = Inr (node_removed z i b c s)"
proof -
  from entry_okE [OF assms] obtain b intf c where e: "item_inf (node_cache s ! i) = Some (NodeIntf b)"
    "b < length (gb_interface_slab s)" "gb_interface_slab s ! b = Some intf"
    "intf_id intf = item_id (node_cache s ! i)" "ctrl_data intf = Some c"
    "c < length (node_control_data_slab s)" "node_control_data_slab s ! c = Some (item_sock (node_cache s ! i))"
    "entry_ctrl (gb_interface_slab s) (node_cache s ! i) = Some c" by metis
  define t where "t = (let sk = item_sock (node_cache s ! i) in
     if 0 \<le> sk then s\<lparr>world := zsock_close z sk (world s)\<rparr> else s)"
  have t: "node_ok t" "node_cache_pos t = node_cache_pos s" "node_cache t = node_cache s"
    "gb_interface_slab t = gb_interface_slab s" "node_control_data_slab t = node_control_data_slab s"
    using assms(1) by (auto simp: t_def Let_def intro: node_ok_cong)
  have f: "node_cache_find_by_id (item_id (node_cache s ! i)) t = int i"
    using find_by_id_at [OF t(1)] t assms(2) by simp
  have d: "intf_deref (NodeIntf b) s = Inr intf" "ctrl_get c s = Inr (item_sock (node_cache s ! i))"
    using e by (simp_all add: intf_deref_def ctrl_get_def)
  have "node_destroy_interface z (item_inf (node_cache s ! i)) s =
      bnd (node_cache_remove_by_id (intf_id intf) t) (\<lambda>(ret, s).
        bnd (ctrl_free c s) (gb_interface_dealloc (NodeIntf b)))"
    using e d by (simp add: node_destroy_interface_def t_def)
  also have "\<dots> = Inr (node_removed z i b c s)"
    using f node_cache_remove_at_eq [OF t(1)] t assms(2) e
    by (auto intro!: node_state.equality simp: node_cache_remove_by_id_def ctrl_free_def
        gb_interface_dealloc_def node_removed_def t_def Let_def)
  finally show ?thesis using that e by blast
qed

section \<open>Destroying all nodes\<close>

text \<open>
  Each round of the loop removes one node and moves the last node into its place, but the index
  moves on past it: from index \<open>i\<close> half of the remaining nodes, rounded up, are destroyed.
\<close>

lemma node_destroy_loop_eq:
  "node_ok s \<Longrightarrow> node_cache_pos s \<le> n + i \<Longrightarrow>
     \<exists>t. node_destroy_loop z n i s = Inr t \<and> node_ok t \<and>
       node_cache_pos t = node_cache_pos s - (node_cache_pos s - i + 1) div 2"
proof (induction n arbitrary: i s)
  case 0
  then show ?case by auto
next
  case (Suc n)
  show ?case
  proof (cases "i < node_cache_pos s")
    case True
    obtain b c where d: "item_inf (node_cache s ! i) = Some (NodeIntf b)"
      "entry_ctrl (gb_interface_slab s) (node_cache s ! i) = Some c"
      "node_destroy_interface z (item_inf (node_cache s ! i)) s = Inr (node_removed z i b c s)"
      by (rule node_destroy_interface_eq [OF Suc.prems(1) True])
    let ?u = "node_removed z i b c s"
    have u: "node_ok ?u" by (rule node_ok_removed [OF Suc.prems(1) True d(1,2)])
    have pos: "node_cache_pos ?u = node_cache_pos s - 1" by (simp add: node_removed_def)
    have le: "node_cache_pos ?u \<le> n + Suc i" using Suc.prems(2) unfolding pos by linarith
    obtain t where t: "node_destroy_loop z n (Suc i) ?u = Inr t" "node_ok t"
      "node_cache_pos t = node_cache_pos ?u - (node_cache_pos ?u - Suc i + 1) div 2"
      using Suc.IH [OF u le] by blast
    moreover have "node_cache_pos ?u - (node_cache_pos ?u - Suc i + 1) div 2 =
        node_cache_pos s - (node_cache_pos s - i + 1) div 2"
    proof (cases "Suc i < node_cache_pos s")
      case True
      then obtain k where "node_cache_pos s = Suc (Suc (i + k))" by (metis less_iff_Suc_add add_Suc)
      then show ?thesis using pos by simp
    next
      case False
      with \<open>i < node_cache_pos s\<close> have "node_cache_pos s = Suc i" by simp
      then show ?thesis using pos by simp
    qed
    ultimately show ?thesis using True d(3) by auto
  next
    case False
    then show ?thesis using Suc.prems(1) by auto
  qed
qed

lemma ctrl_used_iff:
  assumes "node_ok s"
  shows "True \<in> set (slab_used (node_control_data_slab s)) \<longleftrightarrow> node_cache_pos s \<noteq> 0"
proof
  assume "True \<in> set (slab_used (node_control_data_slab s))"
  then obtain c where "c < length (node_control_data_slab s)" "node_control_data_slab s ! c \<noteq> None"
    by (auto simp: slab_used_def in_set_conv_nth)
  then have "nodes s \<noteq> []" using assms by (auto simp: node_ok_def nodes_ok_def)
  then show "node_cache_pos s \<noteq> 0" by (auto simp: nodes_def)
next
  assume "node_cache_pos s \<noteq> 0"
  then have "0 < node_cache_pos s" by simp
  from entry_okE [OF assms this] obtain c where "c < length (node_control_data_slab s)"
    "node_control_data_slab s ! c = Some (item_sock (node_cache s ! 0))" by metis
  then show "True \<in> set (slab_used (node_control_data_slab s))"
    by (auto simp: slab_used_def in_set_conv_nth intro!: exI [of _ c])
qed

definition sample_nodes :: "sample_world node_state" where
  "sample_nodes = gb_state.extend sample_gs
     \<lparr>interface_id_counter = 5,
      gb_interface_slab = map (\<lambda>b. if b < 2 then Some \<lparr>intf_id = of_nat (3 + b), intf_write = Node_inf_write,
        intf_create_connection = Node_intf_create_connection,
        intf_destroy_connection = Node_intf_destroy_connection, ctrl_data = Some b\<rparr> else None) [0..<10],
      svc_is_read_flag = True,
      node_ap_map = \<lparr>node_intf = Some SvcIntf, node_cport = 0, node_id = 0\<rparr> # replicate 31 empty_item,
      node_cache = map (\<lambda>k. \<lparr>item_sock = -1, item_id = of_nat (3 + k), item_addr = [of_nat k],
        item_inf = Some (NodeIntf k), fail_count = 0\<rparr>) [0..<32],
      node_cache_pos = 2,
      node_control_data_slab = map (\<lambda>c. if c < 2 then Some (-1) else None) [0..<32],
      local_pipe_writer = 0\<rparr>"

lemma sample_nodes_ok: "node_ok sample_nodes"
proof -
  have n: "nodes sample_nodes = [\<lparr>item_sock = -1, item_id = 3, item_addr = [0], item_inf = Some (NodeIntf 0), fail_count = 0\<rparr>,
      \<lparr>item_sock = -1, item_id = 4, item_addr = [1], item_inf = Some (NodeIntf 1), fail_count = 0\<rparr>]"
    by (simp add: nodes_def sample_nodes_def gb_state.defs upt_rec)
  have c: "c < 2" if "c < 32" "node_control_data_slab sample_nodes ! c \<noteq> None" for c
    using that by (auto simp: sample_nodes_def gb_state.defs split: if_splits)
  have two: "c = 0 \<or> c = 1" if "c < 2" for c :: nat using that by linarith
  show ?thesis
    unfolding node_ok_def nodes_ok_def n
    using c by (auto simp: sample_nodes_def gb_state.defs entry_ok_def entry_ctrl_def
        MAX_GREYBUS_NODES_def MAX_GREYBUS_INTERFACES_def dest!: two)
qed

text \<open>
  \<open>node_destroy_all\<close> does its job only for at most one node.  From any consistent state with
  two or more nodes the loop skips every other node, half of them (rounded down) keep their control
  data and interface, and the assertion at the end of the function fails.
\<close>

lemma node_destroy_all_two_nodes_fails:
  assumes "node_ok s"
  shows "node_destroy_all z s = Inl AssertionFailed \<longleftrightarrow> 2 \<le> node_cache_pos s"
proof -
  obtain t where t: "node_destroy_loop z (node_cache_pos s) 0 s = Inr t" "node_ok t"
    "node_cache_pos t = node_cache_pos s - (node_cache_pos s + 1) div 2"
    using node_destroy_loop_eq [OF assms, of "node_cache_pos s" 0 z] by auto
  have "node_cache_pos t \<noteq> 0 \<longleftrightarrow> 2 \<le> node_cache_pos s" unfolding t(3) by presburger
  with t show ?thesis
    by (simp add: node_destroy_all_def ctrl_used_iff [OF t(2)])
qed

lemma node_destroy_all_two_nodes_fails_witness:
  "node_destroy_all sample_zephyr sample_nodes = Inl AssertionFailed \<longleftrightarrow> 2 \<le> node_cache_pos sample_nodes"
  by (rule node_destroy_all_two_nodes_fails) (rule sample_nodes_ok)

end
