(* ===== verification/Node.thy ===== *)
theory Node
  imports Node_Cache
begin

text \<open>
  The TCP side of a remote node (the second half of src/node.c): reading and writing a stream socket
  until a whole message has gone through, connecting, and what happens when the peer goes away.
  \<open>svc_send_module_removed\<close> of src/svc.c is here because it destroys a node's interface.
\<close>

definition GB_TRANSPORT_TCPIP_BASE_PORT :: u16 where "GB_TRANSPORT_TCPIP_BASE_PORT = 4242"

section \<open>Whole-buffer reads and writes\<close>

text \<open>
  The loops of \<open>write_data\<close> and \<open>read_data\<close>.  They end only if every call makes progress, so not
  ending is a possible outcome of the model: \<open>None\<close>.
\<close>

partial_function (option) write_loop ::
  "'w zephyr \<Rightarrow> int \<Rightarrow> byte list \<Rightarrow> nat \<Rightarrow> 'w \<Rightarrow> (int \<times> 'w) option" where
  "write_loop z sock data transmitted w =
     (if transmitted < length data
      then let (ret, w') = zsock_send z sock (drop transmitted data) w in
           if ret < 0 then Some (ret, w') else write_loop z sock data (transmitted + nat ret) w'
      else Some (int transmitted, w))"

partial_function (option) read_loop ::
  "'w zephyr \<Rightarrow> int \<Rightarrow> nat \<Rightarrow> byte list \<Rightarrow> 'w \<Rightarrow> (int \<times> byte list \<times> 'w) option" where
  "read_loop z sock len received w =
     (if length received < len
      then let (ret, bs, w') = zsock_recv z sock (len - length received) w in
           if ret \<le> 0 then Some (ret, received, w') else read_loop z sock len (received @ bs) w'
      else Some (int (length received), received, w))"

definition write_data ::
  "'w zephyr \<Rightarrow> int \<Rightarrow> byte list \<Rightarrow> nat \<Rightarrow> ('w, 'a) platform_scheme \<Rightarrow> (int \<times> ('w, 'a) platform_scheme) res" where
  "write_data z sock data len s =
     (if length data < len then Inl OutOfBounds
      else case write_loop z sock (take len data) 0 (world s) of
             None \<Rightarrow> Inl Diverges
           | Some (ret, w) \<Rightarrow> Inr (ret, s\<lparr>world := w\<rparr>))"

text \<open>\<open>read_data\<close> also returns what it put into the caller's buffer.\<close>

definition read_data ::
  "'w zephyr \<Rightarrow> int \<Rightarrow> nat \<Rightarrow> ('w, 'a) platform_scheme \<Rightarrow>
     (int \<times> byte list \<times> ('w, 'a) platform_scheme) res" where
  "read_data z sock len s =
     (case read_loop z sock len [] (world s) of
        None \<Rightarrow> Inl Diverges
      | Some (ret, bs, w) \<Rightarrow> Inr (ret, bs, s\<lparr>world := w\<rparr>))"

section \<open>Receiving a message\<close>

text \<open>
  \<open>gb_message_receive\<close> returns a CPort and a message or \<open>NULL\<close>; \<open>flag\<close> is passed in and out, and the
  paths that do not assign it leave it as it was.  \<open>receive_failed\<close> is the label \<open>early_exit\<close>.
\<close>

definition receive_failed :: "bool \<Rightarrow> ('w, 'a) gs \<Rightarrow> ((u16 \<times> nat option) \<times> bool \<times> ('w, 'a) gs) res" where
  "receive_failed flag s = Inr ((0, None), flag, s)"

definition gb_message_receive ::
  "'w zephyr \<Rightarrow> int \<Rightarrow> bool \<Rightarrow> ('w, 'a) gs \<Rightarrow> ((u16 \<times> nat option) \<times> bool \<times> ('w, 'a) gs) res" where
  "gb_message_receive z sock flag s =
     bnd (read_data z sock 2 s) (\<lambda>(ret, cp, s).
     if ret \<noteq> 2 then receive_failed (ret = 0) s
     else
       bnd (read_data z sock hdr_len s) (\<lambda>(ret, hb, s).
       if ret \<noteq> int hdr_len then receive_failed (ret = 0) s
       else
         let hdr = hdr_of_bytes hb in
         bnd (gb_message_alloc z (gb_hdr_payload_len hdr) (hdr_type hdr) (hdr_operation_id hdr)
                (hdr_result hdr) s) (\<lambda>(msg, s).
         case msg of
           None \<Rightarrow> receive_failed flag s
         | Some p \<Rightarrow>
             bnd (msg_get p s) (\<lambda>m.
             bnd (read_data z sock (gb_message_payload_len m) s) (\<lambda>(ret, bs, s).
             bnd (msg_payload_write p bs s) (\<lambda>s.
             if ret \<noteq> int (gb_message_payload_len m)
             then bnd (gb_message_dealloc z p s) (receive_failed (ret = 0))
             else Inr ((le16_of (cp ! 0) (cp ! 1), Some p), flag, s)))))))"

section \<open>Removing a node\<close>

definition svc_send_module_removed ::
  "'w zephyr \<Rightarrow> intf_ptr option \<Rightarrow> ('w, 'a) ns \<Rightarrow> (int \<times> ('w, 'a) ns) res" where
  "svc_send_module_removed z intf s =
     (case intf of
        None \<Rightarrow> Inl NullDeref
      | Some p \<Rightarrow>
          bnd (intf_deref p s) (\<lambda>i.
          bnd (control_send_request z (gb_svc_module_removed_request (intf_id i))
                 GB_SVC_TYPE_MODULE_REMOVED s) (\<lambda>(ret, s).
          if ret < 0 then Inr (ret, s)
          else bnd (node_destroy_interface z (Some p) s) (\<lambda>s. Inr (ret, s)))))"

definition svc_send_module_removed_by_sock ::
  "'w zephyr \<Rightarrow> int \<Rightarrow> ('w, 'a) ns \<Rightarrow> ('w, 'a) ns res" where
  "svc_send_module_removed_by_sock z sock s =
     (let ret = node_cache_find_by_sock sock s in
      if ret < 0 then Inr s
      else bnd (svc_send_module_removed z (item_inf (node_cache s ! nat ret)) s) (\<lambda>(r, s). Inr s))"

section \<open>Sending a message\<close>

definition send_failed :: "'w zephyr \<Rightarrow> int \<Rightarrow> int \<Rightarrow> ('w, 'a) ns \<Rightarrow> (int \<times> ('w, 'a) ns) res" where
  "send_failed z sock ret s = bnd (svc_send_module_removed_by_sock z sock s) (\<lambda>s. Inr (ret, s))"

definition gb_message_send ::
  "'w zephyr \<Rightarrow> int \<Rightarrow> nat \<Rightarrow> u16 \<Rightarrow> ('w, 'a) ns \<Rightarrow> (int \<times> ('w, 'a) ns) res" where
  "gb_message_send z sock msg cport s =
     bnd (write_data z sock (le16 cport) 2 s) (\<lambda>(ret, s).
     if ret \<noteq> 2 then send_failed z sock ret s
     else
       bnd (msg_get msg s) (\<lambda>m.
       bnd (write_data z sock (hdr_bytes (header m)) hdr_len s) (\<lambda>(ret, s).
       if ret \<noteq> int hdr_len then send_failed z sock ret s
       else
         bnd (write_data z sock (payload m) (gb_message_payload_len m) s) (\<lambda>(ret, s).
         if ret \<noteq> int (gb_message_payload_len m) then send_failed z sock ret s
         else Inr (0, s)))))"

definition pipe_send :: "'w zephyr \<Rightarrow> ('w, 'a) ns \<Rightarrow> ('w, 'a) ns" where
  "pipe_send z s = s\<lparr>world := snd (zsock_send z (local_pipe_writer s) [0] (world s))\<rparr>"

definition connect_to_node ::
  "'w zephyr \<Rightarrow> bool \<Rightarrow> byte list \<Rightarrow> u16 \<Rightarrow> ('w, 'a) platform_scheme \<Rightarrow> int \<times> ('w, 'a) platform_scheme" where
  "connect_to_node z inet6 addr port s =
     (let (sock, w) = zsock_socket z inet6 (world s);
          s = s\<lparr>world := w\<rparr>
      in if sock < 0 then (sock, s)
         else let (ret, w) = zsock_connect z sock addr port (world s);
                  s = s\<lparr>world := w\<rparr>
              in if ret \<noteq> 0 then (ret, s\<lparr>world := zsock_close z sock (world s)\<rparr>) else (sock, s))"

definition node_intf_create_connection ::
  "'w zephyr \<Rightarrow> gb_interface \<Rightarrow> u16 \<Rightarrow> ('w, 'a) ns \<Rightarrow> (int \<times> ('w, 'a) ns) res" where
  "node_intf_create_connection z ctrl cport_id s =
     (if cport_id \<noteq> 0 then Inr (0, s)
      else case ctrl_data ctrl of
             None \<Rightarrow> Inl NullDeref
           | Some c \<Rightarrow>
               bnd (ctrl_get c s) (\<lambda>sk.
               if 0 \<le> sk then Inr (sk, s)
               else
                 let ret = node_cache_find_by_id (intf_id ctrl) s in
                 if ret < 0 then Inr (- EINVAL, s)
                 else
                   let (sock, s) = connect_to_node z True (item_addr (node_cache s ! nat ret))
                                     GB_TRANSPORT_TCPIP_BASE_PORT s in
                   if sock < 0 then Inr (sock, s)
                   else
                     let s = s\<lparr>node_cache := (node_cache s)[nat ret := (node_cache s ! nat ret)\<lparr>item_sock := sock\<rparr>]\<rparr>;
                         s = ctrl_set c sock s
                     in Inr (sock, pipe_send z s)))"

definition node_intf_destroy_connection :: "gb_interface \<Rightarrow> u16 \<Rightarrow> ('w, 'a) ns \<Rightarrow> ('w, 'a) ns" where
  "node_intf_destroy_connection ctrl cport_id s = s"

definition node_inf_write ::
  "'w zephyr \<Rightarrow> intf_ptr \<Rightarrow> nat \<Rightarrow> u16 \<Rightarrow> ('w, 'a) ns \<Rightarrow> (int \<times> ('w, 'a) ns) res" where
  "node_inf_write z ctrl msg cport_id s =
     bnd (intf_deref ctrl s) (\<lambda>i.
       case ctrl_data i of
         None \<Rightarrow> Inl NullDeref
       | Some c \<Rightarrow>
           bnd (ctrl_get c s) (\<lambda>sk.
           bnd (gb_message_send z sk msg cport_id s) (\<lambda>(ret, s).
           bnd (if ret < 0 then svc_send_module_removed z (Some ctrl) s else Inr (0, s)) (\<lambda>(r, s).
           bnd (gb_message_dealloc z msg s) (\<lambda>s. Inr (ret, s))))))"

section \<open>Discovery\<close>

definition node_filter_step :: "'w zephyr \<Rightarrow> byte list \<Rightarrow> ('w, 'a) ns \<Rightarrow> ('w, 'a) ns res" where
  "node_filter_step z addr s =
     (if node_cache_find_by_addr addr s < 0
      then bnd (node_create_interface z addr s) (\<lambda>(intf, s).
             case intf of
               None \<Rightarrow> Inr s
             | Some p \<Rightarrow> bnd (intf_deref p s) (\<lambda>i.
                 bnd (svc_send_module_inserted z (intf_id i) s) (\<lambda>(r, s). Inr s)))
      else Inr s)"

definition node_filter :: "'w zephyr \<Rightarrow> byte list list \<Rightarrow> ('w, 'a) ns \<Rightarrow> ('w, 'a) ns res" where
  "node_filter z active_addr s = foldres (node_filter_step z) active_addr s"

section \<open>The loops end\<close>

lemma send_documentedD:
  assumes "send_documented z" "bs \<noteq> []" "zsock_send z sock bs w = (r, w')"
  shows "r < 0 \<or> (0 < r \<and> r \<le> int (length bs))"
  using assms unfolding send_documented_def by (metis fst_conv)

lemma write_loop_total:
  assumes "send_documented z" "k \<le> length data"
  shows "\<exists>r w'. write_loop z sock data k w = Some (r, w') \<and> (r < 0 \<or> r = int (length data))"
  using assms(2)
proof (induction "length data - k" arbitrary: k w rule: less_induct)
  case less
  obtain r w' where send: "zsock_send z sock (drop k data) w = (r, w')" by fastforce
  show ?case
  proof (cases "k < length data \<and> 0 \<le> r")
    case True
    then have "0 < r \<and> r \<le> int (length (drop k data))"
      using send_documentedD [OF assms(1) _ send] by auto
    then have "length data - (k + nat r) < length data - k" "k + nat r \<le> length data" using True by auto
    from less.hyps [OF this, of w'] True send show ?thesis
      by (simp add: write_loop.simps [of z sock data k w])
  next
    case False
    with send less.prems show ?thesis by (auto simp: write_loop.simps [of z sock data k w])
  qed
qed

lemma read_loop_total:
  assumes "recv_documented z" "length bs \<le> len"
  shows "\<exists>r bs' w'. read_loop z sock len bs w = Some (r, bs', w') \<and> length bs' \<le> len \<and>
    (r \<le> 0 \<or> r = int len) \<and> (r = int len \<longrightarrow> 0 < len \<longrightarrow> length bs' = len)"
  using assms(2)
proof (induction "len - length bs" arbitrary: bs w rule: less_induct)
  case less
  obtain r xs w' where recv: "zsock_recv z sock (len - length bs) w = (r, xs, w')" by (metis prod_cases3)
  show ?case
  proof (cases "length bs < len \<and> 0 < r")
    case True
    then have "length xs = nat r" "r \<le> int (len - length bs)"
      using assms(1) recv unfolding recv_documented_def by (metis less_imp_le, metis)
    then have "len - length (bs @ xs) < len - length bs" "length (bs @ xs) \<le> len" using True by auto
    from less.hyps [OF this, of w'] True recv show ?thesis
      by (simp add: read_loop.simps [of z sock len bs w])
  next
    case False
    with recv less.prems show ?thesis by (auto simp: read_loop.simps [of z sock len bs w])
  qed
qed

section \<open>Streams\<close>

text \<open>
  What a connected stream socket does, in terms of the bytes \<open>avail\<close> the peer has sent and not yet
  been read: a receive hands over some of them, in order, at least one unless the peer has closed
  and nothing is left, cut at arbitrary places.  A send takes some prefix of what it is given.  The
  heap is not the network.
\<close>

definition recv_stream :: "'w zephyr \<Rightarrow> int \<Rightarrow> ('w \<Rightarrow> byte list) \<Rightarrow> bool" where
  "recv_stream z sock avail \<longleftrightarrow>
     (\<forall>n w r bs w'. 0 < n \<longrightarrow> zsock_recv z sock n w = (r, bs, w') \<longrightarrow>
        r = int (length bs) \<and> length bs \<le> n \<and> avail w = bs @ avail w' \<and> (avail w \<noteq> [] \<longrightarrow> bs \<noteq> [])) \<and>
     (\<forall>n w. avail (snd (k_heap_alloc z n w)) = avail w)"

definition send_stream :: "'w zephyr \<Rightarrow> int \<Rightarrow> ('w \<Rightarrow> byte list) \<Rightarrow> bool" where
  "send_stream z sock sent \<longleftrightarrow>
     (\<forall>bs w r w'. bs \<noteq> [] \<longrightarrow> zsock_send z sock bs w = (r, w') \<longrightarrow>
        0 < r \<and> r \<le> int (length bs) \<and> sent w' = sent w @ take (nat r) bs)"

lemma recv_streamD:
  assumes "recv_stream z sock avail" "0 < n" "zsock_recv z sock n w = (r, bs, w')"
  shows "r = int (length bs)" "length bs \<le> n" "avail w = bs @ avail w'" "avail w \<noteq> [] \<Longrightarrow> bs \<noteq> []"
  using assms unfolding recv_stream_def by blast+

lemma recv_stream_alloc:
  "recv_stream z sock avail \<Longrightarrow> k_heap_alloc z n w = (b, w') \<Longrightarrow> avail w' = avail w"
  unfolding recv_stream_def by (metis snd_conv)

text \<open>Whatever the chunks, the loop reads the next \<open>len\<close> bytes, or all there are.\<close>

lemma read_loop_stream:
  assumes "recv_stream z sock avail" "length got \<le> len"
  shows "\<exists>w'. read_loop z sock len got w =
      Some (if len - length got \<le> length (avail w) then int len else 0,
            got @ take (len - length got) (avail w), w') \<and>
    avail w' = drop (len - length got) (avail w)"
  using assms(2)
proof (induction "len - length got" arbitrary: got w rule: less_induct)
  case less
  obtain r xs w' where recv: "zsock_recv z sock (len - length got) w = (r, xs, w')" by (metis prod_cases3)
  show ?case
  proof (cases "length got < len")
    case True
    then have "0 < len - length got" by simp
    note d = recv_streamD [OF assms(1) this recv]
    show ?thesis
    proof (cases "xs = []")
      case True
      then have "read_loop z sock len got w = Some (0, got, w')"
        using d(1) recv \<open>length got < len\<close> by (simp add: read_loop.simps [of z sock len got w])
      moreover have "avail w = []" using d(4) True by blast
      ultimately show ?thesis using d(3) True \<open>length got < len\<close> by auto
    next
      case False
      then have "len - length (got @ xs) < len - length got" "length (got @ xs) \<le> len"
        using d(2) True by (cases xs; simp)+
      from less.hyps [OF this, of w'] obtain v where
        v: "read_loop z sock len (got @ xs) w' =
          Some (if len - length (got @ xs) \<le> length (avail w') then int len else 0,
                (got @ xs) @ take (len - length (got @ xs)) (avail w'), v)"
        "avail v = drop (len - length (got @ xs)) (avail w')" by blast
      moreover have "read_loop z sock len got w = read_loop z sock len (got @ xs) w'"
        using True False recv d(1) by (simp add: read_loop.simps [of z sock len got w])
      moreover have "(len - length (got @ xs) \<le> length (avail w')) = (len - length got \<le> length (avail w))"
        using d(2,3) by auto
      ultimately show ?thesis using d(2,3) by (auto simp: diff_diff_left)
    qed
  next
    case False
    with less.prems show ?thesis by (simp add: read_loop.simps [of z sock len got w])
  qed
qed

lemma read_data_stream:
  assumes "recv_stream z sock avail"
  shows "\<exists>w'. read_data z sock len s = Inr (if len \<le> length (avail (world s)) then int len else 0,
      take len (avail (world s)), s\<lparr>world := w'\<rparr>) \<and> avail w' = drop len (avail (world s))"
  using read_loop_stream [OF assms, of "[]" len "world s"] by (auto simp: read_data_def)

lemma write_loop_stream:
  assumes "send_stream z sock sent" "k \<le> length data"
  shows "\<exists>w'. write_loop z sock data k w = Some (int (length data), w') \<and> sent w' = sent w @ drop k data"
  using assms(2)
proof (induction "length data - k" arbitrary: k w rule: less_induct)
  case less
  obtain r w' where send: "zsock_send z sock (drop k data) w = (r, w')" by fastforce
  show ?case
  proof (cases "k < length data")
    case True
    then have d: "0 < r" "r \<le> int (length (drop k data))" "sent w' = sent w @ take (nat r) (drop k data)"
      using assms(1) send unfolding send_stream_def by (metis drop_eq_Nil2 leD)+
    then have "length data - (k + nat r) < length data - k" "k + nat r \<le> length data" using True by auto
    from less.hyps [OF this, of w'] obtain v where
      "write_loop z sock data (k + nat r) w' = Some (int (length data), v)"
      "sent v = sent w' @ drop (k + nat r) data" by blast
    moreover have "take (nat r) (drop k data) @ drop (k + nat r) data = drop k data"
      by (metis append_take_drop_id drop_drop add.commute)
    ultimately show ?thesis using True d send by (simp add: write_loop.simps [of z sock data k w])
  next
    case False
    then have "write_loop z sock data k w = Some (int k, w)" by (simp add: write_loop.simps [of z sock data k w])
    with False less.prems show ?thesis by auto
  qed
qed

lemma write_data_stream:
  assumes "send_stream z sock sent" "len \<le> length data"
  shows "\<exists>w'. write_data z sock data len s = Inr (int len, s\<lparr>world := w'\<rparr>) \<and>
    sent w' = sent (world s) @ take len data"
  using write_loop_stream [OF assms(1), of 0 "take len data" "world s"] assms(2)
  by (auto simp: write_data_def)

section \<open>Messages over TCP\<close>

lemma wf_msg_size: "wf_msg m \<Longrightarrow> hdr_len + length (payload m) < 65536"
  unfolding wf_msg_def by (metis unat_u16_bound)

lemma gb_message_receive_stream:
  assumes "heap_documented z" "recv_stream z sock avail" "wf_msg m"
    and room: "heap_room z (hdr_len + length (payload m))"
    and wire: "avail (world s) = le16 cport @ msg_bytes m @ rest"
  shows "\<exists>pad w. gb_message_receive z sock flag s = Inr ((cport, Some (msg_next s)), flag,
      with_msg (m\<lparr>header := (header m)\<lparr>hdr_pad := pad\<rparr>\<rparr>) w s) \<and> avail w = rest"
proof -
  obtain w1 where r1: "read_data z sock 2 s = Inr (2, le16 cport, s\<lparr>world := w1\<rparr>)"
    "avail w1 = msg_bytes m @ rest"
    using read_data_stream [OF assms(2), of 2 s] wire by auto
  obtain w2 where r2: "read_data z sock hdr_len (s\<lparr>world := w1\<rparr>) = Inr (8, hdr_bytes (header m), s\<lparr>world := w2\<rparr>)"
    "avail w2 = payload m @ rest"
    using read_data_stream [OF assms(2), of hdr_len "s\<lparr>world := w1\<rparr>"] r1(2)
    by (auto simp: msg_bytes_def hdr_len_def)
  have n: "gb_hdr_payload_len (header m) = length (payload m)"
    using wf_msg_payload_len [OF assms(3)] by (simp add: gb_message_payload_len_def)
  obtain blk w3 where a: "k_heap_alloc z (hdr_len + length (payload m)) w2 = (Some blk, w3)" by (rule heap_roomE [OF room])
  let ?h = "header m"
  let ?m = "new_msg (length (payload m)) (hdr_type ?h) (hdr_operation_id ?h) (hdr_result ?h) blk"
  let ?s3 = "s\<lparr>world := w3, msg_heap := (msg_heap s)(msg_next s \<mapsto> ?m), msg_next := msg_next s + 1\<rparr>"
  have len: "gb_message_payload_len ?m = length (payload m)" "length (payload ?m) = length (payload m)"
    "hdr_size (header ?m) = hdr_size ?h"
    using wf_msg_size [OF assms(3)] assms(3) heap_block_length [OF assms(1) a]
    by (simp_all add: new_msg_def gb_message_payload_len_def gb_hdr_payload_len_def wf_msg_def
        unat_of_nat_u16 size_sub_exact word_unat_eq_iff del: of_nat_add)
  obtain w4 where r3: "read_data z sock (length (payload m)) ?s3 =
      Inr (int (length (payload m)), payload m, ?s3\<lparr>world := w4\<rparr>)" "avail w4 = rest"
    using read_data_stream [OF assms(2), of "length (payload m)" ?s3] recv_stream_alloc [OF assms(2) a] r2(2)
    by auto
  have m: "?m\<lparr>payload := payload m\<rparr> = m\<lparr>header := ?h\<lparr>hdr_pad := (blk ! 6, blk ! 7)\<rparr>\<rparr>"
    using len(3) by (simp add: new_msg_def)
  have "gb_message_receive z sock flag s = Inr ((cport, Some (msg_next s)), flag,
      with_msg (m\<lparr>header := ?h\<lparr>hdr_pad := (blk ! 6, blk ! 7)\<rparr>\<rparr>) w4 s)"
    using a r3 len(1,2) m
    by (simp add: gb_message_receive_def r1 r2 hdr_len_def [THEN arg_cong, of int] n
        gb_message_alloc_eq [OF assms(1) wf_msg_size [OF assms(3)]] msg_get_def msg_payload_write_def
        buf_write_def le16_def with_msg_def)
  then show ?thesis using r3(2) by blast
qed

lemma node_send_stream:
  assumes "send_stream z sock sent" "msg_heap s p = Some m" "wf_msg m"
  shows "\<exists>w. gb_message_send z sock p cport s = Inr (0, s\<lparr>world := w\<rparr>) \<and>
    sent w = sent (world s) @ le16 cport @ msg_bytes m"
proof -
  note w = write_data_stream [OF assms(1)]
  obtain w1 where w1: "write_data z sock (le16 cport) 2 s = Inr (2, s\<lparr>world := w1\<rparr>)" "sent w1 = sent (world s) @ le16 cport"
    using w [of 2 "le16 cport" s] by auto
  obtain w2 where w2: "write_data z sock (hdr_bytes (header m)) hdr_len (s\<lparr>world := w1\<rparr>) = Inr (8, s\<lparr>world := w2\<rparr>)"
    "sent w2 = sent w1 @ hdr_bytes (header m)"
    using w [of hdr_len "hdr_bytes (header m)" "s\<lparr>world := w1\<rparr>"] by (auto simp: hdr_len_def)
  obtain w3 where w3: "write_data z sock (payload m) (length (payload m)) (s\<lparr>world := w2\<rparr>) =
      Inr (int (length (payload m)), s\<lparr>world := w3\<rparr>)" "sent w3 = sent w2 @ payload m"
    using w [of "length (payload m)" "payload m" "s\<lparr>world := w2\<rparr>"] by auto
  have "gb_message_send z sock p cport s = Inr (0, s\<lparr>world := w3\<rparr>)"
    using assms(2) w3(1) wf_msg_payload_len [OF assms(3)]
    by (simp add: gb_message_send_def w1 w2 msg_get_def hdr_len_def [THEN arg_cong, of int])
  then show ?thesis using w1(2) w2(2) w3(2) by (auto simp: msg_bytes_def)
qed

text \<open>
  C9. A message sent to a node arrives: \<open>gb_message_send\<close> writes a live, consistent message to a
  stream socket however the socket cuts it up, and \<open>gb_message_receive\<close> on a socket that delivers
  these bytes, cut up in any other way, with whatever follows them, returns the same CPort and the
  same message (except for the two pad bytes of the header, which come from the receiver's heap),
  leaves the closed-by-peer flag alone and leaves the following bytes in the stream.
\<close>

theorem node_message_roundtrip:
  assumes "msg_heap s p = Some m" and "wf_msg m" and "send_stream z sock sent"
    and "heap_documented z'" and "recv_stream z' sock' avail"
    and "heap_room z' (hdr_len + length (payload m))"
  shows "\<exists>s' wire. gb_message_send z sock p cport s = Inr (0, s') \<and>
    sent (world s') = sent (world s) @ wire \<and> msg_heap s' = msg_heap s \<and>
    (avail (world t) = wire @ rest \<longrightarrow>
      (\<exists>pad t'. gb_message_receive z' sock' flag t = Inr ((cport, Some (msg_next t)), flag, t') \<and>
        msg_heap t' = (msg_heap t)(msg_next t \<mapsto> m\<lparr>header := (header m)\<lparr>hdr_pad := pad\<rparr>\<rparr>) \<and>
        avail (world t') = rest))"
proof -
  obtain w where w: "gb_message_send z sock p cport s = Inr (0, s\<lparr>world := w\<rparr>)"
    "sent w = sent (world s) @ le16 cport @ msg_bytes m"
    using node_send_stream [OF assms(3,1,2)] by blast
  have "\<exists>pad t'. gb_message_receive z' sock' flag t = Inr ((cport, Some (msg_next t)), flag, t') \<and>
        msg_heap t' = (msg_heap t)(msg_next t \<mapsto> m\<lparr>header := (header m)\<lparr>hdr_pad := pad\<rparr>\<rparr>) \<and>
        avail (world t') = rest" if "avail (world t) = (le16 cport @ msg_bytes m) @ rest"
  proof -
    obtain pad w' where "gb_message_receive z' sock' flag t = Inr ((cport, Some (msg_next t)), flag,
        with_msg (m\<lparr>header := (header m)\<lparr>hdr_pad := pad\<rparr>\<rparr>) w' t)" "avail w' = rest"
      using gb_message_receive_stream [OF assms(4,5,2,6), of t cport rest flag] \<open>avail (world t) = _\<close> by auto
    then show ?thesis by (intro exI [of _ pad] exI [of _ "with_msg _ w' t"]) simp
  qed
  with w show ?thesis by (intro exI [of _ "s\<lparr>world := w\<rparr>"] exI [of _ "le16 cport @ msg_bytes m"]) simp
qed

text \<open>A stream socket that sends three bytes at a time and receives five at a time.\<close>

definition chunky_zephyr :: "sample_world zephyr" where
  "chunky_zephyr = sample_zephyr\<lparr>
     zsock_send := (\<lambda>sock bs w. (int (length (take 3 bs)), (fst w @ take 3 bs, snd w))),
     zsock_recv := (\<lambda>sock n w. (int (length (take (min n 5) (snd w))), take (min n 5) (snd w),
       (fst w, drop (min n 5) (snd w))))\<rparr>"

lemma chunky_streams:
  "send_stream chunky_zephyr sock fst" "recv_stream chunky_zephyr sock snd" "heap_documented chunky_zephyr"
  "heap_room chunky_zephyr n"
  by (auto simp: send_stream_def recv_stream_def heap_documented_def heap_room_def chunky_zephyr_def min_def)

theorem node_message_roundtrip_witness:
  "\<exists>s' wire. gb_message_send chunky_zephyr 5 0 1 (sample_nodes\<lparr>msg_heap := [0 \<mapsto> sample_msg]\<rparr>) = Inr (0, s') \<and>
    fst (world s') = fst (world (sample_nodes\<lparr>msg_heap := [0 \<mapsto> sample_msg]\<rparr>)) @ wire \<and>
    msg_heap s' = msg_heap (sample_nodes\<lparr>msg_heap := [0 \<mapsto> sample_msg]\<rparr>) \<and>
    (snd (world (sample_gs\<lparr>world := ([], le16 1 @ msg_bytes sample_msg)\<rparr>)) = wire @ [] \<longrightarrow>
      (\<exists>pad t'. gb_message_receive chunky_zephyr 6 False (sample_gs\<lparr>world := ([], le16 1 @ msg_bytes sample_msg)\<rparr>) =
          Inr ((1, Some (msg_next (sample_gs\<lparr>world := ([], le16 1 @ msg_bytes sample_msg)\<rparr>))), False, t') \<and>
        msg_heap t' = (msg_heap (sample_gs\<lparr>world := ([], le16 1 @ msg_bytes sample_msg)\<rparr>))
          (msg_next (sample_gs\<lparr>world := ([], le16 1 @ msg_bytes sample_msg)\<rparr>) \<mapsto>
             sample_msg\<lparr>header := (header sample_msg)\<lparr>hdr_pad := pad\<rparr>\<rparr>) \<and>
        snd (world t') = []))"
  by (rule node_message_roundtrip)
    (simp_all add: chunky_streams, simp_all add: sample_msg_def wf_msg_def sent_msg_def hdr_len_def chunky_zephyr_def)

lemma gb_message_receive_short:
  assumes "heap_documented z" "recv_stream z sock avail" "wf_msg m" "heap_ok s"
    and room: "heap_room z (hdr_len + length (payload m))"
    and wire: "avail (world s) = le16 cport @ hdr_bytes (header m) @ take k (payload m)" "k < length (payload m)"
  shows "\<exists>s'. gb_message_receive z sock flag s = Inr ((0, None), True, s') \<and> msg_heap s' = msg_heap s"
proof -
  obtain w1 where r1: "read_data z sock 2 s = Inr (2, le16 cport, s\<lparr>world := w1\<rparr>)"
    "avail w1 = hdr_bytes (header m) @ take k (payload m)"
    using read_data_stream [OF assms(2), of 2 s] wire by auto
  obtain w2 where r2: "read_data z sock hdr_len (s\<lparr>world := w1\<rparr>) = Inr (8, hdr_bytes (header m), s\<lparr>world := w2\<rparr>)"
    "avail w2 = take k (payload m)"
    using read_data_stream [OF assms(2), of hdr_len "s\<lparr>world := w1\<rparr>"] r1(2) by (auto simp: hdr_len_def)
  have n: "gb_hdr_payload_len (header m) = length (payload m)"
    using wf_msg_payload_len [OF assms(3)] by (simp add: gb_message_payload_len_def)
  obtain blk w3 where a: "k_heap_alloc z (hdr_len + length (payload m)) w2 = (Some blk, w3)" by (rule heap_roomE [OF room])
  let ?h = "header m"
  let ?m = "new_msg (length (payload m)) (hdr_type ?h) (hdr_operation_id ?h) (hdr_result ?h) blk"
  let ?s3 = "s\<lparr>world := w3, msg_heap := (msg_heap s)(msg_next s \<mapsto> ?m), msg_next := msg_next s + 1\<rparr>"
  have len: "gb_message_payload_len ?m = length (payload m)" "length (payload ?m) = length (payload m)"
    using wf_msg_size [OF assms(3)] assms(3) heap_block_length [OF assms(1) a]
    by (simp_all add: new_msg_def gb_message_payload_len_def gb_hdr_payload_len_def wf_msg_def
        unat_of_nat_u16 size_sub_exact word_unat_eq_iff del: of_nat_add)
  obtain w4 where r3: "read_data z sock (length (payload m)) ?s3 = Inr (0, take k (payload m), ?s3\<lparr>world := w4\<rparr>)"
    using read_data_stream [OF assms(2), of "length (payload m)" ?s3] recv_stream_alloc [OF assms(2) a] r2(2) wire(2)
    by auto
  have pos: "0 < length (payload m)" using wire(2) by linarith
  show ?thesis
    using a r3 len wire(2) pos heap_ok_fresh [OF assms(4)]
    by (simp add: Let_def gb_message_receive_def r1 r2 hdr_len_def [THEN arg_cong, of int] n
        gb_message_alloc_eq [OF assms(1) wf_msg_size [OF assms(3)]] msg_get_def msg_payload_write_def
        buf_write_def receive_failed_def gb_message_dealloc_def fun_upd_idem)
qed

text \<open>
  A connection that ends inside a message is noticed: if the peer closes after any proper prefix
  of a message, \<open>gb_message_receive\<close> returns no message and raises the closed-by-peer flag, and no
  message stays allocated.
\<close>

lemma node_message_truncated:
  assumes "heap_documented z" and "recv_stream z sock avail" and "wf_msg m" and "heap_ok s"
    and "heap_room z (hdr_len + length (payload m))"
    and "k < 2 + length (msg_bytes m)" and "avail (world s) = take k (le16 cport @ msg_bytes m)"
  shows "\<exists>s'. gb_message_receive z sock flag s = Inr ((0, None), True, s') \<and> msg_heap s' = msg_heap s"
proof (cases "k < 10")
  case True
  show ?thesis
  proof (cases "k < 2")
    case True
    then show ?thesis
      using read_data_stream [OF assms(2), of 2 s] assms(7)
      by (auto simp: gb_message_receive_def receive_failed_def)
  next
    case False
    obtain w1 where r1: "read_data z sock 2 s = Inr (2, le16 cport, s\<lparr>world := w1\<rparr>)"
      "avail w1 = take (k - 2) (msg_bytes m)"
      using read_data_stream [OF assms(2), of 2 s] assms(6,7) False by auto
    with \<open>k < 10\<close> show ?thesis
      using read_data_stream [OF assms(2), of hdr_len "s\<lparr>world := w1\<rparr>"]
      by (auto simp: gb_message_receive_def receive_failed_def hdr_len_def)
  qed
next
  case False
  then have "avail (world s) = le16 cport @ hdr_bytes (header m) @ take (k - 10) (payload m)"
    using assms(7) by (simp add: msg_bytes_def)
  moreover have "k - 10 < length (payload m)" using False assms(6) by (simp add: msg_bytes_length hdr_len_def)
  ultimately show ?thesis
    using assms(5) by (intro gb_message_receive_short [OF assms(1-4)]) simp_all
qed

lemma node_message_truncated_witness:
  "\<exists>s'. gb_message_receive chunky_zephyr 6 False (sample_gs\<lparr>world := ([], take 7 (le16 1 @ msg_bytes sample_msg))\<rparr>) =
      Inr ((0, None), True, s') \<and>
    msg_heap s' = msg_heap (sample_gs\<lparr>world := ([], take 7 (le16 1 @ msg_bytes sample_msg))\<rparr>)"
  by (rule node_message_truncated [where avail = snd and m = sample_msg and k = 7 and cport = 1])
    (simp_all add: chunky_streams, simp_all add: sample_msg_def wf_msg_def sent_msg_def hdr_len_def chunky_zephyr_def
      heap_ok_def msg_bytes_length)

section \<open>Losing a node\<close>

lemma node_ok_uplinked: "node_ok s \<Longrightarrow> node_ok (uplinked z c m w s)"
  by (erule node_ok_cong) (simp_all add: uplinked_def)

lemma node_ok_new_id: "node_ok s \<Longrightarrow> node_ok (snd (new_operation_id s))"
  by (erule node_ok_cong) (simp_all add: new_operation_id_eq)

lemma svc_send_module_removed_at:
  assumes ok: "node_ok s" "i < node_cache_pos s" and "heap_documented z" "heap_room z 9" "heap_ok s"
    and "node_to_ap_cport SVC_INF_ID 0 s = int j"
  obtains b c pad w r where "item_inf (node_cache s ! i) = Some (NodeIntf b)" "b < MAX_GREYBUS_INTERFACES"
    "entry_ctrl (gb_interface_slab s) (node_cache s ! i) = Some c"
    "svc_send_module_removed z (item_inf (node_cache s ! i)) s =
       Inr (r, node_removed z i b c (uplinked z (of_nat j) (sent_msg GB_SVC_TYPE_MODULE_REMOVED
         (fst (new_operation_id s)) 0 pad [item_id (node_cache s ! i)]) w (snd (new_operation_id s))))" "0 \<le> r"
proof -
  from entry_okE [OF ok] obtain b intf c where e: "item_inf (node_cache s ! i) = Some (NodeIntf b)"
    "b < length (gb_interface_slab s)" "gb_interface_slab s ! b = Some intf"
    "intf_id intf = item_id (node_cache s ! i)"
    "entry_ctrl (gb_interface_slab s) (node_cache s ! i) = Some c" by metis
  obtain blk w where a: "k_heap_alloc z 9 (world s) = (Some blk, w)" by (rule heap_roomE [OF assms(4)])
  define t where "t = uplinked z (of_nat j) (sent_msg GB_SVC_TYPE_MODULE_REMOVED
         (fst (new_operation_id s)) 0 (blk ! 6, blk ! 7) [item_id (node_cache s ! i)]) w (snd (new_operation_id s))"
  have t: "node_ok t" "node_cache t = node_cache s" "node_cache_pos t = node_cache_pos s"
    "gb_interface_slab t = gb_interface_slab s"
    using ok by (simp_all add: t_def node_ok_uplinked node_ok_new_id, simp_all add: uplinked_def new_operation_id_eq)
  have "control_send_request z (gb_svc_module_removed_request (intf_id intf)) GB_SVC_TYPE_MODULE_REMOVED s =
      Inr (uint (freed_u16 z (msg_next s) (world t)), t)"
    using control_send_request_eq [OF assms(3,5) _ assms(6), of "[item_id (node_cache s ! i)]" blk w] a e(4)
    by (simp add: gb_svc_module_removed_request_def hdr_len_def t_def Let_def)
  moreover obtain b' c' where "item_inf (node_cache t ! i) = Some (NodeIntf b')"
    "entry_ctrl (gb_interface_slab t) (node_cache t ! i) = Some c'"
    "node_destroy_interface z (item_inf (node_cache t ! i)) t = Inr (node_removed z i b' c' t)"
    using node_destroy_interface_eq [OF t(1), of i z] ok(2) t(3) by metis
  then have "node_destroy_interface z (Some (NodeIntf b)) t = Inr (node_removed z i b c t)"
    using e t by simp
  moreover have "intf_deref (NodeIntf b) s = Inr intf" using e by (simp add: intf_deref_node)
  ultimately have "svc_send_module_removed z (item_inf (node_cache s ! i)) s =
      Inr (uint (freed_u16 z (msg_next s) (world t)), node_removed z i b c t)"
    using e(1) by (simp add: svc_send_module_removed_def)
  then show ?thesis using that e ok t_def by (auto simp: node_ok_def)
qed

text \<open>
  C25. Reporting a node as removed: for any node of a consistent cache, \<open>svc_send_module_removed\<close>
  sends exactly one frame to the AP, the MODULE\_REMOVED request with the node's interface id and a
  fresh operation id, and then removes exactly that node: the cache loses this entry and no other, the
  interface pointer dangles from then on, the route table is untouched and the state is consistent.
\<close>

theorem module_removed_removes_node:
  assumes "node_ok s" and "i < node_cache_pos s" and "heap_documented z" and "heap_room z 9"
    and "heap_ok s" and "node_to_ap_cport SVC_INF_ID 0 s = int j"
  shows "\<exists>r s' pad b. svc_send_module_removed z (item_inf (node_cache s ! i)) s = Inr (r, s') \<and> 0 \<le> r \<and>
    uart_tx s' = uart_tx s @ ap_frame z (of_nat j)
      (sent_msg GB_SVC_TYPE_MODULE_REMOVED (fst (new_operation_id s)) 0 pad [item_id (node_cache s ! i)]) \<and>
    mset (nodes s) = add_mset (node_cache s ! i) (mset (nodes s')) \<and>
    item_inf (node_cache s ! i) = Some b \<and> intf_deref b s' = Inl UseAfterFree \<and>
    node_ap_map s' = node_ap_map s \<and> node_ok s'"
proof -
  obtain b c pad w r where e: "item_inf (node_cache s ! i) = Some (NodeIntf b)" "b < MAX_GREYBUS_INTERFACES"
    "entry_ctrl (gb_interface_slab s) (node_cache s ! i) = Some c"
    "svc_send_module_removed z (item_inf (node_cache s ! i)) s =
       Inr (r, node_removed z i b c (uplinked z (of_nat j) (sent_msg GB_SVC_TYPE_MODULE_REMOVED
         (fst (new_operation_id s)) 0 pad [item_id (node_cache s ! i)]) w (snd (new_operation_id s))))" "0 \<le> r"
    by (rule svc_send_module_removed_at [OF assms])
  define t where "t = uplinked z (of_nat j) (sent_msg GB_SVC_TYPE_MODULE_REMOVED
         (fst (new_operation_id s)) 0 pad [item_id (node_cache s ! i)]) w (snd (new_operation_id s))"
  have t: "node_ok t" "node_cache t = node_cache s" "node_cache_pos t = node_cache_pos s"
    "gb_interface_slab t = gb_interface_slab s" "nodes t = nodes s" "node_ap_map t = node_ap_map s"
    using assms(1)
    by (simp_all add: t_def node_ok_uplinked node_ok_new_id, simp_all add: nodes_def uplinked_def new_operation_id_eq)
  have "length (gb_interface_slab s) = MAX_GREYBUS_INTERFACES" using assms(1) by (simp add: node_ok_def)
  then have "intf_deref (NodeIntf b) (node_removed z i b c t) = Inl UseAfterFree"
    using e(2) t(4) by (simp add: node_removed_def intf_deref_def)
  moreover have "node_ok (node_removed z i b c t)"
    "mset (nodes s) = add_mset (node_cache s ! i) (mset (nodes (node_removed z i b c t)))"
    using node_ok_removed [OF t(1), of i b c z] assms(2) e t by simp_all
  moreover have "uart_tx (node_removed z i b c t) = uart_tx t" "node_ap_map (node_removed z i b c t) = node_ap_map s"
    using t by (simp_all add: node_removed_def)
  moreover have "uart_tx t = uart_tx s @ ap_frame z (of_nat j)
      (sent_msg GB_SVC_TYPE_MODULE_REMOVED (fst (new_operation_id s)) 0 pad [item_id (node_cache s ! i)])"
    by (simp add: t_def)
  ultimately show ?thesis
    using e(1,5) e(4) [folded t_def]
    by (intro exI [of _ r] exI [of _ "node_removed z i b c t"] exI [of _ pad] exI [of _ "NodeIntf b"]) simp
qed

lemma sample_nodes_sel [simp]:
  "world sample_nodes = ([], [])" "msg_heap sample_nodes = Map.empty" "msg_next sample_nodes = 0"
  "uart_tx sample_nodes = []" "node_cache_pos sample_nodes = 2" "operation_id_counter sample_nodes = 1"
  by (simp_all add: sample_nodes_def gb_state.defs)

lemma sample_nodes_route: "node_to_ap_cport SVC_INF_ID 0 sample_nodes = int 0"
  by (simp add: node_to_ap_cport_def sample_nodes_def gb_state.defs AP_MAX_NODES_def SVC_INF_ID_def)

lemma sample_nodes_heap: "heap_ok sample_nodes"
  by (simp add: heap_ok_def)

theorem module_removed_removes_node_witness:
  "\<exists>r s' pad b. svc_send_module_removed sample_zephyr (item_inf (node_cache sample_nodes ! 0)) sample_nodes = Inr (r, s') \<and> 0 \<le> r \<and>
    uart_tx s' = uart_tx sample_nodes @ ap_frame sample_zephyr (of_nat 0)
      (sent_msg GB_SVC_TYPE_MODULE_REMOVED (fst (new_operation_id sample_nodes)) 0 pad [item_id (node_cache sample_nodes ! 0)]) \<and>
    mset (nodes sample_nodes) = add_mset (node_cache sample_nodes ! 0) (mset (nodes s')) \<and>
    item_inf (node_cache sample_nodes ! 0) = Some b \<and> intf_deref b s' = Inl UseAfterFree \<and>
    node_ap_map s' = node_ap_map sample_nodes \<and> node_ok s'"
  by (rule module_removed_removes_node)
    (simp_all add: sample_nodes_ok sample_documented sample_room sample_nodes_route sample_nodes_heap)

text \<open>
  A failed write to a node is fatal: if the socket of a cached node refuses the first bytes of a
  message, \<open>gb_message_send\<close> reports the module as removed and frees its interface, and
  \<open>node_inf_write\<close> then reports the same, now dangling, interface again.
\<close>

lemma node_write_failure_uses_freed_interface:
  assumes "node_ok s" and "i < node_cache_pos s" and "item_inf (node_cache s ! i) = Some ctrl"
    and "node_cache_find_by_sock (item_sock (node_cache s ! i)) s = int i"
    and "zsock_send z (item_sock (node_cache s ! i)) (le16 cport) (world s) = (e, w)" and "e < 0"
    and "heap_documented z" and "heap_room z 9" and "heap_ok s"
    and "node_to_ap_cport SVC_INF_ID 0 s = int j"
  shows "node_inf_write z ctrl msg cport s = Inl UseAfterFree"
proof -
  let ?sk = "item_sock (node_cache s ! i)" and ?s1 = "s\<lparr>world := w\<rparr>"
  from entry_okE [OF assms(1,2)] obtain b intf c where i: "item_inf (node_cache s ! i) = Some (NodeIntf b)"
    "b < length (gb_interface_slab s)" "gb_interface_slab s ! b = Some intf" "ctrl_data intf = Some c"
    "c < length (node_control_data_slab s)" "node_control_data_slab s ! c = Some ?sk" by metis
  have wr: "write_data z ?sk (le16 cport) 2 s = Inr (e, ?s1)"
    using assms(5,6) by (simp add: write_data_def write_loop.simps [of z ?sk "le16 cport" 0 "world s"])
  have s1: "node_ok ?s1" "i < node_cache_pos ?s1" "heap_ok ?s1" "node_to_ap_cport SVC_INF_ID 0 ?s1 = int j"
    "node_cache_find_by_sock ?sk ?s1 = int i"
    using assms node_ok_cong [OF assms(1), of ?s1]
    by (simp_all add: heap_ok_def node_to_ap_cport_def node_cache_find_by_sock_def nodes_def)
  obtain b' c' pad w' r where rm: "item_inf (node_cache ?s1 ! i) = Some (NodeIntf b')" "b' < MAX_GREYBUS_INTERFACES"
    "svc_send_module_removed z (item_inf (node_cache ?s1 ! i)) ?s1 =
       Inr (r, node_removed z i b' c' (uplinked z (of_nat j) (sent_msg GB_SVC_TYPE_MODULE_REMOVED
         (fst (new_operation_id ?s1)) 0 pad [item_id (node_cache ?s1 ! i)]) w' (snd (new_operation_id ?s1))))"
    using svc_send_module_removed_at [OF s1(1,2) assms(7,8) s1(3,4)] by metis
  let ?s2 = "node_removed z i b' c' (uplinked z (of_nat j) (sent_msg GB_SVC_TYPE_MODULE_REMOVED
         (fst (new_operation_id ?s1)) 0 pad [item_id (node_cache ?s1 ! i)]) w' (snd (new_operation_id ?s1)))"
  have same: "b' = b" "ctrl = NodeIntf b" using rm(1) i(1) assms(3) by simp_all
  have "length (gb_interface_slab s) = MAX_GREYBUS_INTERFACES" using assms(1) by (simp add: node_ok_def)
  then have gone: "intf_deref ctrl ?s2 = Inl UseAfterFree"
    using rm(2) same by (simp add: node_removed_def intf_deref_def new_operation_id_eq)
  have "gb_message_send z ?sk msg cport s = Inr (e, ?s2)"
    using rm(3) s1(5) assms(6) by (simp add: gb_message_send_def wr send_failed_def svc_send_module_removed_by_sock_def)
  with gone i same assms(6) show ?thesis
    by (simp add: node_inf_write_def intf_deref_def [of "NodeIntf b" s] ctrl_get_def svc_send_module_removed_def)
qed

definition refusing_zephyr :: "sample_world zephyr" where
  "refusing_zephyr = sample_zephyr\<lparr>zsock_send := (\<lambda>sock bs w. (-1, w))\<rparr>"

lemma refusing_documented: "heap_documented refusing_zephyr" "heap_room refusing_zephyr n"
  by (simp_all add: refusing_zephyr_def heap_documented_def heap_room_def)

lemma node_write_failure_uses_freed_interface_witness:
  "node_inf_write refusing_zephyr (NodeIntf 0) 0 0 sample_nodes = Inl UseAfterFree"
  by (rule node_write_failure_uses_freed_interface [where i = 0 and e = "-1" and w = "([], [])" and j = 0])
    (simp_all add: sample_nodes_ok refusing_documented sample_nodes_route sample_nodes_heap,
      simp_all add: refusing_zephyr_def sample_nodes_def gb_state.defs node_cache_find_by_sock_def nodes_def
        upt_rec [of _ 32] take_map)

section \<open>Finding a node\<close>

lemma nodes_ok_add:
  assumes ok: "nodes_ok es slab ctrl" and b: "b < length slab" "slab ! b = None"
    and c: "c < length ctrl" "ctrl ! c = None"
    and e: "entry_ok (slab[b := Some i]) (ctrl[c := Some k]) e" "item_inf e = Some (NodeIntf b)"
    and i: "ctrl_data i = Some c" and n: "item_id e \<notin> item_id ` set es"
  shows "nodes_ok (es @ [e]) (slab[b := Some i]) (ctrl[c := Some k])"
proof -
  let ?slab = "slab[b := Some i]" and ?ctrl = "ctrl[c := Some k]"
  have same: "entry_ok ?slab ?ctrl x \<and> entry_ctrl ?slab x = entry_ctrl slab x \<and>
      item_inf x \<noteq> Some (NodeIntf b) \<and> entry_ctrl slab x \<noteq> Some c" if "x \<in> set es" for x
  proof -
    have "entry_ok slab ctrl x" using ok that by (simp add: nodes_ok_def)
    then obtain b' i' c' where x: "item_inf x = Some (NodeIntf b')" "b' < length slab" "slab ! b' = Some i'"
      "ctrl_data i' = Some c'" "c' < length ctrl" "ctrl ! c' = Some (item_sock x)" by (auto simp: entry_ok_def)
    have ne: "b' \<noteq> b" "c' \<noteq> c" using x b c by auto
    with x have "entry_ctrl slab x = Some c'" "entry_ctrl ?slab x = Some c'" by (simp_all add: entry_ctrl_def)
    moreover have "entry_ok ?slab ?ctrl x" using \<open>entry_ok slab ctrl x\<close> x ne by (auto simp: entry_ok_def)
    ultimately show ?thesis using ne x by simp
  qed
  have ec: "entry_ctrl ?slab e = Some c" using b e(2) i by (simp add: entry_ctrl_def)
  have img: "entry_ctrl ?slab ` set es = entry_ctrl slab ` set es"
    and mp: "map (entry_ctrl ?slab) es = map (entry_ctrl slab) es"
    using same by (auto intro!: image_cong)
  have "Some j \<in> insert (Some c) (entry_ctrl slab ` set es)"
    if "j < length ctrl" "?ctrl ! j \<noteq> None" for j
    using ok that by (cases "j = c") (auto simp: nodes_ok_def)
  moreover have "entry_ctrl ?slab e \<notin> entry_ctrl slab ` set es" "item_inf e \<notin> item_inf ` set es"
    using same ec e(2) by force+
  ultimately show ?thesis
    using ok same e(1) n ec by (auto simp: nodes_ok_def img mp)
qed

text \<open>There are never more nodes than interfaces, so the node cache never fills up.\<close>

lemma nodes_bound:
  assumes "node_ok s" shows "node_cache_pos s \<le> MAX_GREYBUS_INTERFACES"
proof -
  have d: "distinct (map item_inf (nodes s))" using assms by (simp add: node_ok_def nodes_ok_def)
  have "set (map item_inf (nodes s)) \<subseteq> (\<lambda>b. Some (NodeIntf b)) ` {..<MAX_GREYBUS_INTERFACES}"
    using assms by (force simp: node_ok_def nodes_ok_def entry_ok_def)
  then have "card (set (map item_inf (nodes s))) \<le> card ((\<lambda>b. Some (NodeIntf b)) ` {..<MAX_GREYBUS_INTERFACES})"
    by (rule card_mono [rotated]) simp
  also have "\<dots> \<le> MAX_GREYBUS_INTERFACES" using card_image_le [of "{..<MAX_GREYBUS_INTERFACES}"] by fastforce
  finally have "length (map item_inf (nodes s)) \<le> MAX_GREYBUS_INTERFACES"
    using distinct_card [OF d] by simp
  then show ?thesis using length_nodes [OF assms] by simp
qed

lemma ctrl_block_free:
  assumes "node_ok s" shows "False \<in> set (slab_used (node_control_data_slab s))"
proof (rule ccontr)
  assume "False \<notin> set (slab_used (node_control_data_slab s))"
  then have full: "node_control_data_slab s ! c \<noteq> None" if "c < 32" for c
    using that assms by (auto simp: slab_used_def in_set_conv_nth node_ok_def MAX_GREYBUS_NODES_def)
  have "Some ` {..<32} \<subseteq> entry_ctrl (gb_interface_slab s) ` set (nodes s)"
    using assms full by (auto simp: node_ok_def nodes_ok_def MAX_GREYBUS_NODES_def)
  then have "card (Some ` {..<32 :: nat}) \<le> card (entry_ctrl (gb_interface_slab s) ` set (nodes s))"
    by (rule card_mono [rotated]) simp
  also have "\<dots> \<le> card (set (nodes s))" by (rule card_image_le) simp
  also have "\<dots> \<le> node_cache_pos s" using card_length [of "nodes s"] length_nodes [OF assms] by simp
  finally have "32 \<le> node_cache_pos s" by (simp add: card_image)
  with nodes_bound [OF assms] show False by (simp add: MAX_GREYBUS_INTERFACES_def)
qed

lemma slab_documentedD:
  assumes "slab_documented z" "k_mem_slab_alloc z (slab_used xs) w = (r, w')"
  shows "r = Some b \<Longrightarrow> b < length xs \<and> xs ! b = None" and "r = None \<longleftrightarrow> None \<notin> set xs"
proof -
  have "None \<notin> set xs" if "r = None"
  proof
    assume "None \<in> set xs"
    then have "False \<in> set (slab_used xs)" by (force simp: slab_used_def)
    with assms that show False unfolding slab_documented_def by (metis fst_conv)
  qed
  moreover show *: "r = Some b \<Longrightarrow> b < length xs \<and> xs ! b = None" for b
    using assms unfolding slab_documented_def slab_used_def by fastforce
  ultimately show "r = None \<longleftrightarrow> None \<notin> set xs" by (cases r) (auto dest: * nth_mem)
qed

definition new_node :: "u8 \<Rightarrow> byte list \<Rightarrow> nat \<Rightarrow> node_item" where
  "new_node n a b = \<lparr>item_sock = -1, item_id = n, item_addr = a, item_inf = Some (NodeIntf b), fail_count = 0\<rparr>"

definition new_node_intf :: "u8 \<Rightarrow> nat \<Rightarrow> gb_interface" where
  "new_node_intf n c = \<lparr>intf_id = n, intf_write = Node_inf_write,
     intf_create_connection = Node_intf_create_connection,
     intf_destroy_connection = Node_intf_destroy_connection, ctrl_data = Some c\<rparr>"

definition node_created :: "byte list \<Rightarrow> nat \<Rightarrow> nat \<Rightarrow> 'w \<Rightarrow> ('w, 'a) ns \<Rightarrow> ('w, 'a) ns" where
  "node_created a b c w s = (let (n, t) = new_interface_id s in
     t\<lparr>world := w, gb_interface_slab := (gb_interface_slab s)[b := Some (new_node_intf n c)],
       node_cache := (node_cache s)[node_cache_pos s := new_node n a b],
       node_cache_pos := node_cache_pos s + 1,
       node_control_data_slab := (node_control_data_slab s)[c := Some (-1)]\<rparr>)"

lemma node_create_interface_cases:
  assumes ok: "node_ok s" and z: "slab_documented z"
  obtains (full) w where "None \<notin> set (gb_interface_slab s)"
      "node_create_interface z a s = Inr (None, s\<lparr>world := w\<rparr>)"
    | (created) b c w where "b < length (gb_interface_slab s)" "gb_interface_slab s ! b = None"
      "c < length (node_control_data_slab s)" "node_control_data_slab s ! c = None"
      "node_create_interface z a s = Inr (Some (NodeIntf b), node_created a b c w s)"
proof -
  obtain r w1 where a1: "k_mem_slab_alloc z (slab_used (node_control_data_slab s)) (world s) = (r, w1)" by fastforce
  have "None \<in> set (node_control_data_slab s)"
    using ctrl_block_free [OF ok] by (auto simp: slab_used_def)
  then obtain c where r: "r = Some c" using slab_documentedD(2) [OF z a1] by blast
  note c = slab_documentedD(1) [OF z a1 r]
  obtain r2 w2 where a2: "k_mem_slab_alloc z (slab_used (gb_interface_slab s)) w1 = (r2, w2)" by fastforce
  have pos: "\<not> MAX_GREYBUS_NODES \<le> node_cache_pos s"
    using nodes_bound [OF ok] by (simp add: MAX_GREYBUS_NODES_def MAX_GREYBUS_INTERFACES_def)
  show ?thesis
  proof (cases r2)
    case None
    have "node_create_interface z a s = Inr (None, s\<lparr>world := w2\<rparr>)"
      using a1 a2 r None c
      by (auto intro!: node_state.equality simp: node_create_interface_def gb_interface_alloc_def ctrl_set_def ctrl_free_def list_update_same_conv)
    moreover have "None \<notin> set (gb_interface_slab s)" using slab_documentedD(2) [OF z a2] None by blast
    ultimately show ?thesis by (rule full [rotated])
  next
    case (Some b)
    note b = slab_documentedD(1) [OF z a2 Some]
    have "node_create_interface z a s = Inr (Some (NodeIntf b), node_created a b c w2 s)"
      using a1 a2 r Some c b pos
      by (auto intro!: node_state.equality simp: node_create_interface_def gb_interface_alloc_def ctrl_set_def
          new_interface_id_eq node_created_def node_cache_add_def intf_deref_def new_node_def new_node_intf_def Let_def)
    with b c show ?thesis by (intro created [of b c w2]) simp_all
  qed
qed

lemma node_created_sel [simp]:
  "uart_tx (node_created a b c w s) = uart_tx s" "msg_heap (node_created a b c w s) = msg_heap s"
  "msg_next (node_created a b c w s) = msg_next s" "node_ap_map (node_created a b c w s) = node_ap_map s"
  "operation_id_counter (node_created a b c w s) = operation_id_counter s" "world (node_created a b c w s) = w"
  by (simp_all add: node_created_def new_interface_id_eq)

lemma node_created_nodes:
  assumes "node_ok s" shows "nodes (node_created a b c w s) = nodes s @ [new_node (fst (new_interface_id s)) a b]"
proof -
  have "node_cache_pos s < length (node_cache s)"
    using nodes_bound [OF assms] assms by (simp add: node_ok_def MAX_GREYBUS_NODES_def MAX_GREYBUS_INTERFACES_def)
  then show ?thesis
    by (simp add: nodes_def node_created_def new_interface_id_eq take_list_update_same)
qed

lemma node_created_ok:
  assumes ok: "node_ok s" and fresh: "fst (new_interface_id s) \<notin> item_id ` set (nodes s)"
    and b: "b < length (gb_interface_slab s)" "gb_interface_slab s ! b = None"
    and c: "c < length (node_control_data_slab s)" "node_control_data_slab s ! c = None"
  shows "node_ok (node_created a b c w s)"
proof -
  let ?n = "fst (new_interface_id s)"
  have "entry_ok ((gb_interface_slab s)[b := Some (new_node_intf ?n c)]) ((node_control_data_slab s)[c := Some (-1)])
      (new_node ?n a b)"
    using b c by (simp add: entry_ok_def new_node_def new_node_intf_def)
  then have "nodes_ok (nodes s @ [new_node ?n a b]) ((gb_interface_slab s)[b := Some (new_node_intf ?n c)])
      ((node_control_data_slab s)[c := Some (-1)])"
    using ok b c fresh by (intro nodes_ok_add) (simp_all add: node_ok_def new_node_def new_node_intf_def)
  moreover have "node_cache_pos s + 1 \<le> MAX_GREYBUS_NODES"
    using nodes_bound [OF ok] by (simp add: MAX_GREYBUS_NODES_def MAX_GREYBUS_INTERFACES_def)
  ultimately show ?thesis
    using ok unfolding node_ok_def node_created_nodes [OF ok]
    by (simp add: node_created_def new_interface_id_eq)
qed

lemma find_by_addr_iff:
  "node_cache_find_by_addr a s < 0 \<longleftrightarrow> a \<notin> item_addr ` set (nodes s)"
proof (cases "first_index (\<lambda>e. item_addr e = a) (nodes s)")
  case None
  then have "a \<notin> item_addr ` set (nodes s)" by (auto simp: first_index_None_iff)
  with None show ?thesis by (simp add: node_cache_find_by_addr_def)
next
  case (Some i)
  then have "a \<in> item_addr ` set (nodes s)" using first_index_SomeD [OF Some] by (metis image_eqI nth_mem)
  with Some show ?thesis by (simp add: node_cache_find_by_addr_def)
qed

lemma node_filter_known: "set as \<subseteq> item_addr ` set (nodes s) \<Longrightarrow> node_filter z as s = Inr s"
  unfolding node_filter_def
  by (induction as) (auto simp: node_filter_step_def find_by_addr_iff)



text \<open>
  C29. The transfer loops of the TCP transport return, given sockets that take or deliver at least one byte
  or report an end or an error: \<open>write_data\<close> returns the whole length or an error, and
  \<open>read_data\<close> the whole length with a full buffer, or 0 or an error with a buffer never overfilled.
\<close>

theorem transfers_return:
  assumes "send_documented z" and "recv_documented z" and "len \<le> length data"
  shows "(\<exists>r w. write_data z sock data len s = Inr (r, s\<lparr>world := w\<rparr>) \<and> (r < 0 \<or> r = int len)) \<and>
    (\<exists>r bs w. read_data z sock n s = Inr (r, bs, s\<lparr>world := w\<rparr>) \<and> length bs \<le> n \<and> r \<le> int n \<and>
      (0 < r \<longrightarrow> r = int n \<and> length bs = n))"
proof
  show "\<exists>r w. write_data z sock data len s = Inr (r, s\<lparr>world := w\<rparr>) \<and> (r < 0 \<or> r = int len)"
    using write_loop_total [OF assms(1), of 0 "take len data" sock "world s"] assms(3) by (auto simp: write_data_def)
  obtain r bs w where l: "read_loop z sock n [] (world s) = Some (r, bs, w)" "length bs \<le> n" "r \<le> 0 \<or> r = int n"
    "r = int n \<longrightarrow> 0 < n \<longrightarrow> length bs = n"
    using read_loop_total [OF assms(2), of "[]" n sock "world s"] by auto
  then show "\<exists>r bs w. read_data z sock n s = Inr (r, bs, s\<lparr>world := w\<rparr>) \<and> length bs \<le> n \<and> r \<le> int n \<and>
      (0 < r \<longrightarrow> r = int n \<and> length bs = n)"
    by (intro exI [of _ r] exI [of _ bs] exI [of _ w]) (auto simp: read_data_def)
qed

theorem transfers_return_witness:
  "(\<exists>r w. write_data sample_zephyr 0 [1, 2, 3] 2 sample_nodes = Inr (r, sample_nodes\<lparr>world := w\<rparr>) \<and> (r < 0 \<or> r = int 2)) \<and>
    (\<exists>r bs w. read_data sample_zephyr 0 4 sample_nodes = Inr (r, bs, sample_nodes\<lparr>world := w\<rparr>) \<and> length bs \<le> 4 \<and> r \<le> int 4 \<and>
      (0 < r \<longrightarrow> r = int 4 \<and> length bs = 4))"
  by (rule transfers_return [OF sample_documented(4,5)]) simp

end
