(* ===== verification/Connection.thy ===== *)
theory Connection
  imports Node
begin

text \<open>
  Connections between a CPort of the AP and a CPort of an interface: finding an interface by id
  (src/greybus_interfaces.c), the interfaces' own part in a connection (src/svc.c, src/local_node.c,
  src/node.c), and \<open>connection_create\<close> and \<open>connection_destroy\<close> of src/apbridge.c.
\<close>

section \<open>Operations\<close>

definition gb_interface_find_by_id :: "u8 \<Rightarrow> ('w, 'a) ns \<Rightarrow> intf_ptr option" where
  "gb_interface_find_by_id n s =
     (if n = SVC_INF_ID then svc_interface s
      else if n = LOCAL_NODE_ID then Some (local_node_interface s)
      else node_find_by_id n s)"

definition svc_inf_create_connection :: "u16 \<Rightarrow> ('w, 'a) ns \<Rightarrow> int" where
  "svc_inf_create_connection cport_id s = (if cport_id = 0 \<and> \<not> svc_is_ready s then 1 else 0)"

definition svc_inf_destroy_connection :: "u16 \<Rightarrow> ('w, 'a) ns \<Rightarrow> ('w, 'a) ns" where
  "svc_inf_destroy_connection cport_id s =
     (if cport_id \<noteq> 0 then s else s\<lparr>svc_is_read_flag := False\<rparr>)"

definition local_intf_create_connection :: "u16 \<Rightarrow> ('w, 'a) ns \<Rightarrow> int" where
  "local_intf_create_connection cport_id s = 0"

definition local_intf_destroy_connection :: "u16 \<Rightarrow> ('w, 'a) ns \<Rightarrow> ('w, 'a) ns" where
  "local_intf_destroy_connection cport_id s = s"

text \<open>The calls through the function pointers of an interface.\<close>

definition create_connection_call ::
  "'w zephyr \<Rightarrow> intf_ptr \<Rightarrow> u16 \<Rightarrow> ('w, 'a) ns \<Rightarrow> (int \<times> ('w, 'a) ns) res" where
  "create_connection_call z p cport_id s =
     bnd (intf_deref p s) (\<lambda>i.
       case intf_create_connection i of
         Svc_inf_create_connection \<Rightarrow> Inr (svc_inf_create_connection cport_id s, s)
       | Local_intf_create_connection \<Rightarrow> Inr (local_intf_create_connection cport_id s, s)
       | Node_intf_create_connection \<Rightarrow> node_intf_create_connection z i cport_id s)"

definition destroy_connection_call :: "intf_ptr \<Rightarrow> u16 \<Rightarrow> ('w, 'a) ns \<Rightarrow> ('w, 'a) ns res" where
  "destroy_connection_call p cport_id s =
     bnd (intf_deref p s) (\<lambda>i.
       Inr (case intf_destroy_connection i of
         Svc_inf_destroy_connection \<Rightarrow> svc_inf_destroy_connection cport_id s
       | Local_intf_destroy_connection \<Rightarrow> local_intf_destroy_connection cport_id s
       | Node_intf_destroy_connection \<Rightarrow> node_intf_destroy_connection i cport_id s))"

text \<open>Which end is the AP's: the AP CPort, the node id and the node CPort.\<close>

definition ap_end :: "u8 \<Rightarrow> u16 \<Rightarrow> u8 \<Rightarrow> u16 \<Rightarrow> (u16 \<times> u8 \<times> u16) option" where
  "ap_end i1 c1 i2 c2 =
     (if i1 = AP_INF_ID then Some (c1, i2, c2) else if i2 = AP_INF_ID then Some (c2, i1, c1) else None)"

definition connection_create ::
  "'w zephyr \<Rightarrow> u8 \<Rightarrow> u16 \<Rightarrow> u8 \<Rightarrow> u16 \<Rightarrow> ('w, 'a) ns \<Rightarrow> (int \<times> ('w, 'a) ns) res" where
  "connection_create z i1 c1 i2 c2 s =
     (case ap_end i1 c1 i2 c2 of
        None \<Rightarrow> Inr (- EINVAL, s)
      | Some (ap_cport, nid, ncport) \<Rightarrow>
          (case gb_interface_find_by_id nid s of
             None \<Rightarrow> Inr (- EINVAL, s)
           | Some p \<Rightarrow>
               bnd (create_connection_call z p ncport s) (\<lambda>(ret, s).
               if ret < 0 then Inr (ret, s)
               else bnd (node_ap_add ap_cport ncport p s) (\<lambda>(ret, s).
                 if ret < 0 then Inr (ret, s) else Inr (0, s)))))"

definition connection_destroy ::
  "u8 \<Rightarrow> u16 \<Rightarrow> u8 \<Rightarrow> u16 \<Rightarrow> ('w, 'a) ns \<Rightarrow> (int \<times> ('w, 'a) ns) res" where
  "connection_destroy i1 c1 i2 c2 s =
     (case ap_end i1 c1 i2 c2 of
        None \<Rightarrow> Inr (- EINVAL, s)
      | Some (ap_cport, nid, ncport) \<Rightarrow>
          bnd (case gb_interface_find_by_id nid s of
                 None \<Rightarrow> Inr s
               | Some p \<Rightarrow> destroy_connection_call p ncport s) (\<lambda>s.
            Inr (0, snd (node_ap_remove ap_cport s))))"

section \<open>Connecting a node\<close>

text \<open>A new socket is written to the cache entry and to the control data of one node.\<close>

lemma map_set_sock:
  assumes "i < length es" "f ((es ! i)\<lparr>item_sock := k\<rparr>) = f (es ! i)"
  shows "map f (es[i := (es ! i)\<lparr>item_sock := k\<rparr>]) = map f es"
  using assms by (metis list_update_id map_update)

lemma nodes_ok_set_sock:
  assumes ok: "nodes_ok es slab ctrl" and i: "i < length es" and c: "entry_ctrl slab (es ! i) = Some c"
  shows "nodes_ok (es[i := (es ! i)\<lparr>item_sock := k\<rparr>]) slab (ctrl[c := Some k])"
proof -
  let ?e = "(es ! i)\<lparr>item_sock := k\<rparr>"
  let ?es = "es[i := ?e]"
  have ec: "entry_ctrl slab ?e = entry_ctrl slab (es ! i)" by (simp add: entry_ctrl_def)
  have maps: "map item_id ?es = map item_id es" "map item_inf ?es = map item_inf es"
    "map (entry_ctrl slab) ?es = map (entry_ctrl slab) es"
    by (rule map_set_sock [OF i]; simp add: entry_ctrl_def)+
  have "entry_ok slab ctrl (es ! i)" using ok i by (simp add: nodes_ok_def)
  then have e: "entry_ok slab (ctrl[c := Some k]) ?e"
    using c by (fastforce simp: entry_ok_def entry_ctrl_def)
  have others: "entry_ok slab (ctrl[c := Some k]) (es ! j)" if "j < length es" "j \<noteq> i" for j
  proof -
    have d: "distinct (map (entry_ctrl slab) es)" using ok by (simp add: nodes_ok_def)
    then have "entry_ctrl slab (es ! j) \<noteq> Some c"
      using that i c nth_eq_iff_index_eq [OF d, of j i] by simp
    moreover have "entry_ok slab ctrl (es ! j)" using ok that by (simp add: nodes_ok_def)
    ultimately show ?thesis by (fastforce simp: entry_ok_def entry_ctrl_def)
  qed
  have "entry_ok slab (ctrl[c := Some k]) x" if x: "x \<in> set ?es" for x
  proof -
    obtain j where j: "j < length es" "x = ?es ! j" using x by (auto simp: in_set_conv_nth)
    then show ?thesis using e others [of j] i by (cases "j = i") simp_all
  qed
  moreover have "Some j \<in> entry_ctrl slab ` set ?es" if "j < length ctrl" "ctrl[c := Some k] ! j \<noteq> None" for j
  proof -
    have "entry_ctrl slab ` set ?es = entry_ctrl slab ` set es"
      using maps(3) by (metis list.set_map)
    moreover have "Some c \<in> entry_ctrl slab ` set es" using c i by (metis image_eqI nth_mem)
    ultimately show ?thesis using ok that by (cases "j = c") (auto simp: nodes_ok_def)
  qed
  ultimately show ?thesis using ok by (simp add: nodes_ok_def maps)
qed

lemma node_ok_set_sock:
  assumes "node_ok s" "i < node_cache_pos s" "entry_ctrl (gb_interface_slab s) (node_cache s ! i) = Some c"
    and "node_cache t = (node_cache s)[i := (node_cache s ! i)\<lparr>item_sock := k\<rparr>]"
    "node_control_data_slab t = (node_control_data_slab s)[c := Some k]"
    "gb_interface_slab t = gb_interface_slab s" "node_cache_pos t = node_cache_pos s"
  shows "node_ok t"
proof -
  have "nodes t = (nodes s)[i := (nodes s ! i)\<lparr>item_sock := k\<rparr>]"
    using assms(2,4,7) by (simp add: nodes_def take_update_swap)
  moreover have "nodes s ! i = node_cache s ! i" using assms(2) by (simp add: nodes_def)
  ultimately show ?thesis
    using assms nodes_ok_set_sock [of "nodes s" "gb_interface_slab s" "node_control_data_slab s" i c k] length_nodes [OF assms(1)]
    by (simp add: node_ok_def)
qed

text \<open>
  \<open>conn_frame s t\<close>: from \<open>s\<close> to \<open>t\<close> only the platform, the sockets of nodes and the SVC's ready flag
  may have changed.
\<close>

definition conn_frame :: "('w, 'a) ns \<Rightarrow> ('w, 'a) ns \<Rightarrow> bool" where
  "conn_frame s t \<longleftrightarrow> node_ap_map t = node_ap_map s \<and> gb_interface_slab t = gb_interface_slab s \<and>
     msg_heap t = msg_heap s \<and> msg_next t = msg_next s \<and> uart_tx t = uart_tx s \<and>
     rx_buffer t = rx_buffer s \<and> rx_buffer_len t = rx_buffer_len s \<and>
     operation_id_counter t = operation_id_counter s \<and> interface_id_counter t = interface_id_counter s \<and>
     node_cache_pos t = node_cache_pos s \<and> map item_id (nodes t) = map item_id (nodes s) \<and>
     map item_inf (nodes t) = map item_inf (nodes s) \<and> map item_addr (nodes t) = map item_addr (nodes s)"

lemma conn_frame_refl [simp]: "conn_frame s s"
  by (simp add: conn_frame_def)

lemma conn_frame_world [simp]: "conn_frame s (s\<lparr>world := w\<rparr>)"
  by (simp add: conn_frame_def nodes_def)

lemma connect_to_node_frame:
  "\<exists>r w. connect_to_node z f a p s = (r, s\<lparr>world := w\<rparr>)"
  by (auto simp: connect_to_node_def Let_def split: prod.splits)

lemma node_intf_create_connection_ok:
  assumes ok: "node_ok s" and i: "i < node_cache_pos s" "item_inf (node_cache s ! i) = Some (NodeIntf b)"
    and intf: "gb_interface_slab s ! b = Some intf"
  shows "\<exists>r t. node_intf_create_connection z intf cport s = Inr (r, t) \<and> node_ok t \<and> conn_frame s t"
proof -
  from entry_okE [OF ok i(1)] obtain c where e: "intf_id intf = item_id (node_cache s ! i)" "ctrl_data intf = Some c"
    "c < length (node_control_data_slab s)" "node_control_data_slab s ! c = Some (item_sock (node_cache s ! i))"
    "entry_ctrl (gb_interface_slab s) (node_cache s ! i) = Some c"
    using i(2) intf by (metis intf_ptr.inject option.inject)
  obtain sk w where conn: "connect_to_node z True (item_addr (node_cache s ! i)) GB_TRANSPORT_TCPIP_BASE_PORT s =
      (sk, s\<lparr>world := w\<rparr>)"
    using connect_to_node_frame [of z True "item_addr (node_cache s ! i)" GB_TRANSPORT_TCPIP_BASE_PORT s] by auto
  define t where "t = pipe_send z (ctrl_set c sk (s\<lparr>world := w,
      node_cache := (node_cache s)[i := (node_cache s ! i)\<lparr>item_sock := sk\<rparr>]\<rparr>))"
  have t: "node_cache t = (node_cache s)[i := (node_cache s ! i)\<lparr>item_sock := sk\<rparr>]"
    "node_control_data_slab t = (node_control_data_slab s)[c := Some sk]"
    "gb_interface_slab t = gb_interface_slab s" "node_cache_pos t = node_cache_pos s"
    by (simp_all add: t_def pipe_send_def ctrl_set_def)
  have "nodes t = (nodes s)[i := (nodes s ! i)\<lparr>item_sock := sk\<rparr>]"
    using i(1) t(1,4) by (simp add: nodes_def take_update_swap)
  then have "map item_id (nodes t) = map item_id (nodes s)" "map item_inf (nodes t) = map item_inf (nodes s)"
    "map item_addr (nodes t) = map item_addr (nodes s)"
    using i(1) length_nodes [OF ok] map_set_sock [of i "nodes s" item_id sk] map_set_sock [of i "nodes s" item_inf sk]
      map_set_sock [of i "nodes s" item_addr sk]
    by simp_all
  then have "conn_frame s t" using t by (simp add: conn_frame_def t_def pipe_send_def ctrl_set_def)
  moreover have "node_ok t" by (rule node_ok_set_sock [OF ok i(1) e(5) t])
  moreover have "node_ok (s\<lparr>world := w\<rparr>)" by (rule node_ok_cong [OF ok]) simp_all
  ultimately show ?thesis
    using ok e conn find_by_id_at [OF ok i(1)]
    by (simp add: node_intf_create_connection_def ctrl_get_def t_def Let_def)
qed

section \<open>Creating and destroying connections\<close>

lemma node_find_by_id_SomeE:
  assumes "node_ok s" "node_find_by_id n s = Some p"
  obtains i b where "i < node_cache_pos s" "item_inf (node_cache s ! i) = Some (NodeIntf b)" "p = NodeIntf b"
    "item_id (node_cache s ! i) = n"
proof -
  let ?r = "node_cache_find_by_id n s"
  have r: "0 \<le> ?r" and p: "item_inf (node_cache s ! nat ?r) = Some p"
    using assms(2) by (auto simp: node_find_by_id_def Let_def split: if_splits)
  note f = find_by_id_found [OF assms(1) r]
  from entry_okE [OF assms(1) f(1)] p that [OF f(1) _ _ f(2)] show ?thesis by (metis option.inject)
qed

lemma create_connection_call_ok:
  assumes ok: "node_ok s" and p: "gb_interface_find_by_id n s = Some p"
  shows "\<exists>r t. create_connection_call z p c s = Inr (r, t) \<and> node_ok t \<and> conn_frame s t"
    and "intf_resolve p s = Some n"
proof -
  have *: "(\<exists>r t. create_connection_call z p c s = Inr (r, t) \<and> node_ok t \<and> conn_frame s t) \<and> intf_resolve p s = Some n"
  proof (cases "n = SVC_INF_ID \<or> n = LOCAL_NODE_ID")
    case True
    then have "p = SvcIntf \<and> n = SVC_INF_ID \<or> p = LocalIntf \<and> n = LOCAL_NODE_ID"
      using p by (auto simp: gb_interface_find_by_id_def svc_interface_def local_node_interface_def gb_consts
          split: if_splits)
    then show ?thesis
      using ok by (auto simp: create_connection_call_def svc_intf_def local_intf_def intf_resolve_def)
  next
    case False
    then have "node_find_by_id n s = Some p" using p by (simp add: gb_interface_find_by_id_def)
    then obtain i b where i: "i < node_cache_pos s" "item_inf (node_cache s ! i) = Some (NodeIntf b)"
      "p = NodeIntf b" "item_id (node_cache s ! i) = n" by (rule node_find_by_id_SomeE [OF ok])
    from entry_okE [OF ok i(1)] obtain intf where e: "b < length (gb_interface_slab s)" "gb_interface_slab s ! b = Some intf"
      "intf_id intf = n" "intf_create_connection intf = Node_intf_create_connection"
      using i(2,4) by (metis intf_ptr.inject option.inject)
    then have d: "intf_deref p s = Inr intf" using i(3) by (simp add: intf_deref_node)
    show ?thesis
      using node_intf_create_connection_ok [OF ok i(1,2) e(2)] d e(3,4)
      by (auto simp: create_connection_call_def intf_resolve_def)
  qed
  from * show "\<exists>r t. create_connection_call z p c s = Inr (r, t) \<and> node_ok t \<and> conn_frame s t" by blast
  from * show "intf_resolve p s = Some n" by blast
qed

lemma conn_frame_route: "conn_frame s t \<Longrightarrow> ap_route t = ap_route s \<and> intf_resolve p t = intf_resolve p s"
  by (auto simp: conn_frame_def ap_route_def intf_resolve_def intf_deref_cong [of t s] fun_eq_iff)

lemma node_ap_add_node_ok: "node_ok s \<Longrightarrow> node_ap_add p c q s = Inr (r, t) \<Longrightarrow> node_ok t"
  by (erule node_ok_cong) (auto simp: node_ap_add_def split: if_splits)

lemma node_ap_add_frame:
  "node_ap_add p c q s = Inr (r, t) \<Longrightarrow> uart_tx t = uart_tx s \<and> msg_heap t = msg_heap s \<and> msg_next t = msg_next s"
  by (auto simp: node_ap_add_def split: if_splits)

lemma connection_create_spec:
  assumes "node_ok s" and "ap_map_ok s"
  shows "\<exists>r s'. connection_create z i1 c1 i2 c2 s = Inr (r, s') \<and> node_ok s' \<and> ap_map_ok s' \<and>
    uart_tx s' = uart_tx s \<and> msg_heap s' = msg_heap s \<and> msg_next s' = msg_next s \<and>
    (if r = 0
     then \<exists>p n c q. ap_end i1 c1 i2 c2 = Some (p, n, c) \<and> gb_interface_find_by_id n s = Some q \<and>
            unat p < AP_MAX_NODES \<and> ap_route s p = None \<and> ap_route s' = (ap_route s)(p \<mapsto> (q, c, n))
     else r < 0 \<and> ap_route s' = ap_route s)"
proof (cases "\<exists>p n c q. ap_end i1 c1 i2 c2 = Some (p, n, c) \<and> gb_interface_find_by_id n s = Some q")
  case False
  then have "connection_create z i1 c1 i2 c2 s = Inr (- EINVAL, s)"
    by (auto simp: connection_create_def split: option.splits)
  then show ?thesis using assms by (simp add: EINVAL_def)
next
  case True
  then obtain p n c q where e: "ap_end i1 c1 i2 c2 = Some (p, n, c)" "gb_interface_find_by_id n s = Some q" by blast
  obtain r t where t: "create_connection_call z q c s = Inr (r, t)" "node_ok t" "conn_frame s t"
    using create_connection_call_ok(1) [OF assms(1) e(2)] by blast
  note fr = conn_frame_route [OF t(3)]
  have fm: "uart_tx t = uart_tx s" "msg_heap t = msg_heap s" "msg_next t = msg_next s"
    using t(3) by (simp_all add: conn_frame_def)
  have okt: "ap_map_ok t" using assms(2) t(3) by (auto simp: conn_frame_def elim: ap_map_ok_update)
  have res: "intf_resolve q t = Some n" using create_connection_call_ok(2) [OF assms(1) e(2)] fr by simp
  show ?thesis
  proof (cases "r < 0")
    case True
    then show ?thesis using e t okt fr fm by (simp add: connection_create_def)
  next
    case False
    have "\<exists>r' u. node_ap_add p c q t = Inr (r', u) \<and> node_ok u \<and> ap_map_ok u \<and>
        uart_tx u = uart_tx s \<and> msg_heap u = msg_heap s \<and> msg_next u = msg_next s \<and>
        (if r' = 0 then unat p < AP_MAX_NODES \<and> ap_route s p = None \<and> ap_route u = (ap_route s)(p \<mapsto> (q, c, n))
         else r' < 0 \<and> ap_route u = ap_route s)"
    proof (cases "unat p < AP_MAX_NODES \<and> ap_route t p = None")
      case True
      from ap.add_free [OF okt _ _ res, of p c] True show ?thesis
        using node_ap_add_node_ok [OF t(2)] node_ap_add_frame [of p c q t] fr fm by fastforce
    next
      case False
      then have "\<exists>e<0. node_ap_add p c q t = Inr (e, t)"
        using ap.add_taken [OF okt, of p c q] ap.add_big [of p c q t] by fastforce
      then show ?thesis using t(2) okt fr fm by fastforce
    qed
    then show ?thesis using False e t(1) by (fastforce simp: connection_create_def)
  qed
qed

text \<open>
  C12. \<open>connection_create\<close> on a consistent state never faults, whatever the network does, and keeps
  the state consistent.  It succeeds only between a free AP CPort below the limit and an interface
  that exists, and then exactly that AP CPort is routed to that interface and CPort and no other
  route changes; in every other case it returns a negative error and changes no route.
\<close>

theorem connection_create_routes:
  assumes "node_ok s" and "ap_map_ok s"
  shows "\<exists>r s'. connection_create z i1 c1 i2 c2 s = Inr (r, s') \<and> node_ok s' \<and> ap_map_ok s' \<and>
    (if r = 0
     then \<exists>p n c q. ap_end i1 c1 i2 c2 = Some (p, n, c) \<and> gb_interface_find_by_id n s = Some q \<and>
            unat p < AP_MAX_NODES \<and> ap_route s p = None \<and> ap_route s' = (ap_route s)(p \<mapsto> (q, c, n))
     else r < 0 \<and> ap_route s' = ap_route s)"
  using connection_create_spec [OF assms, of z i1 c1 i2 c2] by blast

lemma sample_nodes_ap_ok: "ap_map_ok sample_nodes"
  by (auto simp: ap_map_ok_def sample_nodes_def gb_state.defs AP_MAX_NODES_def)

theorem connection_create_routes_witness:
  "\<exists>r s'. connection_create sample_zephyr 1 5 3 0 sample_nodes = Inr (r, s') \<and> node_ok s' \<and> ap_map_ok s' \<and>
    (if r = 0
     then \<exists>p n c q. ap_end 1 5 3 0 = Some (p, n, c) \<and> gb_interface_find_by_id n sample_nodes = Some q \<and>
            unat p < AP_MAX_NODES \<and> ap_route sample_nodes p = None \<and>
            ap_route s' = (ap_route sample_nodes)(p \<mapsto> (q, c, n))
     else r < 0 \<and> ap_route s' = ap_route sample_nodes)"
  by (rule connection_create_routes [OF sample_nodes_ok sample_nodes_ap_ok])

lemma destroy_connection_call_ok:
  assumes ok: "node_ok s" and p: "gb_interface_find_by_id n s = Some p"
  shows "\<exists>t. destroy_connection_call p c s = Inr t \<and> node_ok t \<and> conn_frame s t \<and>
    svc_is_ready t = (svc_is_ready s \<and> \<not> (n = SVC_INF_ID \<and> c = 0))"
proof (cases "n = SVC_INF_ID \<or> n = LOCAL_NODE_ID")
  case True
  then have "p = SvcIntf \<and> n = SVC_INF_ID \<or> p = LocalIntf \<and> n \<noteq> SVC_INF_ID"
    using p by (auto simp: gb_interface_find_by_id_def svc_interface_def local_node_interface_def gb_consts
        split: if_splits)
  moreover have "node_ok (s\<lparr>svc_is_read_flag := False\<rparr>)" by (rule node_ok_cong [OF ok]) simp_all
  moreover have "conn_frame s (s\<lparr>svc_is_read_flag := False\<rparr>)" by (simp add: conn_frame_def nodes_def)
  ultimately show ?thesis
    using ok by (auto simp: destroy_connection_call_def svc_intf_def local_intf_def
        svc_inf_destroy_connection_def local_intf_destroy_connection_def svc_is_ready_def)
next
  case False
  then have "node_find_by_id n s = Some p" using p by (simp add: gb_interface_find_by_id_def)
  then obtain i b where i: "i < node_cache_pos s" "item_inf (node_cache s ! i) = Some (NodeIntf b)"
    "p = NodeIntf b" by (rule node_find_by_id_SomeE [OF ok])
  from entry_okE [OF ok i(1)] obtain intf where "b < length (gb_interface_slab s)" "gb_interface_slab s ! b = Some intf"
    "intf_destroy_connection intf = Node_intf_destroy_connection"
    using i(2) by (metis intf_ptr.inject option.inject)
  then have "destroy_connection_call p c s = Inr s"
    using i(3) by (simp add: destroy_connection_call_def intf_deref_def node_intf_destroy_connection_def)
  then show ?thesis using ok False by simp
qed

lemma connection_destroy_spec:
  assumes "node_ok s" and "ap_map_ok s" and "ap_end i1 c1 i2 c2 = Some (p, n, c)"
  shows "\<exists>s'. connection_destroy i1 c1 i2 c2 s = Inr (0, s') \<and> node_ok s' \<and> ap_map_ok s' \<and>
    uart_tx s' = uart_tx s \<and> msg_heap s' = msg_heap s \<and> msg_next s' = msg_next s \<and>
    ap_route s' = (ap_route s)(p := None) \<and> map item_id (nodes s') = map item_id (nodes s) \<and>
    svc_is_ready s' = (svc_is_ready s \<and> \<not> (n = SVC_INF_ID \<and> c = 0))"
proof -
  have "\<exists>t. (case gb_interface_find_by_id n s of None \<Rightarrow> Inr s | Some q \<Rightarrow> destroy_connection_call q c s) = Inr t \<and>
      node_ok t \<and> conn_frame s t \<and> svc_is_ready t = (svc_is_ready s \<and> \<not> (n = SVC_INF_ID \<and> c = 0))"
  proof (cases "gb_interface_find_by_id n s")
    case None
    then have "n = SVC_INF_ID \<longrightarrow> \<not> svc_is_ready s"
      by (auto simp: gb_interface_find_by_id_def svc_interface_def split: if_splits)
    with None assms(1) show ?thesis by auto
  qed (use destroy_connection_call_ok [OF assms(1)] in simp)
  then obtain t where t: "(case gb_interface_find_by_id n s of None \<Rightarrow> Inr s | Some q \<Rightarrow> destroy_connection_call q c s) = Inr t"
    "node_ok t" "conn_frame s t" "svc_is_ready t = (svc_is_ready s \<and> \<not> (n = SVC_INF_ID \<and> c = 0))" by blast
  let ?u = "snd (node_ap_remove p t)"
  have okt: "ap_map_ok t" using assms(2) t(3) by (auto simp: conn_frame_def elim: ap_map_ok_update)
  have "ap_route ?u = (ap_route t)(p := None)"
  proof (cases "unat p < AP_MAX_NODES")
    case True
    then show ?thesis using ap.remove_in [OF okt] by blast
  next
    case False
    then have "ap_route t p = None" using ap_map_ok_length [OF okt] by (simp add: ap_route_def)
    then show ?thesis using ap.remove_big [of p t] False by (simp add: fun_upd_idem)
  qed
  moreover have "node_ok ?u" by (rule node_ok_cong [OF t(2)]) (simp_all add: node_ap_remove_def)
  moreover have "nodes ?u = nodes t" "svc_is_ready ?u = svc_is_ready t"
    "uart_tx ?u = uart_tx t" "msg_heap ?u = msg_heap t" "msg_next ?u = msg_next t"
    by (simp_all add: node_ap_remove_def nodes_def svc_is_ready_def)
  ultimately show ?thesis
    using t assms(3) node_ap_remove_ok [OF okt, of p] conn_frame_route [OF t(3)]
    by (simp add: connection_destroy_def conn_frame_def)
qed

text \<open>
  C22. \<open>connection_destroy\<close> with the AP at one end always succeeds on a consistent state: the AP's
  CPort is unrouted, every other route stays, the nodes stay, and the SVC stops being ready exactly
  when the request names CPort 0 of the SVC as the other end.
\<close>

theorem connection_destroy_unroutes:
  assumes "node_ok s" and "ap_map_ok s" and "ap_end i1 c1 i2 c2 = Some (p, n, c)"
  shows "\<exists>s'. connection_destroy i1 c1 i2 c2 s = Inr (0, s') \<and> node_ok s' \<and> ap_map_ok s' \<and>
    ap_route s' = (ap_route s)(p := None) \<and> map item_id (nodes s') = map item_id (nodes s) \<and>
    svc_is_ready s' = (svc_is_ready s \<and> \<not> (n = SVC_INF_ID \<and> c = 0))"
  using connection_destroy_spec [OF assms] by blast

theorem connection_destroy_unroutes_witness:
  "\<exists>s'. connection_destroy 1 0 0 0 sample_nodes = Inr (0, s') \<and> node_ok s' \<and> ap_map_ok s' \<and>
    ap_route s' = (ap_route sample_nodes)(0 := None) \<and> map item_id (nodes s') = map item_id (nodes sample_nodes) \<and>
    svc_is_ready s' = (svc_is_ready sample_nodes \<and> \<not> ((0 :: u8) = SVC_INF_ID \<and> (0 :: u16) = 0))"
  by (rule connection_destroy_unroutes [OF sample_nodes_ok sample_nodes_ap_ok]) (simp add: ap_end_def AP_INF_ID_def)

section \<open>Ids that come round\<close>

text \<open>
  Interface ids are reused without a look at those in use.  If the counter has come round to the id of
  a live node, the next node discovered is created all the same, with that id; the two are then
  indistinguishable for the AP, and looking up the id, as \<open>connection_create\<close> does, finds the old
  node's interface, never the new one's.
\<close>

lemma reused_id_reaches_old_node:
  assumes "node_ok s" and "intf_ids_ok s" and "slab_documented z" and "None \<in> set (gb_interface_slab s)"
    and "i < node_cache_pos s" and "item_id (node_cache s ! i) = fst (new_interface_id s)"
  shows "\<exists>b t. node_create_interface z a s = Inr (Some (NodeIntf b), t) \<and>
    nodes t = nodes s @ [new_node (item_id (node_cache s ! i)) a b] \<and>
    gb_interface_find_by_id (item_id (node_cache s ! i)) t = item_inf (node_cache s ! i) \<and>
    item_inf (node_cache s ! i) \<noteq> Some (NodeIntf b)"
proof (cases rule: node_create_interface_cases [OF assms(1,3), of a, case_names full created])
  case (full w)
  then show ?thesis using assms(4) by simp
next
  case (created b c w)
  let ?t = "node_created a b c w s" and ?n = "item_id (node_cache s ! i)"
  note ok = assms(1)
  have i: "i < length (nodes s)" "nodes s ! i = node_cache s ! i"
    using assms(5) length_nodes [OF ok] by (simp_all add: nodes_def)
  have n: "nodes ?t = nodes s @ [new_node ?n a b]" using node_created_nodes [OF ok] assms(6) by simp
  have d: "distinct (map item_id (nodes s))" using ok by (simp add: node_ok_def nodes_ok_def)
  then have "item_id (nodes s ! j) \<noteq> ?n" if "j < i" for j
    using nth_eq_iff_index_eq [OF d, of j i] i that by simp
  then have "first_index (\<lambda>e. item_id e = ?n) (nodes ?t) = Some i"
    using i by (intro first_index_SomeI) (auto simp: n nth_append)
  moreover have "nodes ?t ! i = node_cache ?t ! i"
    using assms(5) by (simp add: nodes_def node_created_def new_interface_id_eq)
  ultimately have "node_find_by_id ?n ?t = item_inf (node_cache s ! i)"
    using i n by (simp add: node_find_by_id_def node_cache_find_by_id_def nth_append)
  moreover have "?n \<noteq> SVC_INF_ID" "?n \<noteq> LOCAL_NODE_ID"
    using new_interface_id_not_static [OF assms(2)] assms(6) by simp_all
  moreover have "entry_ok (gb_interface_slab s) (node_control_data_slab s) (node_cache s ! i)"
    using ok i by (metis node_ok_def nodes_ok_def nth_mem)
  then have "item_inf (node_cache s ! i) \<noteq> Some (NodeIntf b)" using created(2) by (auto simp: entry_ok_def)
  ultimately show ?thesis using created(5) n by (auto simp: gb_interface_find_by_id_def)
qed

lemma reused_id_reaches_old_node_sample:
  "\<exists>b t. node_create_interface sample_zephyr [7] (sample_nodes\<lparr>interface_id_counter := 3\<rparr>) = Inr (Some (NodeIntf b), t) \<and>
    nodes t = nodes (sample_nodes\<lparr>interface_id_counter := 3\<rparr>) @
      [new_node (item_id (node_cache (sample_nodes\<lparr>interface_id_counter := 3\<rparr>) ! 0)) [7] b] \<and>
    gb_interface_find_by_id (item_id (node_cache (sample_nodes\<lparr>interface_id_counter := 3\<rparr>) ! 0)) t =
      item_inf (node_cache (sample_nodes\<lparr>interface_id_counter := 3\<rparr>) ! 0) \<and>
    item_inf (node_cache (sample_nodes\<lparr>interface_id_counter := 3\<rparr>) ! 0) \<noteq> Some (NodeIntf b)"
proof (rule reused_id_reaches_old_node)
  show "node_ok (sample_nodes\<lparr>interface_id_counter := 3\<rparr>)" by (rule node_ok_cong [OF sample_nodes_ok]) simp_all
  show "None \<in> set (gb_interface_slab (sample_nodes\<lparr>interface_id_counter := 3\<rparr>))"
    by (auto simp: sample_nodes_def gb_state.defs intro!: image_eqI [of _ _ 5])
qed (simp_all add: sample_documented intf_ids_ok_def new_interface_id_eq, simp_all add: sample_nodes_def gb_state.defs)

end
