(* ===== verification/Routes.thy ===== *)
theory Routes
  imports Connection
begin

text \<open>
  The route table of apbridge.c against an abstract specification: a partial map from AP CPorts to the
  interface, CPort and id at the other end.  The specification has its own operations and its own result
  codes, written without the array; any sequence of table operations gives the same results and ends in
  the map the specification ends in.
\<close>

section \<open>Specification\<close>

type_synonym routes = "u16 \<rightharpoonup> intf_ptr \<times> u16 \<times> u8"

datatype route_op = Route_Add u16 u16 intf_ptr | Route_Remove u16 | Route_Clear

fun map_op :: "(intf_ptr \<Rightarrow> u8 option) \<Rightarrow> route_op \<Rightarrow> routes \<Rightarrow> int \<times> routes" where
  "map_op ids (Route_Add p c i) m =
     (if 32 \<le> unat p then (- E2BIG, m)
      else if p \<in> dom m then (- EALREADY, m)
      else (0, m(p := map_option (\<lambda>n. (i, c, n)) (ids i))))"
| "map_op ids (Route_Remove p) m = (if 32 \<le> unat p then (- E2BIG, m) else (0, m(p := None)))"
| "map_op ids Route_Clear m = (0, Map.empty)"

fun map_run :: "(intf_ptr \<Rightarrow> u8 option) \<Rightarrow> route_op list \<Rightarrow> routes \<Rightarrow> int list \<times> routes" where
  "map_run ids [] m = ([], m)"
| "map_run ids (a # as) m =
     (let (r, m) = map_op ids a m; (rs, m) = map_run ids as m in (r # rs, m))"

section \<open>Implementation\<close>

fun table_op :: "route_op \<Rightarrow> ('w, 'a) aps \<Rightarrow> (int \<times> ('w, 'a) aps) res" where
  "table_op (Route_Add p c i) s = node_ap_add p c i s"
| "table_op (Route_Remove p) s = Inr (node_ap_remove p s)"
| "table_op Route_Clear s = Inr (0, apbridge_deinit s)"

fun table_run :: "route_op list \<Rightarrow> ('w, 'a) aps \<Rightarrow> (int list \<times> ('w, 'a) aps) res" where
  "table_run [] s = Inr ([], s)"
| "table_run (a # as) s =
     bnd (table_op a s) (\<lambda>(r, s). bnd (table_run as s) (\<lambda>(rs, s). Inr (r # rs, s)))"

fun op_resolves :: "('w, 'a) aps \<Rightarrow> route_op \<Rightarrow> bool" where
  "op_resolves s (Route_Add p c i) = (intf_resolve i s \<noteq> None)"
| "op_resolves s (Route_Remove p) = True"
| "op_resolves s Route_Clear = True"

lemma intf_resolve_map [simp]: "intf_resolve i (s\<lparr>node_ap_map := m\<rparr>) = intf_resolve i s"
  using intf_deref_cong [of "s\<lparr>node_ap_map := m\<rparr>" s i] by (simp add: intf_resolve_def)

lemma table_op_refines:
  assumes "ap_map_ok s" "op_resolves s a"
  shows "\<exists>r m. table_op a s = Inr (r, s\<lparr>node_ap_map := m\<rparr>) \<and> ap_map_ok (s\<lparr>node_ap_map := m\<rparr>) \<and>
    map_op (\<lambda>i. intf_resolve i s) a (ap_route s) = (r, ap_route (s\<lparr>node_ap_map := m\<rparr>))"
proof (cases a)
  case (Route_Add p c i)
  obtain intf where d: "intf_deref i s = Inr intf" "intf_resolve i s = Some (intf_id intf)"
    using assms(2) Route_Add by (auto simp: intf_resolve_def split: sum.splits)
  have len: "length (node_ap_map s) = 32" using ap_map_ok_length [OF assms(1)] by (simp add: AP_MAX_NODES_def)
  then have dom: "unat p < 32 \<Longrightarrow> p \<in> dom (ap_route s) \<longleftrightarrow> node_intf (node_ap_map s ! unat p) \<noteq> None"
    by (auto simp: ap_route_def Let_def)
  consider "32 \<le> unat p" | "unat p < 32" "p \<in> dom (ap_route s)" | "unat p < 32" "p \<notin> dom (ap_route s)" by linarith
  then show ?thesis
  proof cases
    case 3
    let ?m = "(node_ap_map s)[unat p := \<lparr>node_intf = Some i, node_cport = c, node_id = intf_id intf\<rparr>]"
    have add: "node_ap_add p c i s = Inr (0, s\<lparr>node_ap_map := ?m\<rparr>)"
      using 3 dom d by (simp add: node_ap_add_def AP_MAX_NODES_def)
    with 3 Route_Add d len node_ap_add_ok [OF assms(1) add] show ?thesis
      by (intro exI [of _ 0] exI [of _ ?m]) (simp add: ap_route_update)
  next
    case 1
    with Route_Add assms(1) show ?thesis
      by (intro exI [of _ "- E2BIG"] exI [of _ "node_ap_map s"]) (simp add: node_ap_add_def AP_MAX_NODES_def)
  next
    case 2
    with Route_Add dom assms(1) show ?thesis
      by (intro exI [of _ "- EALREADY"] exI [of _ "node_ap_map s"]) (auto simp: node_ap_add_def AP_MAX_NODES_def)
  qed
next
  case (Route_Remove p)
  have len: "length (node_ap_map s) = 32" using ap_map_ok_length [OF assms(1)] by (simp add: AP_MAX_NODES_def)
  let ?m = "if 32 \<le> unat p then node_ap_map s else (node_ap_map s)[unat p := empty_item]"
  have "node_ap_remove p s = (if 32 \<le> unat p then - E2BIG else 0, s\<lparr>node_ap_map := ?m\<rparr>)"
    by (simp add: node_ap_remove_def AP_MAX_NODES_def)
  with Route_Remove len node_ap_remove_ok [OF assms(1), of p] show ?thesis
    by (intro exI [of _ "if 32 \<le> unat p then - E2BIG else 0"] exI [of _ ?m])
      (auto simp: ap_route_update empty_item_def)
next
  case Route_Clear
  have "ap_route (apbridge_deinit s) = Map.empty"
    by (rule ext) (simp add: ap_route_def apbridge_deinit_def empty_item_def Let_def)
  with Route_Clear apbridge_deinit_ok [OF assms(1)] show ?thesis by (auto simp: apbridge_deinit_def)
qed

text \<open>
  C7. The route table refines a partial map: from any consistent state, any sequence of
  \<open>node_ap_add\<close>, \<open>node_ap_remove\<close> and \<open>apbridge_deinit\<close> on live interfaces returns, with the
  very result codes of the specification (out of range, already connected, done), and the table then
  stands for the map the specification computes; the table stays consistent.
\<close>

theorem route_table_refines_map:
  assumes "ap_map_ok s" and "\<forall>a \<in> set as. op_resolves s a"
  shows "\<exists>rs s'. table_run as s = Inr (rs, s') \<and> ap_map_ok s' \<and>
    map_run (\<lambda>i. intf_resolve i s) as (ap_route s) = (rs, ap_route s')"
  using assms
proof (induction as arbitrary: s)
  case (Cons a as)
  from table_op_refines [OF Cons.prems(1), of a] Cons.prems(2) obtain r m where a:
    "table_op a s = Inr (r, s\<lparr>node_ap_map := m\<rparr>)" "ap_map_ok (s\<lparr>node_ap_map := m\<rparr>)"
    "map_op (\<lambda>i. intf_resolve i s) a (ap_route s) = (r, ap_route (s\<lparr>node_ap_map := m\<rparr>))" by auto
  have "op_resolves (s\<lparr>node_ap_map := m\<rparr>) b = op_resolves s b" for b by (cases b) simp_all
  with Cons.IH [OF a(2)] Cons.prems(2) obtain rs s' where "table_run as (s\<lparr>node_ap_map := m\<rparr>) = Inr (rs, s')"
    "ap_map_ok s'" "map_run (\<lambda>i. intf_resolve i s) as (ap_route (s\<lparr>node_ap_map := m\<rparr>)) = (rs, ap_route s')" by auto
  with a show ?case by (intro exI [of _ "r # rs"] exI [of _ s']) simp
qed simp

theorem route_table_refines_map_witness:
  "\<exists>rs s'. table_run [Route_Add 5 1 (NodeIntf 0), Route_Add 5 2 (NodeIntf 1), Route_Remove 40, Route_Clear] sample_nodes = Inr (rs, s') \<and>
    ap_map_ok s' \<and> map_run (\<lambda>i. intf_resolve i sample_nodes)
      [Route_Add 5 1 (NodeIntf 0), Route_Add 5 2 (NodeIntf 1), Route_Remove 40, Route_Clear] (ap_route sample_nodes) = (rs, ap_route s')"
  by (rule route_table_refines_map [OF sample_nodes_ap_ok])
    (simp add: intf_resolve_def intf_deref_def sample_nodes_def gb_state.defs)

end
