(* ===== verification/Message_Users.thy ===== *)
theory Message_Users
  imports Svc_Uplink
begin

text \<open>
  What the code that builds and sends messages may touch.  A property of the state that survives the
  elementary effects of greybus_messages.c, the UART and the platform survives every operation that
  allocates, fills, sends and frees messages; each property of interest is an interpretation.
\<close>

section \<open>What calls into the platform leave alone\<close>

text \<open>
  The hidden state of the platform before and after a call is related by \<open>R\<close>, for every call the
  sources make except those on the receive ring and the read from the UART.
\<close>

definition calls_keep :: "'w zephyr \<Rightarrow> ('w \<Rightarrow> 'w \<Rightarrow> bool) \<Rightarrow> bool" where
  "calls_keep z R \<longleftrightarrow> (\<forall>w.
     R w (snd (uart_irq_update z w)) \<and> R w (snd (uart_irq_rx_ready z w)) \<and>
     (\<forall>n. R w (snd (k_heap_alloc z n w))) \<and> (\<forall>p. R w (k_heap_free z p w)) \<and>
     (\<forall>occ. R w (snd (k_mem_slab_alloc z occ w))) \<and>
     (\<forall>inet6. R w (snd (zsock_socket z inet6 w))) \<and> (\<forall>k a port. R w (snd (zsock_connect z k a port w))) \<and>
     (\<forall>k. R w (zsock_close z k w)) \<and> (\<forall>k bs. R w (snd (zsock_send z k bs w))) \<and>
     (\<forall>k n. R w (snd (snd (zsock_recv z k n w)))) \<and> (\<forall>fds tm. R w (snd (snd (zsock_poll z fds tm w)))) \<and>
     R w (snd (snd (snd (zsock_socketpair z w)))) \<and> R w (snd (device_is_ready z w)) \<and>
     R w (snd (uart_irq_callback_user_data_set z w)) \<and> R w (uart_irq_rx_enable z w) \<and>
     R w (snd (zsock_socket_dgram z w)) \<and> (\<forall>k. R w (zsock_reuse z k w)) \<and>
     (\<forall>k port. R w (snd (zsock_bind z k port w))) \<and> (\<forall>k. R w (snd (snd (snd (zsock_getsockname z k w))))) \<and>
     (\<forall>k bs a port. R w (snd (zsock_sendto z k bs a port w))) \<and>
     (\<forall>k n. R w (snd (snd (snd (zsock_recvfrom z k n w))))) \<and>
     R w (snd (net_if_get_default z w)) \<and> (\<forall>a. R w (snd (net_if_ipv6_maddr_add z a w))) \<and>
     R w (net_if_ipv6_maddr_join z w))"

locale world_frame =
  fixes z :: "'w zephyr" and R :: "'w \<Rightarrow> 'w \<Rightarrow> bool"
  assumes R_refl: "R w w"
    and R_trans: "R u v \<Longrightarrow> R v w \<Longrightarrow> R u w"
    and R_calls: "calls_keep z R"
begin

text \<open>Each call extends a chain of related states, in the form in which the sources use it.\<close>

lemma R_step:
  assumes "R u w"
  shows "R u (snd (uart_irq_update z w))" "R u (snd (uart_irq_rx_ready z w))"
    "R u (snd (k_heap_alloc z n w))" "R u (k_heap_free z p w)" "R u (snd (k_mem_slab_alloc z occ w))"
    "R u (snd (zsock_socket z inet6 w))" "R u (snd (zsock_connect z k a port w))" "R u (zsock_close z k w)"
    "R u (snd (zsock_send z k bs w))" "R u (snd (snd (zsock_recv z k n w)))" "R u (snd (snd (zsock_poll z fds tm w)))"
    "R u (snd (snd (snd (zsock_socketpair z w))))" "R u (snd (device_is_ready z w))"
    "R u (snd (uart_irq_callback_user_data_set z w))" "R u (uart_irq_rx_enable z w)"
    "R u (snd (zsock_socket_dgram z w))" "R u (zsock_reuse z k w)" "R u (snd (zsock_bind z k port w))"
    "R u (snd (snd (snd (zsock_getsockname z k w))))" "R u (snd (zsock_sendto z k bs a port w))"
    "R u (snd (snd (snd (zsock_recvfrom z k n w))))" "R u (snd (net_if_get_default z w))"
    "R u (snd (net_if_ipv6_maddr_add z a w))" "R u (net_if_ipv6_maddr_join z w)"
  using R_calls unfolding calls_keep_def by (auto intro: R_trans [OF assms])

end

section \<open>Building and sending messages\<close>

text \<open>
  A message as \<open>gb_message_alloc\<close> makes it, on a platform whose heap hands out blocks of the requested
  size and none larger than itself: the size field of its header is the size of its block.
\<close>

definition MESSAGES_HEAP_SIZE :: nat where "MESSAGES_HEAP_SIZE = 4096"

definition heap_bounded :: "'w zephyr \<Rightarrow> bool" where
  "heap_bounded z \<longleftrightarrow> (\<forall>n w blk w'. k_heap_alloc z n w = (Some blk, w') \<longrightarrow> n \<le> MESSAGES_HEAP_SIZE)"

definition typed_msg :: "gb_message \<Rightarrow> bool" where
  "typed_msg m \<longleftrightarrow> wf_msg m \<and> hdr_len + length (payload m) \<le> MESSAGES_HEAP_SIZE"

lemma alloc_typed:
  assumes "heap_documented z" "heap_bounded z" "k_heap_alloc z n w = (Some blk, w')" "hdr_len \<le> length blk"
  shows "typed_msg \<lparr>header = \<lparr>hdr_size = of_nat n, hdr_operation_id = op, hdr_type = ty, hdr_result = st, hdr_pad = pad\<rparr>,
    payload = drop hdr_len blk\<rparr>"
proof -
  have n: "length blk = n" "n \<le> 4096"
    using heap_block_length [OF assms(1,3)] assms(2,3) by (auto simp: heap_bounded_def MESSAGES_HEAP_SIZE_def)
  then have "unat (of_nat n :: u16) = n" by (simp add: unat_of_nat_u16)
  then show ?thesis using n assms(4) by (simp add: typed_msg_def wf_msg_def MESSAGES_HEAP_SIZE_def)
qed

locale message_user = world_frame z R for z :: "'w zephyr" and R +
  fixes I :: "('w, 'a) aps \<Rightarrow> bool"
  assumes I_world: "I s \<Longrightarrow> R (world s) w \<Longrightarrow> I (s\<lparr>world := w\<rparr>)"
    and I_uart: "I s \<Longrightarrow> I (s\<lparr>uart_tx := b\<rparr>)"
    and I_op_id: "I s \<Longrightarrow> I (snd (new_operation_id s))"
    and I_alloc: "I s \<Longrightarrow> (heap_documented z \<Longrightarrow> heap_bounded z \<Longrightarrow> typed_msg m) \<Longrightarrow>
      I (s\<lparr>msg_heap := (msg_heap s)(msg_next s \<mapsto> m), msg_next := msg_next s + 1\<rparr>)"
    and I_free: "I s \<Longrightarrow> I (s\<lparr>msg_heap := (msg_heap s)(p := None)\<rparr>)"
    and I_write: "I s \<Longrightarrow> msg_heap s p = Some m \<Longrightarrow> header m' = header m \<Longrightarrow>
      length (payload m') = length (payload m) \<Longrightarrow> I (s\<lparr>msg_heap := (msg_heap s)(p \<mapsto> m')\<rparr>)"
begin

abbreviation I_pair :: "'r \<times> ('w, 'a) aps \<Rightarrow> bool" where
  "I_pair rt \<equiv> I (snd rt)"

lemma alloc_keeps: "I s \<Longrightarrow> okr I_pair (gb_message_alloc z n ty op st s)"
proof -
  assume I: "I s"
  obtain blk w where a: "k_heap_alloc z (size_add hdr_len n) (world s) = (blk, w)" by fastforce
  then have w: "I (s\<lparr>world := w\<rparr>)" using I_world [OF I] R_step(3) [OF R_refl] by (metis snd_conv)
  have "I (s\<lparr>world := w, msg_heap := (msg_heap s)(msg_next s \<mapsto> m), msg_next := msg_next s + 1\<rparr>)"
    if "heap_documented z \<Longrightarrow> heap_bounded z \<Longrightarrow> typed_msg m" for m
    using I_alloc [OF w that] by simp
  then show ?thesis using w a by (auto simp: gb_message_alloc_def Let_def alloc_typed split: option.split)
qed

lemma dealloc_keeps: "I s \<Longrightarrow> okr I (gb_message_dealloc z p s)"
proof -
  assume I: "I s"
  have "I (s\<lparr>world := k_heap_free z p (world s), msg_heap := (msg_heap s)(p := None)\<rparr>)"
    using I_free [OF I_world [OF I R_step(4) [OF R_refl]], of p p] by simp
  then show ?thesis by (auto simp: gb_message_dealloc_def split: option.split)
qed

lemma payload_write_keeps: "I s \<Longrightarrow> okr I (msg_payload_write p bs s)"
  by (auto simp: msg_payload_write_def msg_get_def okr_def split: option.split sum.split intro!: I_write dest: buf_write_length)

lemma fill_message_keeps: "I s \<Longrightarrow> okr I_pair (fill_message p bs s)"
  by (auto simp: fill_message_def split: option.split intro!: okr_bnd [OF payload_write_keeps])

lemma request_alloc_keeps: "I s \<Longrightarrow> okr I_pair (gb_message_request_alloc z bs ty one s)"
  using I_op_id [of s]
  by (cases "new_operation_id s")
    (auto simp: gb_message_request_alloc_def Let_def split_def
      intro!: okr_bnd [OF alloc_keeps] fill_message_keeps)

lemma response_alloc_keeps: "I s \<Longrightarrow> okr I_pair (gb_message_response_alloc z bs ty op st s)"
  by (auto simp: gb_message_response_alloc_def split_def intro!: okr_bnd [OF alloc_keeps] fill_message_keeps)

lemma block_send_keeps: "I s \<Longrightarrow> okr I_pair (hdlc_block_send_sync hdlc_send_callback z b n a 3 s)"
proof (cases "n \<le> length b")
  case True
  assume "I s"
  then show ?thesis by (simp add: hdlc_block_send_uart [OF True] I_uart)
next
  case False
  then show ?thesis by (simp add: hdlc_block_send_sync_def buf_read_def)
qed

lemma ap_send_keeps: "I s \<Longrightarrow> okr I_pair (ap_send z p c s)"
  by (auto simp: ap_send_def gb_message_hdlc_send_def split_def bnd_assoc
      intro!: okr_any [where m = "msg_get p s" for p s] okr_any [where m = "buf_read b i n" for b i n]
        okr_any [where m = "buf_write b i c" for b i c] okr_bnd [OF block_send_keeps] okr_bnd [OF dealloc_keeps])

lemma connection_send_to_ap_keeps: "I s \<Longrightarrow> okr I_pair (connection_send_to_ap z n c p s)"
  by (simp add: connection_send_to_ap_def Let_def ap_send_keeps)

lemma control_send_request_keeps: "I s \<Longrightarrow> okr I_pair (control_send_request z bs ty s)"
  by (auto simp: control_send_request_def split_def split: option.split
      intro!: okr_bnd [OF request_alloc_keeps] okr_bnd [OF connection_send_to_ap_keeps])

lemma svc_response_helper_keeps: "I s \<Longrightarrow> okr I (svc_response_helper z p bs st s)"
  by (auto simp: svc_response_helper_def split_def split: option.split
      intro!: okr_any [where m = "msg_get p s" for p s] okr_bnd [OF response_alloc_keeps]
        okr_bnd [OF connection_send_to_ap_keeps])

end

end
