(* ===== verification/Svc.thy ===== *)
theory Svc
  imports Connection
begin

text \<open>
  The SVC: the handlers of src/svc.c for the requests and responses the AP sends to it.  A handler
  gets a pointer to the message and leaves freeing it to \<open>svc_inf_write\<close>.
\<close>

section \<open>Handlers\<close>

text \<open>The version numbers are only logged, but reading them reads the payload.\<close>

definition svc_version_response_handler :: "'w zephyr \<Rightarrow> nat \<Rightarrow> ('w, 'a) ns \<Rightarrow> ('w, 'a) ns res" where
  "svc_version_response_handler z msg s =
     bnd (msg_get msg s) (\<lambda>m.
     bnd (buf_get (payload m) 0) (\<lambda>major.
     bnd (buf_get (payload m) 1) (\<lambda>minor.
     bnd (svc_send_hello z s) (\<lambda>(ret, s). Inr s))))"

definition svc_hello_response_handler :: "'w zephyr \<Rightarrow> nat \<Rightarrow> ('w, 'a) ns \<Rightarrow> ('w, 'a) ns res" where
  "svc_hello_response_handler z msg s = Inr s"

definition svc_empty_request_handler :: "'w zephyr \<Rightarrow> nat \<Rightarrow> ('w, 'a) ns \<Rightarrow> ('w, 'a) ns res" where
  "svc_empty_request_handler z msg s = svc_response_helper z msg [] GB_SVC_OP_SUCCESS s"

definition svc_pwrm_get_rail_count_handler :: "'w zephyr \<Rightarrow> nat \<Rightarrow> ('w, 'a) ns \<Rightarrow> ('w, 'a) ns res" where
  "svc_pwrm_get_rail_count_handler z msg s =
     svc_response_helper z msg (gb_svc_result_code_response 0) GB_SVC_OP_SUCCESS s"

definition svc_intf_set_pwrm_handler :: "'w zephyr \<Rightarrow> nat \<Rightarrow> ('w, 'a) ns \<Rightarrow> ('w, 'a) ns res" where
  "svc_intf_set_pwrm_handler z msg s =
     bnd (msg_get msg s) (\<lambda>m.
     bnd (gb_svc_intf_set_pwrm_modes (payload m)) (\<lambda>(tx_mode, rx_mode).
       let result_code =
         (if tx_mode = GB_SVC_UNIPRO_HIBERNATE_MODE \<and> rx_mode = GB_SVC_UNIPRO_HIBERNATE_MODE
          then GB_SVC_SETPWRM_PWR_OK else GB_SVC_SETPWRM_PWR_LOCAL)
       in svc_response_helper z msg (gb_svc_result_code_response result_code) GB_SVC_OP_SUCCESS s))"

definition svc_intf_vsys_enable_disable_handler :: "'w zephyr \<Rightarrow> nat \<Rightarrow> ('w, 'a) ns \<Rightarrow> ('w, 'a) ns res" where
  "svc_intf_vsys_enable_disable_handler z msg s =
     svc_response_helper z msg (gb_svc_result_code_response GB_SVC_INTF_VSYS_OK) GB_SVC_OP_SUCCESS s"

definition svc_interface_refclk_enable_disable_handler ::
  "'w zephyr \<Rightarrow> nat \<Rightarrow> ('w, 'a) ns \<Rightarrow> ('w, 'a) ns res" where
  "svc_interface_refclk_enable_disable_handler z msg s =
     svc_response_helper z msg (gb_svc_result_code_response GB_SVC_INTF_REFCLK_OK) GB_SVC_OP_SUCCESS s"

definition svc_interface_unipro_enable_disable_handler ::
  "'w zephyr \<Rightarrow> nat \<Rightarrow> ('w, 'a) ns \<Rightarrow> ('w, 'a) ns res" where
  "svc_interface_unipro_enable_disable_handler z msg s =
     svc_response_helper z msg (gb_svc_result_code_response GB_SVC_INTF_UNIPRO_OK) GB_SVC_OP_SUCCESS s"

definition svc_interface_activate_handler :: "'w zephyr \<Rightarrow> nat \<Rightarrow> ('w, 'a) ns \<Rightarrow> ('w, 'a) ns res" where
  "svc_interface_activate_handler z msg s =
     svc_response_helper z msg (gb_svc_intf_activate_response GB_SVC_OP_SUCCESS GB_SVC_INTF_TYPE_GREYBUS)
       GB_SVC_OP_SUCCESS s"

definition svc_dme_peer_get_handler :: "'w zephyr \<Rightarrow> nat \<Rightarrow> ('w, 'a) ns \<Rightarrow> ('w, 'a) ns res" where
  "svc_dme_peer_get_handler z msg s =
     svc_response_helper z msg (gb_svc_dme_peer_get_response 0 0x0126) GB_SVC_OP_SUCCESS s"

definition svc_dme_peer_set_handler :: "'w zephyr \<Rightarrow> nat \<Rightarrow> ('w, 'a) ns \<Rightarrow> ('w, 'a) ns res" where
  "svc_dme_peer_set_handler z msg s =
     svc_response_helper z msg (gb_svc_dme_peer_set_response 0) GB_SVC_OP_SUCCESS s"

definition svc_connection_create_handler :: "'w zephyr \<Rightarrow> nat \<Rightarrow> ('w, 'a) ns \<Rightarrow> ('w, 'a) ns res" where
  "svc_connection_create_handler z msg s =
     bnd (msg_get msg s) (\<lambda>m.
     bnd (gb_svc_conn_request_read (payload m)) (\<lambda>req.
       if intf1_id req = intf2_id req \<and> cport1_id req = cport2_id req
       then svc_response_helper z msg [] GB_SVC_OP_UNKNOWN_ERROR s
       else bnd (connection_create z (intf1_id req) (cport1_id req) (intf2_id req) (cport2_id req) s)
         (\<lambda>(ret, s). if ret < 0 then svc_response_helper z msg [] GB_SVC_OP_UNKNOWN_ERROR s
                     else svc_response_helper z msg [] GB_SVC_OP_SUCCESS s)))"

definition svc_connection_destroy_handler :: "'w zephyr \<Rightarrow> nat \<Rightarrow> ('w, 'a) ns \<Rightarrow> ('w, 'a) ns res" where
  "svc_connection_destroy_handler z msg s =
     bnd (msg_get msg s) (\<lambda>m.
     bnd (gb_svc_conn_request_read (payload m)) (\<lambda>req.
     bnd (connection_destroy (intf1_id req) (cport1_id req) (intf2_id req) (cport2_id req) s)
       (\<lambda>(ret, s). if ret < 0 then svc_response_helper z msg [] GB_SVC_OP_UNKNOWN_ERROR s
                   else svc_response_helper z msg [] GB_SVC_OP_SUCCESS s)))"

definition svc_interface_resume_handler :: "'w zephyr \<Rightarrow> nat \<Rightarrow> ('w, 'a) ns \<Rightarrow> ('w, 'a) ns res" where
  "svc_interface_resume_handler z msg s =
     svc_response_helper z msg (gb_svc_result_code_response GB_SVC_OP_SUCCESS) GB_SVC_OP_SUCCESS s"

text \<open>The handlers of the AP's answers to our events read the status and only log it.\<close>

definition svc_module_inserted_response_handler :: "'w zephyr \<Rightarrow> nat \<Rightarrow> ('w, 'a) ns \<Rightarrow> ('w, 'a) ns res" where
  "svc_module_inserted_response_handler z msg s =
     bnd (msg_get msg s) (\<lambda>m. if \<not> gb_message_is_success m then Inr s else Inr s)"

definition svc_module_removed_response_handler :: "'w zephyr \<Rightarrow> nat \<Rightarrow> ('w, 'a) ns \<Rightarrow> ('w, 'a) ns res" where
  "svc_module_removed_response_handler z msg s =
     bnd (msg_get msg s) (\<lambda>m. if \<not> gb_message_is_success m then Inr s else Inr s)"

definition gb_handle_msg :: "'w zephyr \<Rightarrow> nat \<Rightarrow> ('w, 'a) ns \<Rightarrow> ('w, 'a) ns res" where
  "gb_handle_msg z msg s =
     bnd (msg_get msg s) (\<lambda>m.
       let ty = gb_message_type m in
       if ty \<in> {GB_SVC_TYPE_INTF_DEVICE_ID, GB_SVC_TYPE_ROUTE_CREATE, GB_SVC_TYPE_ROUTE_DESTROY, GB_SVC_TYPE_PING}
       then svc_empty_request_handler z msg s
       else if ty = GB_SVC_TYPE_CONN_CREATE then svc_connection_create_handler z msg s
       else if ty = GB_SVC_TYPE_CONN_DESTROY then svc_connection_destroy_handler z msg s
       else if ty = GB_SVC_TYPE_DME_PEER_GET then svc_dme_peer_get_handler z msg s
       else if ty = GB_SVC_TYPE_DME_PEER_SET then svc_dme_peer_set_handler z msg s
       else if ty = GB_SVC_TYPE_INTF_SET_PWRM then svc_intf_set_pwrm_handler z msg s
       else if ty = GB_SVC_TYPE_PWRMON_RAIL_COUNT_GET then svc_pwrm_get_rail_count_handler z msg s
       else if ty \<in> {GB_SVC_TYPE_INTF_VSYS_ENABLE, GB_SVC_TYPE_INTF_VSYS_DISABLE}
       then svc_intf_vsys_enable_disable_handler z msg s
       else if ty \<in> {GB_SVC_TYPE_INTF_REFCLK_ENABLE, GB_SVC_TYPE_INTF_REFCLK_DISABLE}
       then svc_interface_refclk_enable_disable_handler z msg s
       else if ty \<in> {GB_SVC_TYPE_INTF_UNIPRO_ENABLE, GB_SVC_TYPE_INTF_UNIPRO_DISABLE}
       then svc_interface_unipro_enable_disable_handler z msg s
       else if ty = GB_SVC_TYPE_INTF_ACTIVATE then svc_interface_activate_handler z msg s
       else if ty = GB_SVC_TYPE_INTF_RESUME then svc_interface_resume_handler z msg s
       else if ty = GB_RESPONSE GB_SVC_TYPE_PROTOCOL_VERSION then svc_version_response_handler z msg s
       else if ty = GB_RESPONSE GB_SVC_TYPE_SVC_HELLO then svc_hello_response_handler z msg s
       else if ty = GB_RESPONSE GB_SVC_TYPE_MODULE_INSERTED then svc_module_inserted_response_handler z msg s
       else if ty = GB_RESPONSE GB_SVC_TYPE_MODULE_REMOVED then svc_module_removed_response_handler z msg s
       else Inr s)"

definition svc_inf_write :: "'w zephyr \<Rightarrow> nat \<Rightarrow> u16 \<Rightarrow> ('w, 'a) ns \<Rightarrow> (int \<times> ('w, 'a) ns) res" where
  "svc_inf_write z msg cport_id s =
     (if cport_id \<noteq> 0 then Inr (-1, s)
      else bnd (gb_handle_msg z msg s) (\<lambda>s. bnd (gb_message_dealloc z msg s) (\<lambda>s. Inr (0, s))))"

section \<open>What the SVC promises\<close>

text \<open>
  The specification of the SVC's answers: for each request that is answered without touching any
  connection, the payload of the response.  \<open>None\<close> means that the request is not one of these (or is
  too short to be one).
\<close>

definition svc_reply :: "u8 \<Rightarrow> byte list \<Rightarrow> byte list option" where
  "svc_reply ty pl =
     (if ty \<in> {0x03, 0x0b, 0x0c, 0x13} then Some []
      else if ty = 0x09 then Some [0, 0, 0x26, 0x01, 0, 0]
      else if ty = 0x0a then Some [0, 0]
      else if ty = 0x10 then if 8 \<le> length pl then Some [if pl ! 2 = 0x11 \<and> pl ! 7 = 0x11 then 0 else 1] else None
      else if ty \<in> {0x14, 0x21, 0x22, 0x23, 0x24, 0x25, 0x26, 0x28} then Some [0]
      else if ty = 0x27 then Some [0, 3]
      else None)"

text \<open>
  Every answer goes through \<open>svc_response_helper\<close> with the message still live; what a handler does
  is therefore determined by the payload and status it passes.
\<close>

lemma dme_attr_low: "(0x126 :: u8) = 0x26"
  by code_simp

lemma gb_handle_msg_reply:
  assumes "msg_heap s p = Some m" "svc_reply (hdr_type (header m)) (payload m) = Some pl"
  shows "gb_handle_msg z p s = svc_response_helper z p pl 0 s"
  using assms
  by (auto simp: gb_handle_msg_def msg_get_def gb_message_type_def svc_reply_def gb_consts
      svc_empty_request_handler_def svc_dme_peer_get_handler_def svc_dme_peer_set_handler_def
      svc_intf_set_pwrm_handler_def gb_svc_intf_set_pwrm_modes_def svc_pwrm_get_rail_count_handler_def
      svc_intf_vsys_enable_disable_handler_def svc_interface_refclk_enable_disable_handler_def
      svc_interface_unipro_enable_disable_handler_def svc_interface_activate_handler_def
      svc_interface_resume_handler_def gb_payload_defs le16_def dme_attr_low split: if_splits)

definition svc_ready_for :: "'w zephyr \<Rightarrow> nat \<Rightarrow> nat \<Rightarrow> ('w, 'a) ns \<Rightarrow> bool" where
  "svc_ready_for z n j s \<longleftrightarrow> heap_documented z \<and> heap_room z (hdr_len + n) \<and> heap_ok s \<and>
     node_to_ap_cport SVC_INF_ID 0 s = int j"

lemma svc_response_helper_room:
  assumes "svc_ready_for z (length pl) j s" "length pl \<le> 246" "msg_heap s p = Some m"
  obtains pad w where "svc_response_helper z p pl st s =
    Inr (uplinked z (of_nat j) (sent_msg (GB_OP_RESPONSE OR hdr_type (header m))
           (hdr_operation_id (header m)) st pad pl) w s)"
proof -
  obtain blk w where "k_heap_alloc z (hdr_len + length pl) (world s) = (Some blk, w)"
    using assms(1) unfolding svc_ready_for_def by (meson heap_roomE)
  from svc_response_helper_eq [OF _ _ assms(2) _ assms(3) this, of j st] assms(1) that
  show ?thesis by (auto simp: svc_ready_for_def)
qed

text \<open>
  What a client sees of one SVC operation: the answer in one frame, the request given back to the
  heap, nothing else changed.
\<close>

definition answered ::
  "'w zephyr \<Rightarrow> nat \<Rightarrow> nat \<Rightarrow> gb_message \<Rightarrow> u8 \<Rightarrow> byte list \<Rightarrow> ('w, 'a) ns \<Rightarrow> ('w, 'a) ns \<Rightarrow> bool" where
  "answered z j p m st pl s s' \<longleftrightarrow>
     (\<exists>pad. uart_tx s' = uart_tx s @ ap_frame z (of_nat j)
        (sent_msg (GB_OP_RESPONSE OR hdr_type (header m)) (hdr_operation_id (header m)) st pad pl)) \<and>
     msg_heap s' = (msg_heap s)(p := None) \<and> node_ap_map s' = node_ap_map s \<and> nodes s' = nodes s \<and>
     gb_interface_slab s' = gb_interface_slab s \<and> svc_is_ready s' = svc_is_ready s"

lemma respond_and_free:
  assumes "svc_ready_for z (length pl) j s" "length pl \<le> 246" "msg_heap s p = Some m"
  shows "\<exists>s'. bnd (svc_response_helper z p pl st s) (\<lambda>s. bnd (gb_message_dealloc z p s) (\<lambda>s. Inr (0 :: int, s))) =
      Inr (0, s') \<and> answered z j p m st pl s s'"
proof -
  obtain pad w where "svc_response_helper z p pl st s =
      Inr (uplinked z (of_nat j) (sent_msg (GB_OP_RESPONSE OR hdr_type (header m))
             (hdr_operation_id (header m)) st pad pl) w s)"
    by (rule svc_response_helper_room [OF assms])
  then show ?thesis
    using assms(3)
    by (cases pad) (auto simp: gb_message_dealloc_def answered_def nodes_def svc_is_ready_def uplinked_def)
qed

lemma svc_reply_length: "svc_reply ty bs = Some pl \<Longrightarrow> length pl \<le> 6"
  by (auto simp: svc_reply_def split: if_splits)

text \<open>
  C13. The SVC answers every request it supports, once: for every request type with a fixed answer, and
  every request of sufficient length, \<open>svc_inf_write\<close> returns success, exactly one frame goes to the
  AP, it holds a response (type with bit 7 set) with the operation id of the request, status 0 and the
  payload the specification \<open>svc_reply\<close> gives, the request is freed, nothing else is left on the
  heap, and routes, nodes and the ready flag are as before.
\<close>

theorem svc_answers_once:
  assumes "msg_heap s p = Some m" and "svc_reply (hdr_type (header m)) (payload m) = Some pl"
    and "svc_ready_for z (length pl) j s"
  shows "\<exists>s'. svc_inf_write z p 0 s = Inr (0, s') \<and> answered z j p m 0 pl s s'"
  using respond_and_free [OF assms(3) _ assms(1), of 0] svc_reply_length [OF assms(2)]
  by (simp add: svc_inf_write_def gb_handle_msg_reply [OF assms(1,2)])

lemma sample_nodes_svc_ready: "svc_ready_for sample_zephyr n 0 (sample_nodes\<lparr>msg_heap := [0 \<mapsto> m], msg_next := 1\<rparr>)"
  using sample_nodes_route
  by (simp add: svc_ready_for_def sample_documented sample_room heap_ok_def node_to_ap_cport_def)

theorem svc_answers_once_witness:
  "\<exists>s'. svc_inf_write sample_zephyr 0 0
      (sample_nodes\<lparr>msg_heap := [0 \<mapsto> sent_msg GB_SVC_TYPE_INTF_ACTIVATE 9 0 (0, 0) [3]], msg_next := 1\<rparr>) = Inr (0, s') \<and>
    answered sample_zephyr 0 0 (sent_msg GB_SVC_TYPE_INTF_ACTIVATE 9 0 (0, 0) [3]) 0 [0, 3]
      (sample_nodes\<lparr>msg_heap := [0 \<mapsto> sent_msg GB_SVC_TYPE_INTF_ACTIVATE 9 0 (0, 0) [3]], msg_next := 1\<rparr>) s'"
  by (rule svc_answers_once [OF _ _ sample_nodes_svc_ready]) (simp_all add: sent_msg_def svc_reply_def gb_consts)

section \<open>Connection requests\<close>

lemma svc_ready_for_cong:
  "svc_ready_for z n j s \<Longrightarrow> msg_heap t = msg_heap s \<Longrightarrow> msg_next t = msg_next s \<Longrightarrow>
     node_to_ap_cport SVC_INF_ID 0 t = int j \<Longrightarrow> svc_ready_for z n j t"
  by (simp add: svc_ready_for_def heap_ok_def)

lemma svc_ready_for_routes:
  assumes "svc_ready_for z n j s" "ap_map_ok s" "ap_map_ok u" "msg_heap u = msg_heap s" "msg_next u = msg_next s"
    and "ap_route s (of_nat j) \<noteq> None"
    and "ap_route u = ap_route s \<or> (\<exists>a r. unat a < AP_MAX_NODES \<and> ap_route s a = None \<and> ap_route u = (ap_route s)(a := r))"
  shows "svc_ready_for z n j u"
proof (rule svc_ready_for_cong [OF assms(1,4,5)])
  have j: "node_to_ap_cport SVC_INF_ID 0 s = int j" using assms(1) by (simp add: svc_ready_for_def)
  from assms(7) show "node_to_ap_cport SVC_INF_ID 0 u = int j"
  proof
    assume "ap_route u = ap_route s"
    then have "node_ap_map u = node_ap_map s" using ap_map_same_route [OF assms(2,3)] by simp
    with j show ?thesis by (simp add: node_to_ap_cport_def)
  qed (use node_to_ap_cport_new_route [OF assms(2,3) j assms(6)] in blast)
qed

lemma respond_and_free_ok:
  assumes "node_ok s" "svc_ready_for z (length pl) j s" "length pl \<le> 246" "msg_heap s p = Some m"
  shows "\<exists>s'. bnd (svc_response_helper z p pl st s) (\<lambda>s. bnd (gb_message_dealloc z p s) (\<lambda>s. Inr (0 :: int, s))) =
      Inr (0, s') \<and> answered z j p m st pl s s' \<and> node_ok s'"
proof -
  obtain pad w where r: "svc_response_helper z p pl st s =
      Inr (uplinked z (of_nat j) (sent_msg (GB_OP_RESPONSE OR hdr_type (header m))
             (hdr_operation_id (header m)) st pad pl) w s)"
    by (rule svc_response_helper_room [OF assms(2-4)])
  then show ?thesis
    using assms(4)
    by (cases pad) (auto simp: gb_message_dealloc_def answered_def nodes_def svc_is_ready_def uplinked_def
        intro: node_ok_cong [OF assms(1)])
qed

text \<open>
  C23. A CONN\_CREATE request, from the wire bytes to the route: on a consistent state with the SVC's own
  connection up, the SVC answers with exactly one empty response; its status is 0 if and only if the
  request was not for a loop and made exactly one new route, from the free AP CPort named to the
  interface and CPort named, and otherwise it is 1 (unknown error) and no route has changed.
\<close>

theorem svc_conn_create_request:
  assumes "node_ok s" and "ap_map_ok s" and "svc_ready_for z 0 j s" and "ap_route s (of_nat j) \<noteq> None"
    and "msg_heap s p = Some m" and "hdr_type (header m) = GB_SVC_TYPE_CONN_CREATE"
    and "payload m = gb_svc_conn_request_bytes r @ rest"
  shows "\<exists>st u s'. svc_inf_write z p 0 s = Inr (0, s') \<and> answered z j p m st [] u s' \<and>
    uart_tx u = uart_tx s \<and> msg_heap u = msg_heap s \<and> node_ok s' \<and> ap_map_ok s' \<and>
    (if st = 0
     then \<exists>a n c q. ap_end (intf1_id r) (cport1_id r) (intf2_id r) (cport2_id r) = Some (a, n, c) \<and>
       gb_interface_find_by_id n s = Some q \<and> unat a < AP_MAX_NODES \<and> ap_route s a = None \<and>
       \<not> (intf1_id r = intf2_id r \<and> cport1_id r = cport2_id r) \<and> ap_route s' = (ap_route s)(a \<mapsto> (q, c, n))
     else st = 1 \<and> ap_route s' = ap_route s)"
proof -
  let ?loop = "intf1_id r = intf2_id r \<and> cport1_id r = cport2_id r"
  have route: "ap_route s' = ap_route u \<and> (ap_map_ok u \<longrightarrow> ap_map_ok s')" if "answered z j p m st [] u s'" for st u s'
    using that by (auto simp: answered_def ap_route_def fun_eq_iff intro: ap_map_ok_update)
  have h: "svc_inf_write z p 0 s = bnd (if ?loop then svc_response_helper z p [] GB_SVC_OP_UNKNOWN_ERROR s
      else bnd (connection_create z (intf1_id r) (cport1_id r) (intf2_id r) (cport2_id r) s)
         (\<lambda>(ret, s). if ret < 0 then svc_response_helper z p [] GB_SVC_OP_UNKNOWN_ERROR s
                     else svc_response_helper z p [] GB_SVC_OP_SUCCESS s))
      (\<lambda>s. bnd (gb_message_dealloc z p s) (\<lambda>s. Inr (0, s)))"
    using assms(5-7)
    by (simp add: svc_inf_write_def gb_handle_msg_def msg_get_def gb_message_type_def svc_connection_create_handler_def gb_consts)
  show ?thesis
  proof (cases ?loop)
    case True
    obtain s' where s': "svc_inf_write z p 0 s = Inr (0, s')" "answered z j p m 1 [] s s'" "node_ok s'"
      using h True respond_and_free_ok [OF assms(1) _ _ assms(5), of z "[]" j 1] assms(3)
      by (auto simp: GB_SVC_OP_UNKNOWN_ERROR_def)
    with route [OF s'(2)] assms(2) show ?thesis
      by (intro exI [of _ 1] exI [of _ s] exI [of _ s']) simp
  next
    case False
    obtain ret u where u: "connection_create z (intf1_id r) (cport1_id r) (intf2_id r) (cport2_id r) s = Inr (ret, u)"
      "node_ok u" "ap_map_ok u" "uart_tx u = uart_tx s" "msg_heap u = msg_heap s" "msg_next u = msg_next s"
      "if ret = 0
     then \<exists>a n c q. ap_end (intf1_id r) (cport1_id r) (intf2_id r) (cport2_id r) = Some (a, n, c) \<and>
            gb_interface_find_by_id n s = Some q \<and>
            unat a < AP_MAX_NODES \<and> ap_route s a = None \<and> ap_route u = (ap_route s)(a \<mapsto> (q, c, n))
     else ret < 0 \<and> ap_route u = ap_route s"
      using connection_create_spec [OF assms(1,2), of z "intf1_id r" "cport1_id r" "intf2_id r" "cport2_id r"] by blast
    define st :: u8 where "st = (if ret < 0 then 1 else 0)"
    have rdy: "svc_ready_for z 0 j u"
      by (rule svc_ready_for_routes [OF assms(3,2) u(3,5,6) assms(4)]) (use u(7) in \<open>auto split: if_splits\<close>)
    have "\<exists>s'. svc_inf_write z p 0 s = Inr (0, s') \<and> answered z j p m st [] u s' \<and> node_ok s'"
      using h False u(1) respond_and_free_ok [OF u(2) _ _ , of z "[]" j p m st] assms(5) u(5) rdy
      by (simp add: st_def GB_SVC_OP_UNKNOWN_ERROR_def GB_SVC_OP_SUCCESS_def split: if_splits)
    then obtain s' where s': "svc_inf_write z p 0 s = Inr (0, s')" "answered z j p m st [] u s'" "node_ok s'" by blast
    with route [OF s'(2)] u False show ?thesis
      by (intro exI [of _ st] exI [of _ u] exI [of _ s']) (auto simp: st_def split: if_splits)
  qed
qed

definition sample_conn :: gb_svc_conn_request where
  "sample_conn = \<lparr>intf1_id = 1, cport1_id = 5, intf2_id = 3, cport2_id = 0\<rparr>"

definition sample_svc :: "u8 \<Rightarrow> byte list \<Rightarrow> sample_world node_state" where
  "sample_svc ty pl = sample_nodes\<lparr>msg_heap := [0 \<mapsto> sent_msg ty 9 0 (0, 0) pl], msg_next := 1\<rparr>"

lemma sample_svc_ok:
  "node_ok (sample_svc ty pl)" "ap_map_ok (sample_svc ty pl)" "svc_ready_for sample_zephyr n 0 (sample_svc ty pl)"
  "msg_heap (sample_svc ty pl) 0 = Some (sent_msg ty 9 0 (0, 0) pl)" "ap_route (sample_svc ty pl) (of_nat 0) \<noteq> None"
proof -
  show "node_ok (sample_svc ty pl)" unfolding sample_svc_def by (rule node_ok_cong [OF sample_nodes_ok]) simp_all
  show "ap_map_ok (sample_svc ty pl)" unfolding sample_svc_def by (rule ap_map_ok_update [OF sample_nodes_ap_ok]) simp
  show "svc_ready_for sample_zephyr n 0 (sample_svc ty pl)" unfolding sample_svc_def by (rule sample_nodes_svc_ready)
  show "msg_heap (sample_svc ty pl) 0 = Some (sent_msg ty 9 0 (0, 0) pl)" by (simp add: sample_svc_def)
  show "ap_route (sample_svc ty pl) (of_nat 0) \<noteq> None"
    by (simp add: sample_svc_def sample_nodes_def gb_state.defs ap_route_def)
qed

theorem svc_conn_create_request_witness:
  "\<exists>st u s'. svc_inf_write sample_zephyr 0 0 (sample_svc GB_SVC_TYPE_CONN_CREATE (gb_svc_conn_request_bytes sample_conn @ [])) = Inr (0, s') \<and>
    answered sample_zephyr 0 0 (sent_msg GB_SVC_TYPE_CONN_CREATE 9 0 (0, 0) (gb_svc_conn_request_bytes sample_conn @ [])) st [] u s' \<and>
    uart_tx u = uart_tx (sample_svc GB_SVC_TYPE_CONN_CREATE (gb_svc_conn_request_bytes sample_conn @ [])) \<and>
    msg_heap u = msg_heap (sample_svc GB_SVC_TYPE_CONN_CREATE (gb_svc_conn_request_bytes sample_conn @ [])) \<and>
    node_ok s' \<and> ap_map_ok s' \<and>
    (if st = 0
     then \<exists>a n c q. ap_end (intf1_id sample_conn) (cport1_id sample_conn) (intf2_id sample_conn) (cport2_id sample_conn) = Some (a, n, c) \<and>
       gb_interface_find_by_id n (sample_svc GB_SVC_TYPE_CONN_CREATE (gb_svc_conn_request_bytes sample_conn @ [])) = Some q \<and>
       unat a < AP_MAX_NODES \<and> ap_route (sample_svc GB_SVC_TYPE_CONN_CREATE (gb_svc_conn_request_bytes sample_conn @ [])) a = None \<and>
       \<not> (intf1_id sample_conn = intf2_id sample_conn \<and> cport1_id sample_conn = cport2_id sample_conn) \<and>
       ap_route s' = (ap_route (sample_svc GB_SVC_TYPE_CONN_CREATE (gb_svc_conn_request_bytes sample_conn @ [])))(a \<mapsto> (q, c, n))
     else st = 1 \<and> ap_route s' = ap_route (sample_svc GB_SVC_TYPE_CONN_CREATE (gb_svc_conn_request_bytes sample_conn @ [])))"
  by (rule svc_conn_create_request [OF sample_svc_ok(1,2,3,5,4)]) (simp_all add: sent_msg_def)

text \<open>
  The SVC reads the request structures without looking at the payload length: a SET\_PWRM request
  shorter than eight bytes, a CONN\_CREATE or CONN\_DESTROY request shorter than six, or a protocol
  version response shorter than two, makes it read past the end of the message.
\<close>

lemma svc_short_request_reads_past_end:
  assumes "msg_heap s p = Some m"
    and "hdr_type (header m) = GB_SVC_TYPE_INTF_SET_PWRM \<and> length (payload m) < 8 \<or>
      hdr_type (header m) \<in> {GB_SVC_TYPE_CONN_CREATE, GB_SVC_TYPE_CONN_DESTROY} \<and> length (payload m) < 6 \<or>
      hdr_type (header m) = GB_RESPONSE GB_SVC_TYPE_PROTOCOL_VERSION \<and> length (payload m) < 2"
  shows "svc_inf_write z p 0 s = Inl OutOfBounds"
  using assms
  by (auto simp: svc_inf_write_def gb_handle_msg_def msg_get_def gb_message_type_def gb_consts
      svc_intf_set_pwrm_handler_def gb_svc_intf_set_pwrm_modes_def svc_connection_create_handler_def
      svc_connection_destroy_handler_def gb_svc_conn_request_read_def svc_version_response_handler_def
      buf_get_def buf_read_def)

lemma svc_short_request_reads_past_end_witness:
  "svc_inf_write sample_zephyr 0 0 (sample_svc GB_SVC_TYPE_CONN_CREATE [1, 0]) = Inl OutOfBounds"
  by (rule svc_short_request_reads_past_end [OF sample_svc_ok(4)]) (simp add: sent_msg_def)

text \<open>
  C24. The SVC handshake: the AP's answer to the protocol version, with its two bytes, makes the SVC send exactly one frame,
  the hello request with a fresh operation id, the endo id 0x4755 and the AP's interface id 1; the
  message is freed.  (Sending the request ends with a read from freed memory, whose value the handler
  ignores.)  Answers to hello and to the module events, and message types the SVC does not
  support, are freed without sending anything.
\<close>

theorem svc_handshake:
  assumes "msg_heap s p = Some m" and "svc_ready_for z 3 j s"
    and "svc_reply (hdr_type (header m)) (payload m) = None"
    and "hdr_type (header m) = 0x81 \<longrightarrow> 2 \<le> length (payload m)"
    and "hdr_type (header m) \<notin> {GB_SVC_TYPE_CONN_CREATE, GB_SVC_TYPE_CONN_DESTROY, GB_SVC_TYPE_INTF_SET_PWRM}"
  shows "\<exists>s' pad. svc_inf_write z p 0 s = Inr (0, s') \<and> msg_heap s' = (msg_heap s)(p := None) \<and>
    uart_tx s' = uart_tx s @
      (if hdr_type (header m) = 0x81
       then ap_frame z (of_nat j) (sent_msg GB_SVC_TYPE_SVC_HELLO (fst (new_operation_id s)) 0 pad [0x55, 0x47, 1])
       else [])"
proof (cases "hdr_type (header m) = 0x81")
  case True
  have hello: "gb_svc_hello_request ENDO_ID AP_INF_ID = [0x55, 0x47, 1]" by code_simp
  obtain blk w where a: "k_heap_alloc z (hdr_len + 3) (world s) = (Some blk, w)"
    using assms(2) unfolding svc_ready_for_def by (meson heap_roomE)
  have "gb_handle_msg z p s = bnd (svc_send_hello z s) (\<lambda>(ret, s). Inr s)"
    using True assms(1,4)
    by (auto simp: gb_handle_msg_def msg_get_def gb_message_type_def gb_consts svc_version_response_handler_def buf_get_def)
  moreover have "svc_send_hello z s = (let t = uplinked z (of_nat j) (sent_msg GB_SVC_TYPE_SVC_HELLO
      (fst (new_operation_id s)) 0 (blk ! 6, blk ! 7) [0x55, 0x47, 1]) w (snd (new_operation_id s))
     in Inr (uint (freed_u16 z (msg_next s) (world t)), t))"
    unfolding svc_send_hello_def hello
    using assms(2) a by (intro control_send_request_eq) (simp_all add: svc_ready_for_def hdr_len_def)
  ultimately show ?thesis
    using True assms(1) by (auto simp: svc_inf_write_def gb_message_dealloc_def Let_def)
next
  case False
  then have "gb_handle_msg z p s = Inr s"
    using assms(1,3,5)
    by (auto simp: gb_handle_msg_def msg_get_def gb_message_type_def svc_reply_def gb_consts svc_hello_response_handler_def Let_def
        svc_module_inserted_response_handler_def svc_module_removed_response_handler_def split: if_splits)
  with False assms(1) show ?thesis by (simp add: svc_inf_write_def gb_message_dealloc_def)
qed

theorem svc_handshake_witness:
  "\<exists>s' pad. svc_inf_write sample_zephyr 0 0 (sample_svc 0x81 [0, 1]) = Inr (0, s') \<and>
    msg_heap s' = (msg_heap (sample_svc 0x81 [0, 1]))(0 := None) \<and>
    uart_tx s' = uart_tx (sample_svc 0x81 [0, 1]) @
      (if hdr_type (header (sent_msg 0x81 9 0 (0, 0) [0, 1])) = 0x81
       then ap_frame sample_zephyr (of_nat 0)
         (sent_msg GB_SVC_TYPE_SVC_HELLO (fst (new_operation_id (sample_svc 0x81 [0, 1]))) 0 pad [0x55, 0x47, 1])
       else [])"
  by (rule svc_handshake [OF sample_svc_ok(4,3)]) (simp_all add: sent_msg_def gb_consts svc_reply_def)

end
