(* ===== verification/Local_Node.thy ===== *)
theory Local_Node
  imports Node
begin

text \<open>
  The local node (src/local_node.c): a Greybus interface of the firmware itself with the control
  protocol on CPort 0 and a built-in manifest.
\<close>

definition CONTROL_PROTOCOL_CPORT :: u16 where "CONTROL_PROTOCOL_CPORT = 0"

definition manifest :: "byte list" where
  "manifest =
     [0x3c, 0x00, 0x00, 0x01, 0x08, 0x00, 0x01, 0x00, 0x01, 0x02, 0x00, 0x00, 0x18, 0x00, 0x02,
      0x00, 0x11, 0x01, 0x42, 0x65, 0x61, 0x67, 0x6c, 0x65, 0x50, 0x6c, 0x61, 0x79, 0x20, 0x43,
      0x43, 0x31, 0x33, 0x35, 0x32, 0x00, 0x18, 0x00, 0x02, 0x00, 0x11, 0x02, 0x42, 0x65, 0x61,
      0x67, 0x6c, 0x65, 0x50, 0x6c, 0x61, 0x79, 0x20, 0x43, 0x43, 0x31, 0x33, 0x35, 0x32, 0x00]"

section \<open>Handlers\<close>

definition response_helper ::
  "'w zephyr \<Rightarrow> nat \<Rightarrow> byte list \<Rightarrow> u8 \<Rightarrow> u16 \<Rightarrow> ('w, 'a) aps \<Rightarrow> ('w, 'a) aps res" where
  "response_helper z msg bs status cport_id s =
     bnd (msg_get msg s) (\<lambda>m.
     bnd (gb_message_response_alloc z bs (hdr_type (header m)) (hdr_operation_id (header m)) status s)
       (\<lambda>(resp, s).
         case resp of
           None \<Rightarrow> Inr s
         | Some p \<Rightarrow> bnd (connection_send_to_ap z LOCAL_NODE_ID cport_id p s) (\<lambda>(ret, s). Inr s)))"

definition control_protocol_cport_shutdown_handler :: "'w zephyr \<Rightarrow> nat \<Rightarrow> ('w, 'a) aps \<Rightarrow> ('w, 'a) aps res" where
  "control_protocol_cport_shutdown_handler z msg s = response_helper z msg [] 0 CONTROL_PROTOCOL_CPORT s"

definition control_protocol_version_handler :: "'w zephyr \<Rightarrow> nat \<Rightarrow> ('w, 'a) aps \<Rightarrow> ('w, 'a) aps res" where
  "control_protocol_version_handler z msg s =
     response_helper z msg (gb_control_version_response 0 1) 0 CONTROL_PROTOCOL_CPORT s"

definition control_protocol_get_manifest_size_handler ::
  "'w zephyr \<Rightarrow> nat \<Rightarrow> ('w, 'a) aps \<Rightarrow> ('w, 'a) aps res" where
  "control_protocol_get_manifest_size_handler z msg s =
     response_helper z msg (gb_control_get_manifest_size_response (of_nat (length manifest))) 0
       CONTROL_PROTOCOL_CPORT s"

definition control_protocol_get_manifest_handler :: "'w zephyr \<Rightarrow> nat \<Rightarrow> ('w, 'a) aps \<Rightarrow> ('w, 'a) aps res" where
  "control_protocol_get_manifest_handler z msg s = response_helper z msg manifest 0 CONTROL_PROTOCOL_CPORT s"

definition control_protocol_empty_handler :: "'w zephyr \<Rightarrow> nat \<Rightarrow> ('w, 'a) aps \<Rightarrow> ('w, 'a) aps res" where
  "control_protocol_empty_handler z msg s = response_helper z msg [] 0 CONTROL_PROTOCOL_CPORT s"

definition control_protocol_handle :: "'w zephyr \<Rightarrow> nat \<Rightarrow> ('w, 'a) aps \<Rightarrow> ('w, 'a) aps res" where
  "control_protocol_handle z msg s =
     bnd (msg_get msg s) (\<lambda>m.
       let ty = gb_message_type m in
       if ty = GB_REQUEST_TYPE_CPORT_SHUTDOWN then control_protocol_cport_shutdown_handler z msg s
       else if ty = GB_CONTROL_TYPE_VERSION then control_protocol_version_handler z msg s
       else if ty = GB_CONTROL_TYPE_GET_MANIFEST_SIZE then control_protocol_get_manifest_size_handler z msg s
       else if ty = GB_CONTROL_TYPE_GET_MANIFEST then control_protocol_get_manifest_handler z msg s
       else if ty \<in> {GB_CONTROL_TYPE_CONNECTED, GB_CONTROL_TYPE_DISCONNECTING, GB_CONTROL_TYPE_DISCONNECTED,
                     GB_CONTROL_TYPE_TIMESYNC_ENABLE, GB_CONTROL_TYPE_TIMESYNC_DISABLE,
                     GB_CONTROL_TYPE_TIMESYNC_AUTHORITATIVE, GB_CONTROL_TYPE_INTF_HIBERNATE_ABORT}
       then control_protocol_empty_handler z msg s
       else Inr s)"

definition local_intf_write :: "'w zephyr \<Rightarrow> nat \<Rightarrow> u16 \<Rightarrow> ('w, 'a) aps \<Rightarrow> (int \<times> ('w, 'a) aps) res" where
  "local_intf_write z msg cport_id s =
     bnd (if cport_id = CONTROL_PROTOCOL_CPORT then control_protocol_handle z msg s else Inr s) (\<lambda>s.
     bnd (gb_message_dealloc z msg s) (\<lambda>s. Inr (0, s)))"

section \<open>What the local node promises\<close>

text \<open>
  The format of a manifest (Greybus specification): a header with the total size, followed by
  descriptors that each begin with their own size.  \<open>descriptors\<close> splits a manifest body.
\<close>

fun descriptors :: "nat \<Rightarrow> byte list \<Rightarrow> byte list list option" where
  "descriptors 0 bs = (if bs = [] then Some [] else None)"
| "descriptors (Suc n) bs =
     (case bs of
        lo # hi # rest \<Rightarrow>
          let len = unat (le16_of lo hi) in
          if 4 \<le> len \<and> len \<le> length bs
          then map_option (\<lambda>ds. take len bs # ds) (descriptors n (drop len bs)) else None
      | [] \<Rightarrow> Some []
      | _ \<Rightarrow> None)"

definition control_reply :: "u8 \<Rightarrow> byte list option" where
  "control_reply ty =
     (if ty \<in> {0x00, 0x05, 0x06, 0x07, 0x08, 0x09, 0x0c, 0x15} then Some []
      else if ty = 0x01 then Some [0, 1]
      else if ty = 0x03 then Some (le16 (of_nat (length manifest)))
      else if ty = 0x04 then Some manifest
      else None)"

lemma response_helper_room:
  assumes "heap_documented z" "heap_room z (hdr_len + length pl)" "heap_ok s" "length pl \<le> 246"
    and "node_to_ap_cport LOCAL_NODE_ID c s = int j" "msg_heap s p = Some m"
  obtains pad w where "response_helper z p pl st c s =
    Inr (uplinked z (of_nat j) (sent_msg (GB_OP_RESPONSE OR hdr_type (header m))
           (hdr_operation_id (header m)) st pad pl) w s)"
proof -
  have small: "hdr_len + length pl < 65536" using assms(4) by (simp add: hdr_len_def)
  obtain blk w where "k_heap_alloc z (hdr_len + length pl) (world s) = (Some blk, w)" by (rule heap_roomE [OF assms(2)])
  then show ?thesis
    using that [of "(blk ! 6, blk ! 7)" w] assms(6)
      connection_send_to_ap_fresh [OF assms(3) wf_sent_msg [OF small] fits_sent_msg [OF assms(4)] assms(5)]
    by (simp add: response_helper_def msg_get_def gb_message_response_alloc_eq [OF assms(1) small])
qed

lemma control_reply_handled:
  assumes "msg_heap s p = Some m" "control_reply (hdr_type (header m)) = Some pl"
  shows "control_protocol_handle z p s = response_helper z p pl 0 0 s"
  using assms
  by (auto simp: control_protocol_handle_def msg_get_def gb_message_type_def control_reply_def gb_consts
      CONTROL_PROTOCOL_CPORT_def control_protocol_cport_shutdown_handler_def control_protocol_version_handler_def
      control_protocol_get_manifest_size_handler_def control_protocol_get_manifest_handler_def
      control_protocol_empty_handler_def gb_payload_defs split: if_splits)

lemma length_manifest: "length manifest = 60"
  by (simp add: manifest_def)

lemma control_reply_length: "control_reply ty = Some pl \<Longrightarrow> length pl \<le> 60"
  by (auto simp: control_reply_def length_manifest split: if_splits)

text \<open>
  C28. The local node answers every control request it supports, once, on the AP CPort its control
  CPort is connected to, with the payload \<open>control_reply\<close> gives and the operation id of the request,
  and frees the request.  An unsupported request, or a message to another CPort, is freed without an
  answer.
\<close>

theorem local_node_answers_once:
  assumes "msg_heap s p = Some m" and "heap_documented z" and "heap_ok s"
    and "node_to_ap_cport LOCAL_NODE_ID 0 s = int j"
    and "\<forall>pl. control_reply (hdr_type (header m)) = Some pl \<longrightarrow> heap_room z (hdr_len + length pl)"
  shows "\<exists>s' pad. local_intf_write z p cport s = Inr (0, s') \<and> msg_heap s' = (msg_heap s)(p := None) \<and>
    node_ap_map s' = node_ap_map s \<and>
    uart_tx s' = uart_tx s @
      (if cport = 0 then case control_reply (hdr_type (header m)) of
           Some pl \<Rightarrow> ap_frame z (of_nat j) (sent_msg (GB_OP_RESPONSE OR hdr_type (header m))
                        (hdr_operation_id (header m)) 0 pad pl)
         | None \<Rightarrow> []
       else [])"
proof (cases "cport = 0 \<and> control_reply (hdr_type (header m)) \<noteq> None")
  case True
  then obtain pl where pl: "control_reply (hdr_type (header m)) = Some pl" by blast
  have "length pl \<le> 246" using control_reply_length [OF pl] by simp
  then obtain pad w where "response_helper z p pl 0 0 s =
      Inr (uplinked z (of_nat j) (sent_msg (GB_OP_RESPONSE OR hdr_type (header m))
             (hdr_operation_id (header m)) 0 pad pl) w s)"
    using response_helper_room [OF assms(2) _ assms(3) _ assms(4,1)] pl assms(5) by metis
  with True pl assms(1) show ?thesis
    by (cases pad) (auto simp: local_intf_write_def CONTROL_PROTOCOL_CPORT_def control_reply_handled gb_message_dealloc_def)
next
  case False
  then have "(if cport = CONTROL_PROTOCOL_CPORT then control_protocol_handle z p s else Inr s) = Inr s"
    using assms(1)
    by (auto simp: CONTROL_PROTOCOL_CPORT_def control_protocol_handle_def msg_get_def gb_message_type_def
        control_reply_def gb_consts Let_def split: if_splits)
  with False assms(1) show ?thesis by (auto simp: local_intf_write_def gb_message_dealloc_def)
qed

definition sample_local :: "sample_world ap_state" where
  "sample_local = gb_state.extend (sample_gs\<lparr>msg_heap := [0 \<mapsto> sent_msg GB_CONTROL_TYPE_GET_MANIFEST 9 0 (0, 0) []], msg_next := 1\<rparr>)
     \<lparr>interface_id_counter = 3, gb_interface_slab = replicate 10 None, svc_is_read_flag = True,
      node_ap_map = [\<lparr>node_intf = Some SvcIntf, node_cport = 0, node_id = 0\<rparr>,
        \<lparr>node_intf = Some LocalIntf, node_cport = 0, node_id = 2\<rparr>] @ replicate 30 empty_item\<rparr>"

theorem local_node_answers_once_witness:
  "\<exists>s' pad. local_intf_write sample_zephyr 0 0 sample_local = Inr (0, s') \<and>
    msg_heap s' = (msg_heap sample_local)(0 := None) \<and> node_ap_map s' = node_ap_map sample_local \<and>
    uart_tx s' = uart_tx sample_local @
      (if (0 :: u16) = 0 then case control_reply (hdr_type (header (sent_msg GB_CONTROL_TYPE_GET_MANIFEST 9 0 (0, 0) []))) of
           Some pl \<Rightarrow> ap_frame sample_zephyr (of_nat 1)
             (sent_msg (GB_OP_RESPONSE OR hdr_type (header (sent_msg GB_CONTROL_TYPE_GET_MANIFEST 9 0 (0, 0) [])))
                (hdr_operation_id (header (sent_msg GB_CONTROL_TYPE_GET_MANIFEST 9 0 (0, 0) []))) 0 pad pl)
         | None \<Rightarrow> []
       else [])"
  by (rule local_node_answers_once)
    (simp_all add: sample_documented sample_room sample_local_def gb_state.defs heap_ok_def node_to_ap_cport_def
      gb_consts AP_MAX_NODES_def)

text \<open>
  The built-in manifest is what it says: its header gives its length, which is also what the
  local node answers to GET\_MANIFEST\_SIZE, and the rest splits exactly into one interface
  descriptor and two string descriptors with the two string ids the interface descriptor refers to,
  each string descriptor holding as many characters as it announces, followed by a zero byte.
\<close>

lemma manifest_well_formed:
  "le16_of (manifest ! 0) (manifest ! 1) = of_nat (length manifest) \<and>
   control_reply GB_CONTROL_TYPE_GET_MANIFEST_SIZE = Some (take 2 manifest) \<and>
   control_reply GB_CONTROL_TYPE_GET_MANIFEST = Some manifest \<and>
   (\<exists>d s1 s2. descriptors 3 (drop 4 manifest) = Some [d, s1, s2] \<and>
      d ! 2 = 1 \<and> s1 ! 2 = 2 \<and> s2 ! 2 = 2 \<and> s1 ! 5 = d ! 4 \<and> s2 ! 5 = d ! 5 \<and>
      length s1 = 6 + unat (s1 ! 4) + 1 \<and> length s2 = 6 + unat (s2 ! 4) + 1 \<and> last s1 = 0 \<and> last s2 = 0)"
proof -
  have "descriptors 3 (drop 4 manifest) =
      Some [take 8 (drop 4 manifest), take 24 (drop 12 manifest), drop 36 manifest]"
    by code_simp
  moreover have "le16_of (manifest ! 0) (manifest ! 1) = of_nat (length manifest)"
    "control_reply GB_CONTROL_TYPE_GET_MANIFEST_SIZE = Some (take 2 manifest)"
    "control_reply GB_CONTROL_TYPE_GET_MANIFEST = Some manifest" by code_simp+
  ultimately show ?thesis by (simp add: manifest_def)
qed

end
