(* ===== verification/Mdns.thy ===== *)
theory Mdns
  imports Platform
begin

text \<open>
  Node discovery over multicast DNS (src/mdns.c): DNS names in a packet with compression references,
  the query the firmware sends and the answers it looks for.  A packet buffer is its list of bytes,
  a pointer into it an offset; a \<open>size_t\<close> that means ``no position'' is \<open>MDNS_INVALID_POS\<close>.
\<close>

section \<open>Constants and structures\<close>

definition MDNS_PORT :: u16 where "MDNS_PORT = 5353"
definition MDNS_UNICAST_RESPONSE :: u16 where "MDNS_UNICAST_RESPONSE = 0x8000"
definition MDNS_MAX_SUBSTRINGS :: nat where "MDNS_MAX_SUBSTRINGS = 64"
definition MDNS_RESPONSE_BUFFER_SIZE :: nat where "MDNS_RESPONSE_BUFFER_SIZE = 100"
definition MDNS_REQUEST_BUFFER_SIZE :: nat where "MDNS_REQUEST_BUFFER_SIZE = 100"
definition MDNS_PTR_NAME_SIZE :: nat where "MDNS_PTR_NAME_SIZE = 100"
definition MDNS_INVALID_POS :: nat where "MDNS_INVALID_POS = 2 ^ 32 - 1"
definition MDNS_RECORDTYPE_PTR :: u16 where "MDNS_RECORDTYPE_PTR = 12"
definition MDNS_CLASS_IN :: u16 where "MDNS_CLASS_IN = 1"

definition mdns_addr :: "byte list" where
  "mdns_addr = [0xFF, 0x02, 0, 0, 0, 0, 0, 0, 0, 0, 0, 0, 0, 0, 0, 0xFB]"

definition dot :: byte where "dot = 0x2E"

record mdns_string_pair_t =
  sp_offset :: nat
  sp_length :: nat
  sp_ref :: bool

record mdns_string_table_t =
  st_offset :: "nat list"
  st_count :: nat
  st_next :: nat

definition mdns_header_len :: nat where "mdns_header_len = 12"

definition mdns_ntohs :: "byte list \<Rightarrow> nat \<Rightarrow> u16 res" where
  "mdns_ntohs buf off = bnd (buf_read buf off 2) (\<lambda>b. Inr (le16_of (b ! 1) (b ! 0)))"

definition mdns_htons :: "byte list \<Rightarrow> nat \<Rightarrow> u16 \<Rightarrow> (nat \<times> byte list) res" where
  "mdns_htons buf data val = bnd (buf_write buf data (be16 val)) (\<lambda>buf. Inr (data + 2, buf))"

definition mdns_is_string_ref :: "u8 \<Rightarrow> bool" where
  "mdns_is_string_ref val \<longleftrightarrow> 0xC0 = val AND 0xC0"

section \<open>Names in a packet\<close>

text \<open>
  The loop over compression references.  \<open>n\<close> is how many more references are followed: the source
  gives up at the seventeenth.  The result is the offset of a label, or \<open>None\<close>, and \<open>pair.ref\<close>.
\<close>

fun mdns_follow_refs :: "byte list \<Rightarrow> nat \<Rightarrow> nat \<Rightarrow> nat \<Rightarrow> bool \<Rightarrow> (nat option \<times> bool) res" where
  "mdns_follow_refs buf sz n offset ref =
     bnd (buf_get buf offset) (\<lambda>b.
       if \<not> mdns_is_string_ref b then Inr (Some offset, ref)
       else if sz < offset + 2 then Inr (None, ref)
       else bnd (mdns_ntohs buf offset) (\<lambda>v.
         let offset = unat (v AND 0x3fff) in
         if sz \<le> offset then Inr (None, ref)
         else case n of 0 \<Rightarrow> Inr (None, True) | Suc n \<Rightarrow> mdns_follow_refs buf sz n offset True))"

declare mdns_follow_refs.simps [simp del]

definition invalid_pair :: "bool \<Rightarrow> mdns_string_pair_t" where
  "invalid_pair ref = \<lparr>sp_offset = MDNS_INVALID_POS, sp_length = 0, sp_ref = ref\<rparr>"

definition mdns_get_next_substring :: "byte list \<Rightarrow> nat \<Rightarrow> nat \<Rightarrow> mdns_string_pair_t res" where
  "mdns_get_next_substring buf sz offset =
     (if sz \<le> offset then Inr (invalid_pair False)
      else bnd (buf_get buf offset) (\<lambda>b.
        if b = 0 then Inr (invalid_pair False\<lparr>sp_offset := offset\<rparr>)
        else bnd (mdns_follow_refs buf sz 16 offset False) (\<lambda>(label, ref).
          case label of
            None \<Rightarrow> Inr (invalid_pair ref)
          | Some offset \<Rightarrow>
              bnd (buf_get buf offset) (\<lambda>b.
                let len = unat b; offset = offset + 1 in
                if sz < offset + len then Inr (invalid_pair ref)
                else Inr \<lparr>sp_offset = offset, sp_length = len, sp_ref = ref\<rparr>))))"

definition mdns_string_find :: "byte list \<Rightarrow> nat \<Rightarrow> byte \<Rightarrow> nat \<Rightarrow> nat res" where
  "mdns_string_find str len c offset =
     (if len \<le> offset then Inr MDNS_INVALID_POS
      else bnd (buf_read str offset (len - offset)) (\<lambda>s.
        Inr (case first_index (\<lambda>b. b = c) s of Some i \<Rightarrow> offset + i | None \<Rightarrow> MDNS_INVALID_POS)))"

lemma mdns_string_find_bounds:
  "mdns_string_find str len c offset = Inr d \<Longrightarrow> d = MDNS_INVALID_POS \<or> offset \<le> d \<and> d < len \<and> str ! d = c"
  by (auto simp: mdns_string_find_def buf_read_def split: if_splits option.splits dest!: first_index_SomeD)

text \<open>
  The rest of a name against the labels that follow a matching first label: the offset in \<open>str\<close> where
  the comparison stops.
\<close>

function mdns_match_rest ::
  "byte list \<Rightarrow> nat \<Rightarrow> byte list \<Rightarrow> nat \<Rightarrow> nat \<Rightarrow> mdns_string_pair_t \<Rightarrow> nat res" where
  "mdns_match_rest buf capacity str total_length offset sub =
     (if total_length \<le> offset then Inr offset
      else bnd (mdns_string_find str total_length dot offset) (\<lambda>d.
        let dot_pos = (if d = MDNS_INVALID_POS then total_length else d);
            current_length = dot_pos - offset
        in bnd (mdns_get_next_substring buf capacity (sp_offset sub + sp_length sub)) (\<lambda>sub.
          if sp_length sub = 0 \<or> sp_length sub \<noteq> current_length then Inr offset
          else bnd (buf_read str offset (sp_length sub)) (\<lambda>a.
            bnd (buf_read buf (sp_offset sub) (sp_length sub)) (\<lambda>b.
              if a \<noteq> b then Inr offset
              else mdns_match_rest buf capacity str total_length (dot_pos + 1) sub)))))"
  by pat_completeness auto

termination
  by (relation "measure (\<lambda>(buf, capacity, str, total_length, offset, sub). total_length - offset)")
    (auto dest: mdns_string_find_bounds)

declare mdns_match_rest.simps [simp del]

fun mdns_table_search ::
  "nat list \<Rightarrow> byte list \<Rightarrow> nat \<Rightarrow> byte list \<Rightarrow> nat \<Rightarrow> nat \<Rightarrow> nat res" where
  "mdns_table_search [] buf capacity str first_length total_length = Inr MDNS_INVALID_POS"
| "mdns_table_search (off # offs) buf capacity str first_length total_length =
     (let next_entry = mdns_table_search offs buf capacity str first_length total_length in
      if capacity \<le> off then next_entry
      else bnd (mdns_get_next_substring buf capacity off) (\<lambda>sub.
        if sp_length sub = 0 \<or> sp_length sub \<noteq> first_length then next_entry
        else bnd (buf_read str 0 (sp_length sub)) (\<lambda>a.
          bnd (buf_read buf (sp_offset sub) (sp_length sub)) (\<lambda>b.
            if a \<noteq> b then next_entry
            else bnd (mdns_match_rest buf capacity str total_length (first_length + 1) sub) (\<lambda>offset.
              if total_length \<le> offset then Inr off else next_entry)))))"

definition mdns_string_table_find ::
  "mdns_string_table_t option \<Rightarrow> byte list \<Rightarrow> nat \<Rightarrow> byte list \<Rightarrow> nat \<Rightarrow> nat \<Rightarrow> nat res" where
  "mdns_string_table_find string_table buf capacity str first_length total_length =
     (case string_table of
        None \<Rightarrow> Inr MDNS_INVALID_POS
      | Some st \<Rightarrow> mdns_table_search (take (st_count st) (st_offset st)) buf capacity str first_length total_length)"

definition mdns_string_make_ref :: "byte list \<Rightarrow> nat \<Rightarrow> nat \<Rightarrow> nat \<Rightarrow> (nat option \<times> byte list) res" where
  "mdns_string_make_ref buf data capacity ref_offset =
     (if capacity < 2 then Inr (None, buf)
      else bnd (mdns_htons buf data (0xC000 OR of_nat ref_offset)) (\<lambda>(d, buf). Inr (Some d, buf)))"

definition mdns_string_table_add :: "mdns_string_table_t option \<Rightarrow> nat \<Rightarrow> mdns_string_table_t option res" where
  "mdns_string_table_add string_table offset =
     (case string_table of
        None \<Rightarrow> Inr None
      | Some st \<Rightarrow>
          if length (st_offset st) \<le> st_next st then Inl BufferOverflow
          else Inr (Some \<lparr>st_offset = (st_offset st)[st_next st := offset],
                 st_count = min (st_count st + 1) (length (st_offset st)),
                 st_next = (if length (st_offset st) \<le> st_next st + 1 then 0 else st_next st + 1)\<rparr>))"

text \<open>The loop of \<open>mdns_string_make\<close> over the labels of the name, from \<open>last_pos\<close>.\<close>

function mdns_make_labels ::
  "byte list \<Rightarrow> nat \<Rightarrow> nat \<Rightarrow> byte list \<Rightarrow> nat \<Rightarrow> mdns_string_table_t option \<Rightarrow> nat \<Rightarrow> (nat option \<times> byte list) res" where
  "mdns_make_labels buf capacity data name len table last_pos =
     (let remain = size_sub capacity data in
      if last_pos < len then
        bnd (mdns_string_find name len dot last_pos) (\<lambda>pos.
          let sub_length = (if pos \<noteq> MDNS_INVALID_POS then pos else len) - last_pos;
              total_length = len - last_pos
          in bnd (mdns_string_table_find table buf capacity (drop last_pos name) sub_length total_length) (\<lambda>ref_offset.
            if ref_offset \<noteq> MDNS_INVALID_POS then mdns_string_make_ref buf data remain ref_offset
            else if remain \<le> sub_length + 1 then Inr (None, buf)
            else bnd (buf_read name last_pos sub_length) (\<lambda>label.
              bnd (buf_write buf data (of_nat sub_length # label)) (\<lambda>buf.
              bnd (mdns_string_table_add table data) (\<lambda>table.
                mdns_make_labels buf capacity (data + sub_length + 1) name len table
                  (if pos \<noteq> MDNS_INVALID_POS then pos + 1 else len))))))
      else if remain = 0 then Inr (None, buf)
      else bnd (buf_write buf data [0]) (\<lambda>buf. Inr (Some (data + 1), buf)))"
  by pat_completeness auto

termination
  by (relation "measure (\<lambda>(buf, capacity, data, name, len, table, last_pos). len - last_pos)")
    (auto dest: mdns_string_find_bounds)

declare mdns_make_labels.simps [simp del]

definition mdns_string_make ::
  "byte list \<Rightarrow> nat \<Rightarrow> nat \<Rightarrow> byte list \<Rightarrow> nat \<Rightarrow> mdns_string_table_t option \<Rightarrow> (nat option \<times> byte list) res" where
  "mdns_string_make buf capacity data name len table =
     bnd (buf_get name (size_sub len 1)) (\<lambda>c.
       mdns_make_labels buf capacity data name (if c = dot then len - 1 else len) table 0)"

text \<open>
  The loops over the labels of a name in a packet.  \<open>n\<close> is the number of labels still accepted: the
  source counts them and gives up when the counter exceeds \<open>MDNS_MAX_SUBSTRINGS\<close>.
\<close>

fun mdns_skip_labels :: "byte list \<Rightarrow> nat \<Rightarrow> nat \<Rightarrow> nat \<Rightarrow> nat option res" where
  "mdns_skip_labels buf sz n cur =
     bnd (mdns_get_next_substring buf sz cur) (\<lambda>sub.
       if sp_offset sub = MDNS_INVALID_POS then Inr None
       else case n of
              0 \<Rightarrow> Inr None
            | Suc n \<Rightarrow>
                if sp_ref sub then Inr (Some (cur + 2))
                else if sp_length sub \<noteq> 0 then mdns_skip_labels buf sz n (sp_offset sub + sp_length sub)
                else Inr (Some (sp_offset sub + sp_length sub + 1)))"

declare mdns_skip_labels.simps [simp del]

text \<open>\<open>mdns_string_skip\<close> returns the new offset, or \<open>None\<close> and leaves the offset alone.\<close>

definition mdns_string_skip :: "byte list \<Rightarrow> nat \<Rightarrow> nat \<Rightarrow> nat option res" where
  "mdns_string_skip buf sz offset = mdns_skip_labels buf sz (MDNS_MAX_SUBSTRINGS + 1) offset"

text \<open>
  \<open>mdns_string_extract\<close> copies the labels to \<open>str\<close>, each followed by a dot while there is room: the
  bytes written so far are \<open>out\<close>.  \<open>stop\<close> is the variable \<open>end\<close>.  The result is what was
  written, the new offset and whether the name was complete.
\<close>

fun mdns_extract_labels ::
  "byte list \<Rightarrow> nat \<Rightarrow> nat \<Rightarrow> nat \<Rightarrow> byte list \<Rightarrow> nat \<Rightarrow> nat \<Rightarrow> (byte list \<times> nat option) res" where
  "mdns_extract_labels buf sz n cur out remain stop =
     bnd (mdns_get_next_substring buf sz cur) (\<lambda>sub.
       if sp_offset sub = MDNS_INVALID_POS then Inr (out, None)
       else case n of
              0 \<Rightarrow> Inr (out, None)
            | Suc n \<Rightarrow>
                let stop = (if sp_ref sub \<and> stop = MDNS_INVALID_POS then cur + 2 else stop) in
                if sp_length sub \<noteq> 0 then
                  bnd (buf_read buf (sp_offset sub) (min (sp_length sub) remain)) (\<lambda>label.
                    let remain = remain - min (sp_length sub) remain;
                        cur = sp_offset sub + sp_length sub
                    in if remain \<noteq> 0 then mdns_extract_labels buf sz n cur (out @ label @ [dot]) (remain - 1) stop
                       else mdns_extract_labels buf sz n cur (out @ label) remain stop)
                else Inr (out, Some (if stop = MDNS_INVALID_POS then sp_offset sub + sp_length sub + 1 else stop)))"

declare mdns_extract_labels.simps [simp del]

definition mdns_string_extract ::
  "byte list \<Rightarrow> nat \<Rightarrow> nat \<Rightarrow> nat \<Rightarrow> (byte list \<times> nat option) res" where
  "mdns_string_extract buf sz offset capacity =
     mdns_extract_labels buf sz (MDNS_MAX_SUBSTRINGS + 1) offset [] capacity MDNS_INVALID_POS"

section \<open>Answers\<close>

text \<open>\<open>None\<close> is the null string of the structure \<open>empty\<close>; otherwise what was written to the name buffer.\<close>

definition mdns_record_parse_ptr :: "byte list \<Rightarrow> nat \<Rightarrow> nat \<Rightarrow> nat \<Rightarrow> nat \<Rightarrow> byte list option res" where
  "mdns_record_parse_ptr buf sz offset len capacity =
     (if offset + len \<le> sz \<and> 2 \<le> len
      then bnd (mdns_string_extract buf sz offset capacity) (\<lambda>(out, stop). Inr (Some out))
      else Inr None)"

definition expected :: "byte list" where
  "expected = [0x7a, 0x65, 0x70, 0x68, 0x79, 0x72, 0x2e]"  \<comment> \<open>zephyr and a dot\<close>

text \<open>
  The loop of \<open>mdns_answer_check\<close> over \<open>n\<close> records.  \<open>namebuffer\<close> is not initialised and keeps what
  earlier records left in it; the comparisons do not look at the length of the name.
\<close>

fun mdns_answer_loop ::
  "byte list \<Rightarrow> nat \<Rightarrow> nat \<Rightarrow> nat \<Rightarrow> byte list \<Rightarrow> byte list \<Rightarrow> nat \<Rightarrow> bool res" where
  "mdns_answer_loop buf sz 0 offset namebuffer query query_len = Inr False"
| "mdns_answer_loop buf sz (Suc n) offset namebuffer query query_len =
     bnd (mdns_string_skip buf sz offset) (\<lambda>skipped.
       let offset = (case skipped of Some off \<Rightarrow> off | None \<Rightarrow> offset) in
       if sz < offset + 10 then Inr False
       else bnd (mdns_ntohs buf (offset + 8)) (\<lambda>rdlength.
         let len = unat rdlength; offset = offset + 10 in
         if len \<le> sz - offset then
           bnd (mdns_record_parse_ptr buf sz offset len (length namebuffer)) (\<lambda>name.
             case name of
               None \<Rightarrow> Inl NullDeref
             | Some out \<Rightarrow>
                 let namebuffer = out @ drop (length out) namebuffer in
                 bnd (buf_read namebuffer 0 (length expected)) (\<lambda>a.
                   if a = expected then
                     bnd (buf_read namebuffer (length expected) query_len) (\<lambda>b.
                     bnd (buf_read query 0 query_len) (\<lambda>q.
                       if b = q then Inr True
                       else mdns_answer_loop buf sz n (offset + len) namebuffer query query_len))
                   else mdns_answer_loop buf sz n (offset + len) namebuffer query query_len))
         else mdns_answer_loop buf sz n (offset + len) namebuffer query query_len))"

declare mdns_answer_loop.simps [simp del]

definition mdns_answer_check ::
  "'w zephyr \<Rightarrow> byte list \<Rightarrow> nat \<Rightarrow> nat \<Rightarrow> nat \<Rightarrow> byte list \<Rightarrow> nat \<Rightarrow> 'w \<Rightarrow> bool res" where
  "mdns_answer_check z buf sz offset records query query_len w =
     mdns_answer_loop buf sz records offset (stack_bytes z MDNS_PTR_NAME_SIZE w) query query_len"

primrec mdns_skip_questions :: "byte list \<Rightarrow> nat \<Rightarrow> nat \<Rightarrow> nat \<Rightarrow> nat option res" where
  "mdns_skip_questions buf sz 0 offset = Inr (Some offset)"
| "mdns_skip_questions buf sz (Suc n) offset =
     bnd (mdns_string_skip buf sz offset) (\<lambda>r.
       case r of None \<Rightarrow> Inr None | Some off \<Rightarrow> mdns_skip_questions buf sz n (off + 4))"

text \<open>The result is the address of the answering node, or \<open>None\<close>.\<close>

definition mdns_query_recv_internal ::
  "'w zephyr \<Rightarrow> int \<Rightarrow> byte list \<Rightarrow> nat \<Rightarrow> 'w \<Rightarrow> (byte list option \<times> 'w) res" where
  "mdns_query_recv_internal z sock query query_len w =
     (let garbage = stack_bytes z MDNS_RESPONSE_BUFFER_SIZE w;
          (ret, bs, addr, w) = zsock_recvfrom z sock MDNS_RESPONSE_BUFFER_SIZE w
      in if ret \<le> 0 then Inr (None, w)
         else
           let data_size = nat ret; buf = bs @ drop (length bs) garbage in
           bnd (mdns_ntohs buf 4) (\<lambda>questions.
           bnd (mdns_ntohs buf 6) (\<lambda>answer_rrs.
           bnd (mdns_skip_questions buf data_size (unat questions) mdns_header_len) (\<lambda>r.
             case r of
               None \<Rightarrow> Inr (None, w)
             | Some offset \<Rightarrow>
                 bnd (mdns_answer_check z buf data_size offset (unat answer_rrs) query query_len w) (\<lambda>ok.
                   Inr (if ok then Some addr else None, w))))))"

text \<open>
  The receive loop runs as long as datagrams keep coming and the list has room, so not returning is a
  possible outcome.
\<close>

partial_function (option) mdns_recv_loop ::
  "'w zephyr \<Rightarrow> int \<Rightarrow> nat \<Rightarrow> byte list \<Rightarrow> nat \<Rightarrow> int \<Rightarrow> byte list list \<Rightarrow> 'w \<Rightarrow>
     (byte list list \<times> 'w) res option" where
  "mdns_recv_loop z sock limit query query_len ret addrs w =
     (if 0 < ret \<and> length addrs < limit
      then case mdns_query_recv_internal z sock query query_len w of
             Inl e \<Rightarrow> Some (Inl e)
           | Inr (found, w) \<Rightarrow>
               let addrs = (case found of None \<Rightarrow> addrs | Some a \<Rightarrow> addrs @ [a]);
                   (ret, ev, w) = zsock_poll z [sock] 0 w
               in mdns_recv_loop z sock limit query query_len ret addrs w
      else Some (Inr (addrs, w)))"

definition mdns_query_recv ::
  "'w zephyr \<Rightarrow> int \<Rightarrow> nat \<Rightarrow> byte list \<Rightarrow> nat \<Rightarrow> int \<Rightarrow> 'w \<Rightarrow> (byte list list \<times> 'w) res" where
  "mdns_query_recv z sock addr_list_len query query_len timeout w =
     (let (ret, ev, w) = zsock_poll z [sock] timeout w in
      case mdns_recv_loop z sock addr_list_len query query_len ret [] w of
        None \<Rightarrow> Inl Diverges
      | Some r \<Rightarrow> r)"

text \<open>The address list is never overfilled.\<close>

lemma mdns_recv_loop_length:
  assumes "mdns_recv_loop z sock limit query query_len ret addrs w = Some r" "length addrs \<le> limit"
  shows "okr (\<lambda>aw. length (fst aw) \<le> limit) r"
proof -
  have "length addrs \<le> limit \<longrightarrow> okr (\<lambda>aw. length (fst aw) \<le> limit) r"
    by (rule mdns_recv_loop.raw_induct [OF _ assms(1), where P = "\<lambda>z sock limit query query_len ret addrs w r.
          length addrs \<le> limit \<longrightarrow> okr (\<lambda>aw. length (fst aw) \<le> limit) r"])
      (auto simp: Let_def Suc_le_eq split: sum.splits prod.splits option.splits if_splits)
  with assms(2) show ?thesis by simp
qed

lemma mdns_query_recv_length:
  "okr (\<lambda>aw. length (fst aw) \<le> n) (mdns_query_recv z sock n query query_len timeout w)"
  using mdns_recv_loop_length [where addrs = "[]" and limit = n]
  by (auto simp: mdns_query_recv_def Let_def split: prod.split option.split)

section \<open>Queries\<close>

definition mdns_multicast_send :: "'w zephyr \<Rightarrow> int \<Rightarrow> byte list \<Rightarrow> 'w \<Rightarrow> int \<times> 'w" where
  "mdns_multicast_send z sock data w =
     (let (ret, inet6, port, w) = zsock_getsockname z sock w in
      if ret \<noteq> 0 then (-1, w)
      else let (ret, w) = zsock_sendto z sock data (if inet6 then mdns_addr else [224, 0, 0, 251]) MDNS_PORT w
           in if ret < 0 then (-1, w) else (0, w))"

primrec mdns_fill_questions ::
  "byte list \<Rightarrow> nat \<Rightarrow> nat \<Rightarrow> u16 \<Rightarrow> (u16 \<times> byte list \<times> nat) list \<Rightarrow> (nat option \<times> byte list) res" where
  "mdns_fill_questions buf capacity data rclass [] = Inr (Some data, buf)"
| "mdns_fill_questions buf capacity data rclass (q # qs) =
     (let (rtype, name, len) = q in
      bnd (mdns_string_make buf capacity data name len None) (\<lambda>(d, buf).
        case d of
          None \<Rightarrow> Inr (None, buf)
        | Some data \<Rightarrow>
            bnd (mdns_htons buf data rtype) (\<lambda>(data, buf).
            bnd (mdns_htons buf data rclass) (\<lambda>(data, buf).
              mdns_fill_questions buf capacity data rclass qs))))"

definition mdns_multiquery_send ::
  "'w zephyr \<Rightarrow> int \<Rightarrow> (u16 \<times> byte list \<times> nat) list \<Rightarrow> byte list \<Rightarrow> nat \<Rightarrow> u16 \<Rightarrow> 'w \<Rightarrow> (int \<times> 'w) res" where
  "mdns_multiquery_send z sock query buf capacity query_id w =
     (if query = [] \<or> capacity < mdns_header_len + 6 * length query then Inr (-1, w)
      else
        let (ret, inet6, port, w) = zsock_getsockname z sock w;
            rclass = (if ret = 0 \<and> port = MDNS_PORT then MDNS_CLASS_IN AND NOT MDNS_UNICAST_RESPONSE else MDNS_CLASS_IN);
            header = be16 query_id @ [0, 0] @ be16 (of_nat (length query)) @ [0, 0, 0, 0, 0, 0]
        in bnd (buf_write buf 0 header) (\<lambda>buf.
           bnd (mdns_fill_questions buf capacity mdns_header_len rclass query) (\<lambda>(d, buf).
             case d of
               None \<Rightarrow> Inr (-1, w)
             | Some tosend \<Rightarrow>
                 bnd (buf_read buf 0 tosend) (\<lambda>packet.
                   let (ret, w) = mdns_multicast_send z sock packet w in
                   Inr (if ret \<noteq> 0 then -1 else uint query_id, w)))))"

definition mdns_query_send :: "'w zephyr \<Rightarrow> int \<Rightarrow> byte list \<Rightarrow> nat \<Rightarrow> 'w \<Rightarrow> (int \<times> 'w) res" where
  "mdns_query_send z sock name len w =
     mdns_multiquery_send z sock [(MDNS_RECORDTYPE_PTR, name, len)] (stack_bytes z MDNS_REQUEST_BUFFER_SIZE w)
       MDNS_REQUEST_BUFFER_SIZE 0 w"

section \<open>Sockets\<close>

definition join_multicast_group :: "'w zephyr \<Rightarrow> byte list \<Rightarrow> 'w \<Rightarrow> bool \<times> 'w" where
  "join_multicast_group z mcast_addr w =
     (let (iface, w) = net_if_get_default z w in
      if \<not> iface then (False, w)
      else let (mcast, w) = net_if_ipv6_maddr_add z mcast_addr w in
           if \<not> mcast then (False, w) else (True, net_if_ipv6_maddr_join z w))"

definition mdns_socket_setup_ipv6 :: "'w zephyr \<Rightarrow> int \<Rightarrow> byte list \<Rightarrow> 'w \<Rightarrow> int \<times> 'w" where
  "mdns_socket_setup_ipv6 z sock jaddr w =
     (let (joined, w) = join_multicast_group z jaddr w in
      if \<not> joined then (-1, w)
      else let (ret, w) = zsock_bind z sock MDNS_PORT (zsock_reuse z sock w) in
           if ret \<noteq> 0 then (-1, w) else (0, w))"

definition mdns_socket_close :: "'w zephyr \<Rightarrow> int \<Rightarrow> 'w \<Rightarrow> 'w" where
  "mdns_socket_close z sock w = zsock_close z sock w"

definition mdns_socket_open_ipv6 :: "'w zephyr \<Rightarrow> byte list \<Rightarrow> 'w \<Rightarrow> int \<times> 'w" where
  "mdns_socket_open_ipv6 z jaddr w =
     (let (sock, w) = zsock_socket_dgram z w in
      if sock < 0 then (-1, w)
      else let (ret, w) = mdns_socket_setup_ipv6 z sock jaddr w in
           if ret \<noteq> 0 then (-1, mdns_socket_close z sock w) else (sock, w))"

section \<open>Parsing is safe\<close>

lemma mdns_ntohs_ok: "off + 2 \<le> length buf \<Longrightarrow> \<exists>v. mdns_ntohs buf off = Inr v"
  by (simp add: mdns_ntohs_def)

lemma mdns_follow_refs_ok:
  assumes "sz \<le> length buf" "offset < sz"
  shows "\<exists>p. mdns_follow_refs buf sz n offset ref = Inr p \<and> (\<forall>off. fst p = Some off \<longrightarrow> off < sz)"
  using assms(2)
proof (induction n arbitrary: offset ref)
  case 0
  have t: "\<exists>x. x" by (rule exI [of _ True]) simp
  from 0 assms(1) mdns_ntohs_ok [of offset buf] show ?case
    by (auto simp: mdns_follow_refs.simps [of buf sz 0] Let_def t)
next
  case (Suc n)
  show ?case
  proof (cases "mdns_is_string_ref (buf ! offset) \<and> offset + 2 \<le> sz")
    case False
    with Suc.prems assms(1) show ?thesis by (auto simp: mdns_follow_refs.simps [of buf sz "Suc n"])
  next
    case True
    then obtain v where v: "mdns_ntohs buf offset = Inr v" using mdns_ntohs_ok [of offset buf] assms(1) by auto
    with True Suc assms(1) show ?thesis
      by (cases "unat (v AND 0x3fff) < sz") (auto simp: mdns_follow_refs.simps [of buf sz "Suc n"] Let_def)
  qed
qed

lemma mdns_get_next_substring_ok:
  assumes "sz \<le> length buf" "sz < MDNS_INVALID_POS"
  shows "\<exists>sub. mdns_get_next_substring buf sz offset = Inr sub \<and>
    (sp_offset sub = MDNS_INVALID_POS \<or> sp_offset sub + sp_length sub \<le> sz)"
proof (cases "offset < sz \<and> buf ! offset \<noteq> 0")
  case True
  obtain r ref where r: "mdns_follow_refs buf sz 16 offset False = Inr (r, ref)" "\<forall>off. r = Some off \<longrightarrow> off < sz"
    using mdns_follow_refs_ok [OF assms(1), of offset 16 False] True by auto
  with r True assms show ?thesis
    by (cases r) (auto simp: mdns_get_next_substring_def invalid_pair_def Let_def)
qed (use assms in \<open>auto simp: mdns_get_next_substring_def invalid_pair_def\<close>)

lemma mdns_skip_labels_ok:
  assumes "sz \<le> length buf" "sz < MDNS_INVALID_POS"
  shows "\<exists>r. mdns_skip_labels buf sz n cur = Inr r \<and> (\<forall>off. r = Some off \<longrightarrow> off \<le> sz + 2)"
proof (induction n arbitrary: cur)
  case 0
  obtain sub where "mdns_get_next_substring buf sz cur = Inr sub"
    using mdns_get_next_substring_ok [OF assms] by blast
  then show ?case by (simp add: mdns_skip_labels.simps [of buf sz 0])
next
  case (Suc n)
  obtain sub where sub: "mdns_get_next_substring buf sz cur = Inr sub"
    "sp_offset sub = MDNS_INVALID_POS \<or> sp_offset sub + sp_length sub \<le> sz"
    using mdns_get_next_substring_ok [OF assms] by blast
  moreover have "cur < sz" if "sp_offset sub \<noteq> MDNS_INVALID_POS"
    using sub that by (auto simp: mdns_get_next_substring_def invalid_pair_def split: if_splits)
  ultimately show ?case using Suc by (auto simp: mdns_skip_labels.simps [of buf sz "Suc n"])
qed

lemma mdns_extract_labels_ok:
  assumes "sz \<le> length buf" "sz < MDNS_INVALID_POS"
  shows "\<exists>p. mdns_extract_labels buf sz n cur out remain stop = Inr p \<and> length (fst p) \<le> length out + remain"
proof (induction n arbitrary: cur out remain stop)
  case 0
  obtain sub where "mdns_get_next_substring buf sz cur = Inr sub"
    using mdns_get_next_substring_ok [OF assms] by blast
  then show ?case by (simp add: mdns_extract_labels.simps [of buf sz 0])
next
  case (Suc n)
  obtain sub where sub: "mdns_get_next_substring buf sz cur = Inr sub"
    "sp_offset sub = MDNS_INVALID_POS \<or> sp_offset sub + sp_length sub \<le> sz"
    using mdns_get_next_substring_ok [OF assms] by blast
  show ?case
  proof (cases "sp_offset sub = MDNS_INVALID_POS \<or> sp_length sub = 0")
    case True
    with sub show ?thesis by (auto simp: mdns_extract_labels.simps [of buf sz "Suc n"] Let_def)
  next
    case False
    let ?k = "min (sp_length sub) remain"
    let ?label = "take ?k (drop (sp_offset sub) buf)"
    have rd: "buf_read buf (sp_offset sub) ?k = Inr ?label" and len: "length ?label = ?k"
      using sub False assms(1) by auto
    let ?stop = "if sp_ref sub \<and> stop = MDNS_INVALID_POS then cur + 2 else stop"
    show ?thesis
    proof (cases "remain - ?k = 0")
      case True
      obtain p where "mdns_extract_labels buf sz n (sp_offset sub + sp_length sub) (out @ ?label) (remain - ?k) ?stop = Inr p"
        "length (fst p) \<le> length (out @ ?label) + (remain - ?k)" using Suc by blast
      with sub(1) rd len True False show ?thesis
        by (simp add: mdns_extract_labels.simps [of buf sz "Suc n"] Let_def)
    next
      case more: False
      obtain p where "mdns_extract_labels buf sz n (sp_offset sub + sp_length sub) (out @ ?label @ [dot]) (remain - ?k - 1) ?stop = Inr p"
        "length (fst p) \<le> length (out @ ?label @ [dot]) + (remain - ?k - 1)" using Suc by blast
      with sub(1) rd len more False show ?thesis
        by (simp add: mdns_extract_labels.simps [of buf sz "Suc n"] Let_def)
    qed
  qed
qed

text \<open>
  C30. Parsing names in a received packet is memory safe and ends, whatever the packet: for any buffer
  and any announced size within it, any start offset and any capacity, skipping and extracting a name
  never read outside the packet, follow reference cycles for ever or write more than the capacity, and
  a skipped name ends at most two bytes behind the packet.
\<close>

theorem mdns_names_safe:
  assumes "sz \<le> length buf" and "sz < MDNS_INVALID_POS"
  shows "(\<exists>r. mdns_string_skip buf sz offset = Inr r \<and> (\<forall>off. r = Some off \<longrightarrow> off \<le> sz + 2)) \<and>
    (\<exists>p. mdns_string_extract buf sz offset capacity = Inr p \<and> length (fst p) \<le> capacity)"
  using mdns_skip_labels_ok [OF assms] mdns_extract_labels_ok [OF assms, of _ _ "[]" capacity]
  by (fastforce simp: mdns_string_skip_def mdns_string_extract_def)

theorem mdns_names_safe_witness:
  "(\<exists>r. mdns_string_skip [0xC0, 0, 3] 3 0 = Inr r \<and> (\<forall>off. r = Some off \<longrightarrow> off \<le> 3 + 2)) \<and>
    (\<exists>p. mdns_string_extract [0xC0, 0, 3] 3 0 10 = Inr p \<and> length (fst p) \<le> 10)"
  by (rule mdns_names_safe) (simp_all add: MDNS_INVALID_POS_def)

section \<open>Writing and reading names\<close>

definition enc_labels :: "byte list list \<Rightarrow> byte list" where
  "enc_labels ls = concat (map (\<lambda>l. of_nat (length l) # l) ls) @ [0]"

fun join_dots :: "byte list list \<Rightarrow> byte list" where
  "join_dots [] = []"
| "join_dots [l] = l"
| "join_dots (l # ls) = l @ dot # join_dots ls"

definition label_ok :: "byte list \<Rightarrow> bool" where
  "label_ok l \<longleftrightarrow> l \<noteq> [] \<and> length l \<le> 63 \<and> dot \<notin> set l"

lemma enc_labels_simps [simp]:
  "enc_labels [] = [0]" "enc_labels (l # ls) = of_nat (length l) # l @ enc_labels ls"
  by (simp_all add: enc_labels_def)

lemma short_not_ref:
  assumes "n \<le> 63" shows "\<not> mdns_is_string_ref (of_nat n)"
proof -
  have "\<forall>n \<in> set [0..<64]. \<not> mdns_is_string_ref (of_nat n)" by code_simp
  then show ?thesis using assms by auto
qed

lemma first_dot: "dot \<notin> set l \<Longrightarrow> first_index (\<lambda>b. b = dot) (l @ dot # xs) = Some (length l)"
  by (induction l) auto

lemma join_dots_find:
  assumes "label_ok l"
  shows "first_index (\<lambda>b. b = dot) (join_dots (l # ls)) = (if ls = [] then None else Some (length l))"
proof (cases ls)
  case Nil
  with assms show ?thesis by (auto simp: label_ok_def first_index_None_iff)
next
  case (Cons l' ls')
  with assms show ?thesis by (simp add: label_ok_def first_dot)
qed

lemma buf_write_then_write:
  "data + length xs + length ys \<le> length buf \<Longrightarrow>
     buf_write buf data xs = Inr b \<Longrightarrow>
     take (data + length xs) b @ ys @ drop (data + length xs + length ys) b =
     take data buf @ xs @ ys @ drop (data + length xs + length ys) buf"
  by (auto simp: buf_write_def ac_simps split: if_splits)

text \<open>
  The first label of what is left of a dotted name: where the search for the next dot ends, what is
  read, and what remains after it.
\<close>

definition label_end :: "byte list list \<Rightarrow> byte list \<Rightarrow> nat \<Rightarrow> nat" where
  "label_end ls l last_pos = (if ls = [] then MDNS_INVALID_POS else last_pos + length l)"

lemma dotted_length:
  assumes "label_ok l" "len \<le> length name" "take (len - last_pos) (drop last_pos name) = join_dots (l # ls)"
  shows "length (join_dots (l # ls)) = len - last_pos" "last_pos < len" "length l \<le> len - last_pos"
    "ls \<noteq> [] \<Longrightarrow> last_pos + length l < len"
proof -
  have l: "0 < length l" using assms(1) by (auto simp: label_ok_def)
  have jl: "length l \<le> length (join_dots (l # ls))" by (cases ls) simp_all
  have "length (join_dots (l # ls)) = length (take (len - last_pos) (drop last_pos name))" by (simp only: assms(3))
  then show lj: "length (join_dots (l # ls)) = len - last_pos" using assms(2) by simp
  show "last_pos < len" using jl l lj by linarith
  show "length l \<le> len - last_pos" using jl lj by linarith
  show "ls \<noteq> [] \<Longrightarrow> last_pos + length l < len" using lj by (cases ls) auto
qed

lemma dotted_first:
  assumes "label_ok l" "len \<le> length name" "take (len - last_pos) (drop last_pos name) = join_dots (l # ls)"
  shows "mdns_string_find name len dot last_pos = Inr (label_end ls l last_pos)" "buf_read name last_pos (length l) = Inr l"
proof -
  note lt = dotted_length [OF assms]
  have "buf_read name last_pos (len - last_pos) = Inr (join_dots (l # ls))"
    using assms(2,3) lt(2) by (simp add: buf_read_def del: join_dots.simps)
  then show "mdns_string_find name len dot last_pos = Inr (label_end ls l last_pos)"
    using lt(2) join_dots_find [OF assms(1), of ls] by (simp add: mdns_string_find_def label_end_def del: join_dots.simps)
  have "take (length l) (drop last_pos name) = take (length l) (take (len - last_pos) (drop last_pos name))"
    using lt(3) by (simp add: min_absorb1)
  also have "\<dots> = l" unfolding assms(3) by (cases ls) simp_all
  finally show "buf_read name last_pos (length l) = Inr l" using lt(2,3) assms(2) by (simp add: buf_read_def)
qed

lemma dotted_next:
  assumes "label_ok l" "len \<le> length name" "take (len - last_pos) (drop last_pos name) = join_dots (l # ls)"
    and "len < MDNS_INVALID_POS"
    and next_pos: "next_pos = (if label_end ls l last_pos \<noteq> MDNS_INVALID_POS then label_end ls l last_pos + 1 else len)"
  shows "next_pos \<le> len" "take (len - next_pos) (drop next_pos name) = join_dots ls"
    "(if label_end ls l last_pos \<noteq> MDNS_INVALID_POS then label_end ls l last_pos else len) - last_pos = length l"
proof -
  note lt = dotted_length [OF assms(1-3)]
  show "next_pos \<le> len" using lt(4) assms(4) by (auto simp: next_pos label_end_def)
  show "(if label_end ls l last_pos \<noteq> MDNS_INVALID_POS then label_end ls l last_pos else len) - last_pos = length l"
    using lt(1,4) assms(4) by (auto simp: label_end_def)
  show "take (len - next_pos) (drop next_pos name) = join_dots ls"
  proof (cases ls)
    case Nil
    then show ?thesis by (simp add: next_pos label_end_def)
  next
    case (Cons l' ls')
    then have n: "next_pos = last_pos + (length l + 1)" using lt(4) assms(4) by (auto simp: next_pos label_end_def)
    have "take (len - next_pos) (drop next_pos name) = drop (length l + 1) (take (len - last_pos) (drop last_pos name))"
      unfolding n by (simp add: drop_take add.commute)
    also have "\<dots> = join_dots ls" using Cons assms(3) by simp
    finally show ?thesis .
  qed
qed

lemma mdns_make_labels_eq:
  assumes "\<forall>l \<in> set ls. label_ok l" "len \<le> length name" "len < MDNS_INVALID_POS" "last_pos \<le> len"
    and "take (len - last_pos) (drop last_pos name) = join_dots ls"
    and "capacity \<le> length buf" "capacity < 2 ^ 32" "data + length (enc_labels ls) \<le> capacity"
  shows "mdns_make_labels buf capacity data name len None last_pos =
    Inr (Some (data + length (enc_labels ls)),
      take data buf @ enc_labels ls @ drop (data + length (enc_labels ls)) buf)"
  using assms
proof (induction ls arbitrary: buf data last_pos)
  case Nil
  then have "last_pos = len" by (cases "len - last_pos") auto
  moreover have "size_sub capacity data = capacity - data" using Nil.prems by (intro size_sub_exact) simp_all
  ultimately show ?case
    using Nil.prems by (simp add: mdns_make_labels.simps [of buf] buf_write_def Let_def)
next
  case (Cons l ls)
  have l: "label_ok l" using Cons.prems(1) by simp
  define next_pos where "next_pos = (if label_end ls l last_pos \<noteq> MDNS_INVALID_POS then label_end ls l last_pos + 1 else len)"
  note lt = dotted_length(2) [OF l Cons.prems(2,5)]
  note first = dotted_first [OF l Cons.prems(2,5)]
  note nxt = dotted_next [OF l Cons.prems(2,5,3) next_pos_def]
  let ?w = "of_nat (length l) # l"
  let ?b = "take data buf @ ?w @ drop (data + length ?w) buf"
  have fits: "data + length ?w + length (enc_labels ls) \<le> capacity" using Cons.prems(8) by simp
  have wr: "buf_write buf data ?w = Inr ?b" using fits Cons.prems(6) by (simp add: buf_write_def)
  have rem: "size_sub capacity data = capacity - data" using fits Cons.prems(7) by (intro size_sub_exact) simp_all
  have "0 < length (enc_labels ls)" by (cases ls) simp_all
  moreover have "Suc (data + length l) + length (enc_labels ls) \<le> capacity" using fits by simp
  ultimately have room: "\<not> capacity - data \<le> Suc (length l)" by linarith
  have "mdns_make_labels buf capacity data name len None last_pos =
      mdns_make_labels ?b capacity (data + length l + 1) name len None next_pos"
    using lt first nxt(3) wr rem room
    by (simp add: mdns_make_labels.simps [of buf] Let_def mdns_string_table_find_def mdns_string_table_add_def next_pos_def)
  also have "\<dots> = Inr (Some (data + length l + 1 + length (enc_labels ls)),
      take (data + length l + 1) ?b @ enc_labels ls @ drop (data + length l + 1 + length (enc_labels ls)) ?b)"
    using Cons.IH [OF _ Cons.prems(2,3) nxt(1,2)] Cons.prems(1,6,7) fits by simp
  also have "take (data + length l + 1) ?b @ enc_labels ls @ drop (data + length l + 1 + length (enc_labels ls)) ?b =
      take data buf @ ?w @ enc_labels ls @ drop (data + length l + 1 + length (enc_labels ls)) buf"
    using fits Cons.prems(6) buf_write_then_write [OF _ wr, of "enc_labels ls"] by simp
  finally show ?case by (simp add: add.assoc)
qed

lemma next_label:
  assumes "label_ok l" "drop cur buf = of_nat (length l) # l @ rest" "sz \<le> length buf" "cur + length l + 1 \<le> sz"
  shows "mdns_get_next_substring buf sz cur = Inr \<lparr>sp_offset = cur + 1, sp_length = length l, sp_ref = False\<rparr>"
proof -
  have c: "cur < length buf" using assms(3,4) by simp
  have b: "buf ! cur = of_nat (length l)" using assms(2) c by (metis hd_drop_conv_nth list.sel(1))
  have u: "unat (of_nat (length l) :: byte) = length l"
    using assms(1) by (simp add: label_ok_def unat_of_nat)
  then have nz: "(of_nat (length l) :: byte) \<noteq> 0" using assms(1) by (metis label_ok_def length_0_conv unat_0)
  have "\<not> mdns_is_string_ref (of_nat (length l))" using assms(1) by (intro short_not_ref) (simp add: label_ok_def)
  then show ?thesis
    using assms(3,4) c b u nz
    by (simp add: mdns_get_next_substring_def mdns_follow_refs.simps [of buf sz 16 cur] Let_def)
qed

lemma mdns_extract_labels_eq:
  assumes "\<forall>l \<in> set ls. label_ok l" "drop cur buf = enc_labels ls @ rest" "sz \<le> length buf"
    "cur + length (enc_labels ls) \<le> sz" "sz < MDNS_INVALID_POS" "length ls < n"
    "length (concat (map (\<lambda>l. l @ [dot]) ls)) \<le> remain"
  shows "mdns_extract_labels buf sz n cur out remain MDNS_INVALID_POS =
    Inr (out @ concat (map (\<lambda>l. l @ [dot]) ls), Some (cur + length (enc_labels ls)))"
  using assms
proof (induction ls arbitrary: cur n out remain)
  case Nil
  then obtain m where n: "n = Suc m" by (cases n) auto
  have "cur < length buf" "buf ! cur = 0"
    using Nil.prems(2,3,4) by simp_all (metis hd_drop_conv_nth list.sel(1) less_le_trans Suc_le_eq)
  then have "mdns_get_next_substring buf sz cur = Inr \<lparr>sp_offset = cur, sp_length = 0, sp_ref = False\<rparr>"
    using Nil.prems(4) by (simp add: mdns_get_next_substring_def invalid_pair_def)
  with Nil.prems(4,5) n show ?case by (simp add: mdns_extract_labels.simps [of buf sz "Suc m"])
next
  case (Cons l ls)
  then obtain m where n: "n = Suc m" by (cases n) auto
  have l: "label_ok l" using Cons.prems(1) by simp
  have d: "drop cur buf = of_nat (length l) # l @ enc_labels ls @ rest" using Cons.prems(2) by simp
  have "mdns_get_next_substring buf sz cur = Inr \<lparr>sp_offset = cur + 1, sp_length = length l, sp_ref = False\<rparr>"
    using Cons.prems(3,4) by (intro next_label [OF l d]) simp_all
  moreover have d1: "drop (cur + 1) buf = l @ enc_labels ls @ rest"
    using d by (metis drop_drop drop_Suc_Cons drop0 add.commute plus_1_eq_Suc)
  have dl: "drop (cur + 1 + length l) buf = enc_labels ls @ rest"
    using d1 by (metis append_eq_conv_conj drop_drop add.commute)
  have rd: "buf_read buf (cur + 1) (length l) = Inr l" using Cons.prems(3,4) d1 by (simp add: buf_read_def)
  have rem: "min (length l) remain = length l" "remain - length l \<noteq> 0"
    "length (concat (map (\<lambda>l. l @ [dot]) ls)) \<le> remain - length l - 1" using Cons.prems(7) by auto
  have "mdns_extract_labels buf sz m (cur + 1 + length l) (out @ l @ [dot]) (remain - length l - 1) MDNS_INVALID_POS =
      Inr ((out @ l @ [dot]) @ concat (map (\<lambda>l. l @ [dot]) ls), Some (cur + 1 + length l + length (enc_labels ls)))"
    using Cons.prems n by (intro Cons.IH [OF _ dl _ _ _ _ rem(3)]) simp_all
  moreover have "l \<noteq> []" "cur + 1 \<noteq> MDNS_INVALID_POS" using l Cons.prems(4,5) by (auto simp: label_ok_def)
  ultimately show ?case
    using n rd rem(1,2) by (simp add: mdns_extract_labels.simps [of buf sz "Suc m"] Let_def)
qed

lemma join_dots_dotted: "ls \<noteq> [] \<Longrightarrow> concat (map (\<lambda>l. l @ [dot]) ls) = join_dots ls @ [dot]"
  by (induction ls rule: join_dots.induct) auto

lemma length_enc_labels: "ls \<noteq> [] \<Longrightarrow> length (enc_labels ls) = length (join_dots ls) + 2"
  by (induction ls rule: join_dots.induct) auto

lemma join_dots_last: "ls \<noteq> [] \<Longrightarrow> \<forall>l \<in> set ls. label_ok l \<Longrightarrow> join_dots ls \<noteq> [] \<and> last (join_dots ls) \<noteq> dot"
  by (induction ls rule: join_dots.induct) (auto simp: label_ok_def, metis last_in_set)

lemma mdns_string_make_eq:
  assumes "\<forall>l \<in> set ls. label_ok l" "ls \<noteq> []" "capacity \<le> length buf" "capacity < MDNS_INVALID_POS"
    "data + length (enc_labels ls) \<le> capacity"
  shows "mdns_string_make buf capacity data (join_dots ls) (length (join_dots ls)) None =
    Inr (Some (data + length (enc_labels ls)),
      take data buf @ enc_labels ls @ drop (data + length (enc_labels ls)) buf)"
proof -
  let ?n = "join_dots ls"
  have n: "?n \<noteq> []" "last ?n \<noteq> dot" using join_dots_last [OF assms(2,1)] by auto
  have small: "length ?n < MDNS_INVALID_POS" using assms(4,5) length_enc_labels [OF assms(2)] by simp
  then have "size_sub (length ?n) 1 = length ?n - 1"
    using n(1) by (intro size_sub_exact) (auto simp: MDNS_INVALID_POS_def Suc_le_eq)
  moreover have "?n ! (length ?n - 1) = last ?n" using n(1) by (simp add: last_conv_nth)
  ultimately have "mdns_string_make buf capacity data ?n (length ?n) None =
      mdns_make_labels buf capacity data ?n (length ?n) None 0"
    using n by (simp add: mdns_string_make_def)
  also have "\<dots> = Inr (Some (data + length (enc_labels ls)),
      take data buf @ enc_labels ls @ drop (data + length (enc_labels ls)) buf)"
    using assms small by (intro mdns_make_labels_eq) (simp_all add: MDNS_INVALID_POS_def)
  finally show ?thesis .
qed

text \<open>
  C14. Names survive the packet: a dotted name of up to 64 labels of 1 to 63 bytes that fits the buffer
  is written by \<open>mdns_string_make\<close> at any position, and \<open>mdns_string_extract\<close> at that position reads
  back the same name, with a final dot, and stops exactly behind what was written.
\<close>

theorem mdns_name_roundtrip:
  assumes "\<forall>l \<in> set ls. label_ok l" and "ls \<noteq> []" and "length ls \<le> 64" and "capacity \<le> length buf"
    and "capacity < MDNS_INVALID_POS" and "data + length (join_dots ls) + 2 \<le> capacity"
    and "length (join_dots ls) < room"
  shows "\<exists>buf' stop. mdns_string_make buf capacity data (join_dots ls) (length (join_dots ls)) None = Inr (Some stop, buf') \<and>
    mdns_string_extract buf' capacity data room = Inr (join_dots ls @ [dot], Some stop) \<and>
    length buf' = length buf \<and> take data buf' = take data buf \<and> drop stop buf' = drop stop buf"
proof (intro exI conjI)
  note len = length_enc_labels [OF assms(2)]
  let ?b = "take data buf @ enc_labels ls @ drop (data + length (enc_labels ls)) buf"
  show "mdns_string_make buf capacity data (join_dots ls) (length (join_dots ls)) None =
      Inr (Some (data + length (enc_labels ls)), ?b)"
    by (rule mdns_string_make_eq) (use assms len in simp_all)
  show "mdns_string_extract ?b capacity data room = Inr (join_dots ls @ [dot], Some (data + length (enc_labels ls)))"
    unfolding mdns_string_extract_def
    using mdns_extract_labels_eq [OF assms(1), of data ?b "drop (data + length (enc_labels ls)) buf" capacity
        "MDNS_MAX_SUBSTRINGS + 1" room "[]"] assms len join_dots_dotted [OF assms(2)]
    by (simp add: MDNS_MAX_SUBSTRINGS_def)
  show "length ?b = length buf" "take data ?b = take data buf"
    "drop (data + length (enc_labels ls)) ?b = drop (data + length (enc_labels ls)) buf"
    using assms(4,6) len by simp_all
qed

definition greybus_labels :: "byte list list" where
  \<comment> \<open>the labels of the query name: _greybus, _tcp, local\<close>
  "greybus_labels = [[0x5f, 0x67, 0x72, 0x65, 0x79, 0x62, 0x75, 0x73], [0x5f, 0x74, 0x63, 0x70],
     [0x6c, 0x6f, 0x63, 0x61, 0x6c]]"

lemma greybus_labels_ok: "\<forall>l \<in> set greybus_labels. label_ok l"
  by (simp add: greybus_labels_def label_ok_def dot_def)

theorem mdns_name_roundtrip_witness:
  "\<exists>buf' stop. mdns_string_make (replicate 100 0) 100 12 (join_dots greybus_labels) (length (join_dots greybus_labels)) None = Inr (Some stop, buf') \<and>
    mdns_string_extract buf' 100 12 50 = Inr (join_dots greybus_labels @ [dot], Some stop) \<and>
    length buf' = length (replicate 100 (0 :: byte)) \<and> take 12 buf' = take 12 (replicate 100 0) \<and>
    drop stop buf' = drop stop (replicate 100 0)"
  by (rule mdns_name_roundtrip [OF greybus_labels_ok]) (simp_all add: greybus_labels_def MDNS_INVALID_POS_def)

text \<open>
  C31. The query on the wire: for a well-formed name that leaves room for the question's type and class
  in the 100-byte buffer, \<open>mdns_query_send\<close> sends one datagram to port 5353 of the mDNS group of the
  socket's address family: id 0, no flags, one question, the encoded name, type PTR, class IN; it
  returns 0 when the socket takes the datagram and -1 when it does not.
\<close>

theorem mdns_query_on_the_wire:
  assumes "recvfrom_documented z" and "\<forall>l \<in> set ls. label_ok l" and "ls \<noteq> []"
    and "length (join_dots ls) \<le> 82" and "zsock_getsockname z sock w = (0, fam, port, w1)"
    and "zsock_getsockname z sock w1 = (0, fam', port', w2)"
    and "zsock_sendto z sock ([0, 0, 0, 0, 0, 1, 0, 0, 0, 0, 0, 0] @ enc_labels ls @ [0, 12, 0, 1])
      (if fam' then mdns_addr else [224, 0, 0, 251]) 5353 w2 = (r, w3)"
  shows "mdns_query_send z sock (join_dots ls) (length (join_dots ls)) w = Inr (if r < 0 then -1 else 0, w3)"
proof -
  let ?g = "stack_bytes z 100 w"
  define h :: "byte list" where "h = [0, 0, 0, 0, 0, 1, 0, 0, 0, 0, 0, 0]"
  have lh: "length h = 12" by (simp add: h_def)
  have g: "length ?g = 100" using assms(1) by (simp add: recvfrom_documented_def)
  have hdr: "be16 0 @ [0, 0] @ be16 1 @ [0, 0, 0, 0, 0, 0] = h" unfolding h_def by code_simp
  have cls: "MDNS_CLASS_IN AND NOT MDNS_UNICAST_RESPONSE = MDNS_CLASS_IN" by code_simp
  have tail: "be16 MDNS_RECORDTYPE_PTR = [0, 12]" "be16 MDNS_CLASS_IN = [0, 1]" by code_simp+
  let ?b1 = "h @ drop 12 ?g"
  note len = length_enc_labels [OF assms(3)]
  let ?e = "12 + length (enc_labels ls)"
  have "mdns_string_make ?b1 100 12 (join_dots ls) (length (join_dots ls)) None =
      Inr (Some ?e, take 12 ?b1 @ enc_labels ls @ drop ?e ?b1)"
    by (rule mdns_string_make_eq) (use assms g len lh in \<open>simp_all add: MDNS_INVALID_POS_def\<close>)
  then have "mdns_string_make ?b1 100 12 (join_dots ls) (length (join_dots ls)) None =
      Inr (Some ?e, h @ enc_labels ls @ drop ?e ?g)"
    using lh by (simp add: add.commute)
  moreover have "mdns_htons (h @ enc_labels ls @ drop ?e ?g) ?e MDNS_RECORDTYPE_PTR =
      Inr (?e + 2, h @ enc_labels ls @ [0, 12] @ drop (?e + 2) ?g)"
    using assms(4) g len lh by (simp add: mdns_htons_def tail buf_write_def)
  moreover have "mdns_htons (h @ enc_labels ls @ [0, 12] @ drop (?e + 2) ?g) (?e + 2) MDNS_CLASS_IN =
      Inr (?e + 4, h @ enc_labels ls @ [0, 12, 0, 1] @ drop (?e + 4) ?g)"
    using assms(4) g len lh by (simp add: mdns_htons_def tail buf_write_def)
  ultimately have fill: "mdns_fill_questions ?b1 100 12 MDNS_CLASS_IN [(MDNS_RECORDTYPE_PTR, join_dots ls, length (join_dots ls))] =
      Inr (Some (?e + 4), h @ enc_labels ls @ [0, 12, 0, 1] @ drop (?e + 4) ?g)"
    by simp
  have rd: "buf_read (h @ enc_labels ls @ [0, 12, 0, 1] @ drop (?e + 4) ?g) 0 (?e + 4) =
      Inr (h @ enc_labels ls @ [0, 12, 0, 1])"
    using assms(4) g len lh by (simp add: buf_read_def)
  have hw: "buf_write ?g 0 h = Inr ?b1" using g lh by (simp add: buf_write_def)
  show ?thesis
    using assms(5,6) assms(7) [folded h_def] hw fill rd hdr
    by (simp add: mdns_query_send_def mdns_multiquery_send_def MDNS_REQUEST_BUFFER_SIZE_def mdns_header_len_def cls
        mdns_multicast_send_def MDNS_PORT_def Let_def del: mdns_fill_questions.simps)
qed

theorem mdns_query_on_the_wire_witness:
  "mdns_query_send sample_zephyr 6 (join_dots greybus_labels) (length (join_dots greybus_labels)) ([], []) =
     Inr (if (37 :: int) < 0 then -1 else 0,
       ([0, 0, 0, 0, 0, 1, 0, 0, 0, 0, 0, 0] @ enc_labels greybus_labels @ [0, 12, 0, 1], []))"
  by (rule mdns_query_on_the_wire [where fam = True and fam' = True and port = 5353 and port' = 5353
        and ?w1.0 = "([], [])" and ?w2.0 = "([], [])"])
    (simp_all add: sample_documented greybus_labels_ok, simp_all add: greybus_labels_def)

text \<open>
  An answer record whose data is too short to be a name makes \<open>mdns_answer_check\<close> compare through
  a null pointer: \<open>mdns_record_parse_ptr\<close> returns the empty string structure, and its null pointer is
  passed to \<open>memcmp\<close>.  A single datagram from anyone on the network does it.
\<close>

lemma mdns_short_record_null:
  assumes "mdns_string_skip buf sz offset = Inr (Some off)" and "off + 10 + rdlength \<le> sz" and "sz \<le> length buf"
    and "mdns_ntohs buf (off + 8) = Inr (of_nat rdlength)" and "rdlength < 2"
  shows "mdns_answer_check z buf sz offset (Suc n) query query_len w = Inl NullDeref"
proof -
  have "unat (of_nat rdlength :: u16) = rdlength" using assms(5) by (simp add: unat_of_nat_u16)
  moreover have "rdlength \<le> sz - (off + 10)" using assms(2) by linarith
  ultimately show ?thesis using assms
    by (simp add: mdns_answer_check_def mdns_answer_loop.simps Let_def mdns_record_parse_ptr_def)
qed

lemma mdns_short_record_null_witness:
  "mdns_answer_check sample_zephyr [0, 0, 12, 0, 1, 0, 0, 0, 0, 0, 0] 11 0 (Suc 0) [] 0 ([], []) = Inl NullDeref"
proof (rule mdns_short_record_null)
  show "mdns_string_skip [0, 0, 12, 0, 1, 0, 0, 0, 0, 0, 0] 11 0 = Inr (Some 1)"
    by (simp add: mdns_string_skip_def mdns_skip_labels.simps mdns_get_next_substring_def invalid_pair_def
        MDNS_MAX_SUBSTRINGS_def MDNS_INVALID_POS_def)
  show "mdns_ntohs [0, 0, 12, 0, 1, 0, 0, 0, 0, 0, 0] (1 + 8) = Inr (of_nat 0)"
    by (simp add: mdns_ntohs_def buf_read_def le16_of_def)
qed simp_all

end
