(* ===== verification/Hdlc_Stream.thy ===== *)
theory Hdlc_Stream
  imports Hdlc
begin

text \<open>
  The receiver of src/hdlc.c against a reference decoder.  The decoder is defined on whole byte
  streams: undo the stuffing, cut at the flags, keep what checks.  The driver, which works byte by
  byte on a fixed buffer, delivers exactly the decoder's frames on every stream, noise, aborted and
  overlong frames included.  Senders that share the UART are then questions about the decoder.
\<close>

section \<open>The reference decoder\<close>

text \<open>
  Undoing the stuffing yields octets and flags (\<open>None\<close>).  An escape that is followed by a flag stays
  pending; \<open>hdlc_pending\<close> is whether one is left at the end.
\<close>

fun hdlc_symbols :: "bool \<Rightarrow> byte list \<Rightarrow> byte option list" where
  "hdlc_symbols e [] = []"
| "hdlc_symbols e (b # bs) =
     (if b = HDLC_FRAME then None # hdlc_symbols e bs
      else if b = HDLC_ESC then hdlc_symbols True bs
      else Some (if e then b XOR 0x20 else b) # hdlc_symbols False bs)"

fun hdlc_pending :: "bool \<Rightarrow> byte list \<Rightarrow> bool" where
  "hdlc_pending e [] = e"
| "hdlc_pending e (b # bs) =
     hdlc_pending (if b = HDLC_FRAME then e else b = HDLC_ESC) bs"

text \<open>The octets between flags, given those already seen; what follows the last flag is not complete.\<close>

fun hdlc_bodies :: "byte list \<Rightarrow> byte option list \<Rightarrow> byte list list" where
  "hdlc_bodies acc [] = []"
| "hdlc_bodies acc (None # sy) = acc # hdlc_bodies [] sy"
| "hdlc_bodies acc (Some b # sy) = hdlc_bodies (acc @ [b]) sy"

fun hdlc_open :: "byte list \<Rightarrow> byte option list \<Rightarrow> byte list" where
  "hdlc_open acc [] = acc"
| "hdlc_open acc (None # sy) = hdlc_open [] sy"
| "hdlc_open acc (Some b # sy) = hdlc_open (acc @ [b]) sy"

text \<open>
  The driver starts over when the block is full, so of an overlong body it keeps the last, possibly
  partial, block; the first octet of a restarted block is stored but not in the check.
\<close>

definition hdlc_kept :: "byte list \<Rightarrow> byte list" where
  "hdlc_kept body = drop (HDLC_MAX_BLOCK_SIZE * ((length body - 1) div HDLC_MAX_BLOCK_SIZE)) body"

definition hdlc_checked :: "byte list \<Rightarrow> byte list" where
  "hdlc_checked body = (if length body \<le> HDLC_MAX_BLOCK_SIZE then body else tl (hdlc_kept body))"

definition hdlc_accept :: "'w zephyr \<Rightarrow> byte list \<Rightarrow> (u8 \<times> byte list) list" where
  "hdlc_accept z body =
     (let k = hdlc_kept body in
      if 3 < length k \<and> crc_chain z 0xffff (hdlc_checked body) = 0xf0b8 \<and> k ! 1 AND 1 \<noteq> 0
      then [(k ! 0, take (length k - 4) (drop 2 k))] else [])"

definition hdlc_decode :: "'w zephyr \<Rightarrow> byte list \<Rightarrow> (u8 \<times> byte list) list" where
  "hdlc_decode z bs = concat (map (hdlc_accept z) (hdlc_bodies [] (hdlc_symbols False bs)))"

section \<open>Laws of the decoder\<close>

lemma hdlc_symbols_append: "hdlc_symbols e (xs @ ys) = hdlc_symbols e xs @ hdlc_symbols (hdlc_pending e xs) ys"
  by (induction xs arbitrary: e) auto

lemma hdlc_pending_append [simp]: "hdlc_pending e (xs @ ys) = hdlc_pending (hdlc_pending e xs) ys"
  by (induction xs arbitrary: e) auto

lemma hdlc_bodies_append: "hdlc_bodies acc (xs @ ys) = hdlc_bodies acc xs @ hdlc_bodies (hdlc_open acc xs) ys"
  by (induction acc xs rule: hdlc_bodies.induct) auto

lemma hdlc_open_append [simp]: "hdlc_open acc (xs @ ys) = hdlc_open (hdlc_open acc xs) ys"
  by (induction acc xs rule: hdlc_open.induct) auto

lemma hdlc_symbols_escape: "hdlc_symbols False (hdlc_escape bs) = map Some bs"
proof (induction bs)
  case (Cons b bs)
  have "b XOR 32 XOR 32 = b" by (simp add: xor.assoc)
  with Cons show ?case by (auto simp: hdlc_escape_byte_def hdlc_consts)
qed simp

lemma hdlc_pending_escape: "\<not> hdlc_pending False (hdlc_escape bs)"
  by (induction bs) (auto simp: hdlc_escape_byte_def hdlc_consts)

lemma hdlc_bodies_octets: "hdlc_bodies acc (map Some bs @ sy) = hdlc_bodies (acc @ bs) sy"
  by (induction bs arbitrary: acc) simp_all

lemma hdlc_open_octets [simp]: "hdlc_open acc (map Some bs) = acc @ bs"
  by (induction bs arbitrary: acc) simp_all

lemma hdlc_kept_short: "length body \<le> HDLC_MAX_BLOCK_SIZE \<Longrightarrow> hdlc_kept body = body"
  by (cases "body = []") (auto simp: hdlc_kept_def hdlc_consts)

lemma hdlc_kept_length: "length (hdlc_kept body) \<le> HDLC_MAX_BLOCK_SIZE"
proof -
  have "length body - 256 * ((length body - 1) div 256) \<le> 256"
    using div_mult_mod_eq [of "length body - 1" 256] mod_less_divisor [of 256 "length body - 1"] by linarith
  then show ?thesis by (simp add: hdlc_kept_def hdlc_consts)
qed

text \<open>One more octet: it goes behind what is kept, or starts a new block.\<close>

lemma block_index:
  assumes "0 < (k :: nat)"
  shows "(n - 1) div k = (if n mod k = 0 then n div k - 1 else n div k)"
proof (cases n)
  case (Suc m)
  then show ?thesis using assms by (simp add: div_Suc mod_Suc)
qed simp

lemma hdlc_kept_snoc:
  "hdlc_kept (body @ [b]) = (if length (hdlc_kept body) < HDLC_MAX_BLOCK_SIZE then hdlc_kept body @ [b] else [b])"
proof (cases "length body mod 256 = 0 \<and> 0 < length body")
  case True
  then obtain q where q: "length body = 256 * q" "0 < q" by (auto elim!: dvdE simp: mod_eq_0_iff_dvd)
  then have "256 * q - 256 * (q - 1) = 256" by (simp add: right_diff_distrib')
  then show ?thesis using q by (simp add: hdlc_kept_def hdlc_consts block_index)
next
  case False
  then have "(length body - 1) div 256 = length body div 256" "length body - 256 * (length body div 256) < 256"
    "256 * (length body div 256) \<le> length body"
    using block_index [of 256 "length body"] by (auto simp: minus_mult_div_eq_mod)
  then show ?thesis by (simp add: hdlc_kept_def hdlc_consts)
qed

lemma hdlc_checked_snoc:
  "crc_chain z 0xffff (hdlc_checked (body @ [b])) =
     (if length (hdlc_kept body) < HDLC_MAX_BLOCK_SIZE
      then crc16_ccitt z (crc_chain z 0xffff (hdlc_checked body)) [b] else 0xffff)"
proof (cases "length body < HDLC_MAX_BLOCK_SIZE")
  case True
  then show ?thesis by (simp add: hdlc_checked_def hdlc_kept_short)
next
  case False
  then have "256 * ((length body - 1) div 256) \<le> length body - 1" "length body - 1 < length body"
    by (simp_all add: hdlc_consts)
  then have "256 * ((length body - 1) div 256) < length body" by (rule order.strict_trans1)
  then have "hdlc_kept body \<noteq> []" by (simp add: hdlc_kept_def hdlc_consts)
  moreover have "length (hdlc_kept body) = length body" if "length body = 256" using that by (simp add: hdlc_kept_short hdlc_consts)
  ultimately show ?thesis using False by (auto simp: hdlc_checked_def hdlc_kept_snoc hdlc_consts)
qed

lemma hdlc_kept_Nil_iff [simp]: "hdlc_kept body = [] \<longleftrightarrow> body = []"
proof (cases body rule: rev_cases)
  case (snoc ys y)
  then show ?thesis by (simp add: hdlc_kept_snoc)
qed (simp add: hdlc_kept_def)

section \<open>The driver against the decoder\<close>

text \<open>A client of the driver that writes down what it is handed.\<close>

record 'w recorder = "'w hdlc_driver" +
  delivered :: "(u8 \<times> byte list) list"

definition recording_cb :: "byte list \<Rightarrow> nat \<Rightarrow> u8 \<Rightarrow> 'w recorder \<Rightarrow> (int \<times> 'w recorder) res" where
  "recording_cb buf len address s = Inr (0, s\<lparr>delivered := delivered s @ [(address, take len buf)]\<rparr>)"

text \<open>The driver in the middle of a frame whose octets so far are \<open>body\<close>.\<close>

definition rx_at :: "'w zephyr \<Rightarrow> bool \<Rightarrow> byte list \<Rightarrow> ('w, 'a) hd \<Rightarrow> bool" where
  "rx_at z e body s \<longleftrightarrow> length (rx_buffer s) = HDLC_MAX_BLOCK_SIZE \<and> next_escaped s = e \<and>
     rx_buffer_len s = length (hdlc_kept body) \<and> take (rx_buffer_len s) (rx_buffer s) = hdlc_kept body \<and>
     crc s = crc_chain z 0xffff (hdlc_checked body)"

lemma rx_at_idle: "rx_ok s \<Longrightarrow> rx_idle s \<Longrightarrow> rx_at z False [] s"
  by (simp add: rx_at_def rx_ok_def rx_idle_def hdlc_kept_def hdlc_checked_def)

lemma rx_at_ok: "rx_at z e body s \<Longrightarrow> rx_ok s"
  using hdlc_kept_length [of body] by (simp add: rx_at_def rx_ok_def)

text \<open>What the driver does between two calls of its callback changes its receive state only.\<close>

definition rx_moved :: "('w, 'a) hd \<Rightarrow> ('w, 'a) hd \<Rightarrow> bool" where
  "rx_moved s s' \<longleftrightarrow> world s' = world s \<and> uart_tx s' = uart_tx s \<and> rx_send_seq s' = rx_send_seq s \<and>
     send_seq s' = send_seq s \<and> rx_work_pending s' = rx_work_pending s \<and> hdlc_driver.more s' = hdlc_driver.more s"

lemma rx_moved_simps [simp]:
  "rx_moved s s" "rx_moved s (t\<lparr>crc := c\<rparr>) = rx_moved s t" "rx_moved s (t\<lparr>next_escaped := e\<rparr>) = rx_moved s t"
  "rx_moved s (t\<lparr>rx_buffer := b\<rparr>) = rx_moved s t" "rx_moved s (t\<lparr>rx_buffer_len := n\<rparr>) = rx_moved s t"
  by (simp_all add: rx_moved_def)

lemma rx_moved_delivered: "rx_moved s s' \<Longrightarrow> delivered s' = delivered s"
  by (cases s, cases s') (simp add: rx_moved_def)

lemma rx_at_octet:
  assumes "rx_at z e body s" "b \<noteq> HDLC_FRAME" "b \<noteq> HDLC_ESC"
  shows "\<exists>s'. hdlc_rx_input_byte cb z b s = Inr s' \<and> rx_at z False (body @ [if e then b XOR 0x20 else b]) s' \<and> rx_moved s s'"
proof -
  let ?x = "if e then b XOR 0x20 else b" and ?k = "hdlc_kept body"
  define t where "t = (if e then s\<lparr>next_escaped := False\<rparr> else s)\<lparr>crc := crc16_ccitt z (crc s) [?x]\<rparr>"
  have ok: "rx_ok t" using rx_at_ok [OF assms(1)] by (simp add: t_def rx_ok_def)
  have s: "length (rx_buffer s) = 256" "next_escaped s = e" "rx_buffer_len s = length ?k" "take (length ?k) (rx_buffer s) = ?k"
    "crc s = crc_chain z 0xffff (hdlc_checked body)"
    using assms(1) by (auto simp: rx_at_def hdlc_consts)
  have run: "hdlc_rx_input_byte cb z b s = hdlc_save_byte ?x t"
    using assms s(2) by (simp add: hdlc_rx_input_byte_def t_def)
  show ?thesis
  proof (cases "length ?k < HDLC_MAX_BLOCK_SIZE")
    case True
    then show ?thesis unfolding run hdlc_save_byte_eq [OF ok] rx_at_def hdlc_kept_snoc hdlc_checked_snoc
      using s by (simp add: t_def hdlc_consts take_Suc_conv_app_nth)
  next
    case False
    then show ?thesis unfolding run hdlc_save_byte_eq [OF ok] rx_at_def hdlc_kept_snoc hdlc_checked_snoc
      using s by (simp add: t_def hdlc_consts take_Suc_conv_app_nth)
  qed
qed

lemma rx_at_escape:
  assumes "rx_at z e body s"
  shows "\<exists>s'. hdlc_rx_input_byte cb z HDLC_ESC s = Inr s' \<and> rx_at z True body s' \<and> rx_moved s s'"
  using assms by (auto simp: rx_at_def hdlc_rx_input_byte_def hdlc_consts)

lemma rx_at_flag:
  assumes "rx_at z e body s"
  shows "\<exists>s'. hdlc_rx_input_byte recording_cb z HDLC_FRAME s = Inr s' \<and> rx_at z e [] s' \<and>
    delivered s' = delivered s @ hdlc_accept z body"
proof (cases "body = []")
  case True
  with assms show ?thesis by (auto simp: rx_at_def hdlc_rx_input_byte_def hdlc_accept_def hdlc_kept_def)
next
  case False
  let ?k = "hdlc_kept body"
  have s: "length (rx_buffer s) = 256" "next_escaped s = e" "rx_buffer_len s = length ?k" "take (length ?k) (rx_buffer s) = ?k"
    "crc s = crc_chain z 0xffff (hdlc_checked body)"
    using assms by (auto simp: rx_at_def hdlc_consts)
  have nth: "rx_buffer s ! i = ?k ! i" if "i < length ?k" for i using s(4) that by (metis nth_take)
  have pay: "take (length ?k - 4) (drop 2 (rx_buffer s)) = take (length ?k - 4) (drop 2 ?k)" if "3 < length ?k"
    using that arg_cong [OF s(4), of "\<lambda>x. take (length ?k - 4) (drop 2 x)"] by (simp add: drop_take)
  have "hdlc_rx_input_byte recording_cb z HDLC_FRAME s = hdlc_process_frame recording_cb s"
    using False s(3) by (simp add: hdlc_rx_input_byte_def)
  then show ?thesis
    using False s nth [of 0] nth [of 1] pay hdlc_kept_length [of body] rx_at_ok [OF assms]
    by (auto simp: hdlc_process_frame_def hdlc_process_complete_frame_def recording_cb_def rx_at_def hdlc_accept_def
        hdlc_kept_def [of "[]"] hdlc_checked_def [of "[]"] size_sub_exact hdlc_consts Let_def)
qed

lemma rx_stream:
  "rx_at z e body s \<Longrightarrow>
   \<exists>s'. foldres (hdlc_rx_input_byte recording_cb z) bs s = Inr s' \<and>
     rx_at z (hdlc_pending e bs) (hdlc_open body (hdlc_symbols e bs)) s' \<and>
     delivered s' = delivered s @ concat (map (hdlc_accept z) (hdlc_bodies body (hdlc_symbols e bs)))"
proof (induction bs arbitrary: e body s)
  case (Cons b bs)
  consider "b = HDLC_FRAME" | "b = HDLC_ESC" | "b \<noteq> HDLC_FRAME" "b \<noteq> HDLC_ESC" by blast
  then show ?case
  proof cases
    case 1
    obtain t where "hdlc_rx_input_byte recording_cb z b s = Inr t" "rx_at z e [] t" "delivered t = delivered s @ hdlc_accept z body"
      using rx_at_flag [OF Cons.prems] 1 by blast
    with Cons.IH [of e "[]" t] 1 show ?thesis by fastforce
  next
    case 2
    obtain t where "hdlc_rx_input_byte recording_cb z b s = Inr t" "rx_at z True body t" "delivered t = delivered s"
      using rx_at_escape [OF Cons.prems] 2 rx_moved_delivered by blast
    moreover have "HDLC_ESC \<noteq> HDLC_FRAME" by (simp add: hdlc_consts)
    ultimately show ?thesis using Cons.IH [of True body t] 2 by fastforce
  next
    case 3
    obtain t where "hdlc_rx_input_byte recording_cb z b s = Inr t" "delivered t = delivered s"
      "rx_at z False (body @ [if e then b XOR 0x20 else b]) t"
      using rx_at_octet [OF Cons.prems 3] rx_moved_delivered by blast
    with Cons.IH [of False "body @ [if e then b XOR 0x20 else b]" t] 3 show ?thesis by fastforce
  qed
qed simp

section \<open>Decoding what the transmitter sends\<close>

lemma hdlc_decode_flag: "hdlc_decode z (HDLC_FRAME # bs) = hdlc_decode z bs"
  by (simp add: hdlc_decode_def hdlc_accept_def hdlc_kept_def)

lemma hdlc_decode_body: "hdlc_decode z (hdlc_escape body @ HDLC_FRAME # bs) = hdlc_accept z body @ hdlc_decode z bs"
proof -
  have "hdlc_symbols False (hdlc_escape body @ HDLC_FRAME # bs) = map Some body @ None # hdlc_symbols False bs"
    using hdlc_pending_escape [of body] by (simp add: hdlc_symbols_append hdlc_symbols_escape)
  then show ?thesis by (simp add: hdlc_decode_def hdlc_bodies_octets)
qed

lemma hdlc_accept_body:
  assumes "crc_documented z" "length p + 4 \<le> HDLC_MAX_BLOCK_SIZE" "c AND 1 \<noteq> 0"
  shows "hdlc_accept z (hdlc_body z a c p) = [(a, p)]"
proof -
  have "hdlc_kept (hdlc_body z a c p) = hdlc_body z a c p" by (rule hdlc_kept_short) (use assms(2) in simp)
  then show ?thesis
    using assms crc_chain_body [OF assms(1), of a c p]
    by (simp add: hdlc_accept_def hdlc_checked_def) (simp add: hdlc_body_def)
qed

lemma hdlc_decode_frame:
  assumes "crc_documented z" "length p + 4 \<le> HDLC_MAX_BLOCK_SIZE" "c AND 1 \<noteq> 0"
  shows "hdlc_decode z (hdlc_frame z a c p @ bs) = (a, p) # hdlc_decode z bs"
  using hdlc_decode_body [of z "hdlc_body z a c p" bs] hdlc_accept_body [OF assms]
  by (simp add: hdlc_frame_def hdlc_decode_flag)

lemma hdlc_decode_Nil [simp]: "hdlc_decode z [] = []"
  by (simp add: hdlc_decode_def)

lemma hdlc_decode_frames:
  assumes "crc_documented z"
  shows "(\<And>a c p. (a, c, p) \<in> set fs \<Longrightarrow> length p + 4 \<le> HDLC_MAX_BLOCK_SIZE \<and> c AND 1 \<noteq> 0) \<Longrightarrow>
    hdlc_decode z (concat (map (\<lambda>(a, c, p). hdlc_frame z a c p) fs)) = map (\<lambda>(a, c, p). (a, p)) fs"
proof (induction fs)
  case (Cons f fs)
  obtain a c p where f: "f = (a, c, p)" by (cases f)
  have "length p + 4 \<le> HDLC_MAX_BLOCK_SIZE" "c AND 1 \<noteq> 0" using Cons.prems [of a c p] f by simp_all
  moreover have "hdlc_decode z (concat (map (\<lambda>(a, c, p). hdlc_frame z a c p) fs)) = map (\<lambda>(a, c, p). (a, p)) fs"
    by (rule Cons.IH) (use Cons.prems in auto)
  ultimately show ?case by (simp add: f hdlc_decode_frame [OF assms])
qed simp

section \<open>Properties of streams\<close>

definition sample_recorder :: "sample_world recorder" where
  "sample_recorder = hdlc_driver.extend sample_hd \<lparr>delivered = []\<rparr>"

lemma sample_recorder_ok: "rx_ok sample_recorder" "rx_idle sample_recorder"
  using sample_hd_ok by (simp_all add: sample_recorder_def hdlc_driver.defs rx_ok_def rx_idle_def)

text \<open>
  C2. The receiver implements the reference decoder.  Whatever bytes arrive, and however the ring buffer
  cuts them into pieces, an idle driver takes in all of them without a fault and hands its client
  exactly the frames the decoder finds in the whole stream, in order, with their address and payload.
\<close>

theorem hdlc_receiver_refines_decoder:
  assumes "rx_ok s" and "rx_idle s"
  shows "\<exists>s'. foldres (\<lambda>piece s. bnd (hdlc_process_buffer recording_cb z piece s) (\<lambda>(ret, s). Inr s)) pieces s = Inr s' \<and>
    delivered s' = delivered s @ hdlc_decode z (concat pieces) \<and> rx_ok s'"
proof -
  have "foldres (\<lambda>piece s. bnd (hdlc_process_buffer recording_cb z piece s) (\<lambda>(ret, s). Inr s)) pieces s =
      foldres (hdlc_rx_input_byte recording_cb z) (concat pieces) s" for s
    by (induction pieces arbitrary: s) (auto simp: hdlc_process_buffer_def foldres_append bnd_assoc intro!: bnd_cong)
  with rx_stream [OF rx_at_idle [OF assms], of z "concat pieces"] show ?thesis
    by (auto simp: hdlc_decode_def dest: rx_at_ok)
qed

theorem hdlc_receiver_refines_decoder_witness:
  "\<exists>s'. foldres (\<lambda>piece s. bnd (hdlc_process_buffer recording_cb sample_zephyr piece s) (\<lambda>(ret, s). Inr s))
      [[0x7E, 1], [3, 0x7D], [0x5E, 0x7E]] sample_recorder = Inr s' \<and>
    delivered s' = delivered sample_recorder @ hdlc_decode sample_zephyr (concat [[0x7E, 1], [3, 0x7D], [0x5E, 0x7E]]) \<and> rx_ok s'"
  by (rule hdlc_receiver_refines_decoder [OF sample_recorder_ok])

section \<open>Bytes changed on the line\<close>

text \<open>
  Between flags the callback plays no part: the driver goes the same way whatever it is.
\<close>

lemma rx_between_flags:
  assumes "HDLC_FRAME \<notin> set bs" "rx_at z e body s"
  shows "\<exists>t. (\<forall>cb. foldres (hdlc_rx_input_byte cb z) bs s = Inr t) \<and>
    rx_at z (hdlc_pending e bs) (hdlc_open body (hdlc_symbols e bs)) t \<and> rx_moved s t"
  using assms
proof (induction bs arbitrary: e body s)
  case (Cons b bs)
  have same: "hdlc_rx_input_byte cb z b s = hdlc_rx_input_byte cb' z b s" for cb cb'
    using Cons.prems(1) by (auto simp: hdlc_rx_input_byte_def)
  let ?e = "b = HDLC_ESC" and ?body = "if b = HDLC_ESC then body else body @ [if e then b XOR 0x20 else b]"
  obtain u where u: "\<And>cb. hdlc_rx_input_byte cb z b s = Inr u" "rx_at z ?e ?body u" "rx_moved s u"
  proof (cases "b = HDLC_ESC")
    case True
    from rx_at_escape [OF Cons.prems(2), of undefined] True obtain u where
      "hdlc_rx_input_byte undefined z b s = Inr u" "rx_at z True body u" "rx_moved s u" by blast
    with True show ?thesis by (intro that [of u]) (rule same [THEN trans], simp_all)
  next
    case False
    from rx_at_octet [OF Cons.prems(2) _ False, of undefined] Cons.prems(1) obtain u where
      "hdlc_rx_input_byte undefined z b s = Inr u" "rx_at z False (body @ [if e then b XOR 0x20 else b]) u" "rx_moved s u" by auto
    with False show ?thesis by (intro that [of u]) (rule same [THEN trans], simp_all)
  qed
  obtain t where t: "\<forall>cb. foldres (hdlc_rx_input_byte cb z) bs u = Inr t"
    "rx_at z (hdlc_pending ?e bs) (hdlc_open ?body (hdlc_symbols ?e bs)) t" "rx_moved u t"
    using Cons.IH [OF _ u(2)] Cons.prems(1) by auto
  have "rx_moved s t" using u(3) t(3) by (simp add: rx_moved_def)
  with u(1) t(1,2) Cons.prems(1) show ?case by (intro exI [of _ t]) (auto split: if_splits)
qed simp

lemma rx_bad_end:
  assumes "rx_at z False body s" "length body \<le> HDLC_MAX_BLOCK_SIZE" "crc_chain z 0xffff body \<noteq> 0xf0b8"
  shows "hdlc_rx_input_byte cb z HDLC_FRAME s = Inr (rx_reset s) \<and> rx_ok (rx_reset s) \<and> rx_idle (rx_reset s)"
proof -
  have "crc s = crc_chain z 0xffff body" "rx_buffer_len s = length body"
    using assms(1,2) by (simp_all add: rx_at_def hdlc_checked_def hdlc_kept_short)
  then show ?thesis
    using assms rx_at_ok [OF assms(1)]
    by (cases "body = []") (auto simp: rx_flag_idle rx_flag_end hdlc_process_frame_reset rx_reset_def rx_at_def rx_idle_def)
qed

text \<open>Changing an ordinary byte of the stuffed stream to another ordinary byte changes one octet.\<close>

lemma hdlc_symbols_update:
  "i < length bs \<Longrightarrow> bs ! i \<notin> {HDLC_FRAME, HDLC_ESC} \<Longrightarrow> b \<notin> {HDLC_FRAME, HDLC_ESC} \<Longrightarrow> b \<noteq> bs ! i \<Longrightarrow>
   hdlc_pending e (bs[i := b]) = hdlc_pending e bs \<and>
   (\<exists>j x. j < length (hdlc_symbols e bs) \<and> hdlc_symbols e (bs[i := b]) = (hdlc_symbols e bs)[j := Some x] \<and>
      hdlc_symbols e bs ! j \<noteq> Some x)"
proof (induction bs arbitrary: i e)
  case (Cons c bs)
  show ?case
  proof (cases i)
    case 0
    then have "c \<noteq> b" using Cons.prems(4) by simp
    then have "c XOR 0x20 \<noteq> b XOR 0x20" by (metis xor.assoc xor_self_eq xor.right_neutral)
    with 0 Cons.prems show ?thesis
      by (auto intro!: exI [of _ 0] exI [of _ "if e then b XOR 0x20 else b"])
  next
    case (Suc k)
    define e' where "e' = (if c = HDLC_FRAME then e else c = HDLC_ESC)"
    obtain j x where j: "j < length (hdlc_symbols e' bs)" "hdlc_symbols e' (bs[k := b]) = (hdlc_symbols e' bs)[j := Some x]"
      "hdlc_symbols e' bs ! j \<noteq> Some x" "hdlc_pending e' (bs[k := b]) = hdlc_pending e' bs"
      using Cons.IH [of k e'] Cons.prems Suc by auto
    show ?thesis
    proof (cases "c = HDLC_ESC")
      case True
      then have "c \<noteq> HDLC_FRAME" by (simp add: hdlc_consts)
      with True j Suc show ?thesis by (auto simp: e'_def)
    next
      case False
      with j Suc show ?thesis by (auto simp: e'_def intro!: exI [of _ "Suc j"] exI [of _ x])
    qed
  qed
qed simp

lemma no_flag_escape: "HDLC_FRAME \<notin> set (hdlc_escape bs)"
  by (induction bs) (auto simp: hdlc_escape_byte_def hdlc_consts)

text \<open>
  C20. A byte garbled on the line costs the frame and nothing else.  Take the bytes the transmitter puts on
  the UART for a block, and change any one of them that is not a flag or an escape, in the address, control,
  payload or check octets, stuffed or not, to any other value that is not a flag or an escape: an idle receiver
  takes in the changed bytes without calling its callback (the result is the same for every callback), has
  sent nothing and is ready for the next frame.  Flags and escapes are left out on both sides because they
  change where octets and frames end, and then the check of a shorter frame may hold.
\<close>

theorem hdlc_single_byte_error_dropped:
  assumes "crc_documented z" and "rx_ok s" and "rx_idle s"
    and "n \<le> length buffer" and "n + 4 \<le> HDLC_MAX_BLOCK_SIZE" and "control \<noteq> 0"
    and "hdlc_block_send_sync hdlc_send_callback z buffer n address control tx =
      Inr (0, tx\<lparr>uart_tx := uart_tx tx @ wire\<rparr>)"
    and "i < length wire" and "wire ! i \<notin> {HDLC_FRAME, HDLC_ESC}" and "b \<notin> {HDLC_FRAME, HDLC_ESC}" and "b \<noteq> wire ! i"
  shows "\<exists>t. rx_idle t \<and> rx_ok t \<and> uart_tx t = uart_tx s \<and> world t = world s \<and>
    (\<forall>cb. hdlc_process_buffer cb z (wire[i := b]) s = Inr (int (length wire), t))"
proof -
  let ?body = "hdlc_body z address control (take n buffer)"
  let ?esc = "hdlc_escape ?body"
  have wire: "wire = HDLC_FRAME # ?esc @ [HDLC_FRAME]"
    using assms(4,6,7) by (auto simp: hdlc_block_send_uart hdlc_frame_def dest: arg_cong [where f = uart_tx])
  from assms(8,9) obtain k where k: "i = Suc k" "k < length ?esc" "wire ! i = ?esc ! k"
    by (cases i) (auto simp: wire nth_append split: if_splits)
  have upd: "wire[i := b] = HDLC_FRAME # ?esc[k := b] @ [HDLC_FRAME]" using k by (simp add: wire list_update_append)
  obtain j x where j: "j < length ?body" "hdlc_symbols False (?esc[k := b]) = map Some (?body[j := x])" "x \<noteq> ?body ! j"
    "\<not> hdlc_pending False (?esc[k := b])"
    using hdlc_symbols_update [of k ?esc b False] k assms(9-11) hdlc_pending_escape [of ?body]
    by (auto simp: hdlc_symbols_escape map_update)
  have flagless: "HDLC_FRAME \<notin> set (?esc[k := b])"
    using no_flag_escape [of ?body] assms(10) by (auto dest!: set_update_subset_insert [THEN subsetD])
  obtain t where t: "\<forall>cb. foldres (hdlc_rx_input_byte cb z) (?esc[k := b]) s = Inr t"
    "rx_at z False (?body[j := x]) t" "rx_moved s t"
    using rx_between_flags [OF flagless rx_at_idle [OF assms(2,3), of z]] j(2,4) by auto
  have "crc_chain z 0xffff (?body[j := x]) \<noteq> 0xf0b8"
    using crc_chain_update [OF assms(1) j(1,3), of "0xffff"] crc_chain_body [OF assms(1), of address control "take n buffer"] by simp
  moreover have "length (?body[j := x]) \<le> HDLC_MAX_BLOCK_SIZE" using assms(4,5) by simp
  ultimately have e: "hdlc_rx_input_byte cb z HDLC_FRAME t = Inr (rx_reset t)" "rx_ok (rx_reset t)" "rx_idle (rx_reset t)" for cb
    using rx_bad_end [OF t(2), of cb] by auto
  have "rx_buffer_len s = 0" using assms(3) by (simp add: rx_idle_def)
  then have "foldres (hdlc_rx_input_byte cb z) (wire[i := b]) s = Inr (rx_reset t)" for cb
    using t(1) e(1) by (simp add: upd foldres_append rx_flag_idle)
  then have "hdlc_process_buffer cb z (wire[i := b]) s = Inr (int (length wire), rx_reset t)" for cb
    by (simp add: hdlc_process_buffer_def)
  then show ?thesis using e(2,3) t(3) by (intro exI [of _ "rx_reset t"]) (simp add: rx_moved_def rx_reset_def)
qed

theorem hdlc_single_byte_error_dropped_witness:
  "\<exists>t. rx_idle t \<and> rx_ok t \<and> uart_tx t = uart_tx sample_hd \<and> world t = world sample_hd \<and>
    (\<forall>cb. hdlc_process_buffer cb sample_zephyr ((hdlc_frame sample_zephyr 1 3 [5, 6])[3 := 7]) sample_hd =
       Inr (int (length (hdlc_frame sample_zephyr 1 3 [5, 6])), t))"
  by (rule hdlc_single_byte_error_dropped [where buffer = "[5, 6]" and n = 2 and address = 1 and control = 3 and tx = sample_hd])
    (simp_all add: sample_documented sample_hd_ok hdlc_block_send_uart hdlc_consts hdlc_frame_def hdlc_body_def hdlc_escape_byte_def)

text \<open>
  A byte garbled into a flag can go through: the octets before the new flag may happen to be a frame.
\<close>

lemma garbled_into_flag_accepted:
  "hdlc_decode sample_zephyr [0x7E, 0x01, 0x03, 0x04, 0x24, 0x55, 0xe4, 0xc3, 0x7E] = [(1, [4, 0x24, 0x55])]"
  "hdlc_decode sample_zephyr [0x7E, 0x01, 0x03, 0x04, 0x24, 0x7E, 0xe4, 0xc3, 0x7E] = [(1, [])]"
proof -
  have "crc_byte 0xffff 1 = 0x1e0e" "crc_byte 0x1e0e 3 = 0xdbfb" "crc_byte 0xdbfb 4 = 0xfa3" "crc_byte 0xfa3 0x24 = 0xf0b8"
    "crc_byte 0xf0b8 0x55 = 0x3c1b" "crc_byte 0x3c1b 0xe4 = 0xf44" "crc_byte 0xf44 0xc3 = 0xf0b8"
    by code_simp+
  then have crc: "crc_chain sample_zephyr 0xffff [1, 3, 4, 0x24] = 0xf0b8"
    "crc_chain sample_zephyr 0xffff [1, 3, 4, 0x24, 0x55, 0xe4, 0xc3] = 0xf0b8"
    by (simp_all add: crc16_reflected_def)
  show "hdlc_decode sample_zephyr [0x7E, 0x01, 0x03, 0x04, 0x24, 0x55, 0xe4, 0xc3, 0x7E] = [(1, [4, 0x24, 0x55])]"
    using crc(2) by (simp add: hdlc_decode_def hdlc_accept_def hdlc_kept_short hdlc_checked_def hdlc_consts del: crc_chain_simps)
  show "hdlc_decode sample_zephyr [0x7E, 0x01, 0x03, 0x04, 0x24, 0x7E, 0xe4, 0xc3, 0x7E] = [(1, [])]"
    using crc(1) by (simp add: hdlc_decode_def hdlc_accept_def hdlc_kept_short hdlc_checked_def hdlc_consts del: crc_chain_simps)
qed

section \<open>Senders that share the line\<close>

text \<open>
  Two threads in \<open>hdlc_block_send_sync\<close> at once: nothing serialises the calls of \<open>send_frame_cb\<close>, so
  the UART sees some interleaving of the two byte sequences.  Here the second thread runs between the
  address and the control octet of the first one's frame.
\<close>

definition preempted :: "'w zephyr \<Rightarrow> u8 \<Rightarrow> u8 \<Rightarrow> byte list \<Rightarrow> byte list \<Rightarrow> byte list" where
  "preempted z a c p other =
     HDLC_FRAME # hdlc_escape_byte a @ other @ hdlc_escape (tl (hdlc_body z a c p)) @ [HDLC_FRAME]"

lemma shuffles_between: "xs @ zs @ ys \<in> shuffles (xs @ ys) zs"
proof (induction xs)
  case Nil
  show ?case by (induction zs) (simp_all add: Cons_in_shuffles_rightI)
next
  case (Cons x xs)
  then show ?case by (simp add: Cons_in_shuffles_leftI)
qed

lemma preempted_shuffle: "preempted z a c p other \<in> shuffles (hdlc_frame z a c p) other"
  using shuffles_between [of "HDLC_FRAME # hdlc_escape_byte a" other "hdlc_escape (tl (hdlc_body z a c p)) @ [HDLC_FRAME]"]
  by (simp add: preempted_def hdlc_frame_def hdlc_body_def)

text \<open>An address octet does not leave the check where it started, so the rest of its frame fails it.\<close>

lemma crc_address_moves: "a \<in> {ADDRESS_GREYBUS, ADDRESS_DBG, ADDRESS_CONTROL} \<Longrightarrow> crc_byte 0xffff a \<noteq> 0xffff"
proof -
  have "crc_byte 0xffff 1 \<noteq> 0xffff" "crc_byte 0xffff 2 \<noteq> 0xffff" "crc_byte 0xffff 3 \<noteq> 0xffff" by code_simp+
  then show "a \<in> {ADDRESS_GREYBUS, ADDRESS_DBG, ADDRESS_CONTROL} \<Longrightarrow> ?thesis" by (auto simp: hdlc_consts)
qed

lemma hdlc_accept_tail:
  assumes "crc_documented z" "length p + 4 \<le> HDLC_MAX_BLOCK_SIZE" "a \<in> {ADDRESS_GREYBUS, ADDRESS_DBG, ADDRESS_CONTROL}"
  shows "hdlc_accept z (tl (hdlc_body z a c p)) = []"
proof -
  let ?tail = "tl (hdlc_body z a c p)"
  have "hdlc_body z a c p = a # ?tail" by (simp add: hdlc_body_def)
  then have "crc_chain z (crc_byte 0xffff a) ?tail = 0xf0b8"
    using crc_chain_body [OF assms(1), of a c p] by (metis crc_chain_simps(2) crc_documented_byte [OF assms(1)])
  then have "crc_chain z 0xffff ?tail \<noteq> 0xf0b8"
    using crc_chain_inject [OF assms(1), where bs = ?tail and c = "crc_byte 0xffff a" and d = "0xffff"] crc_address_moves [OF assms(3)] by auto
  moreover have "length ?tail \<le> HDLC_MAX_BLOCK_SIZE" using assms(2) by simp
  ultimately show ?thesis by (simp add: hdlc_accept_def hdlc_checked_def Let_def)
qed

text \<open>
  C33. Senders are not serialised.  Two blocks sent one after the other both arrive; but if the second
  sender preempts the first right after its address octet, every byte of both frames goes over the
  UART, in an order the two calls of \<open>hdlc_block_send_sync\<close> allow, and the receiver gets the second
  block only: the preempted one is lost.
\<close>

theorem preempted_frame_lost:
  assumes "crc_documented z" and "a \<in> {ADDRESS_GREYBUS, ADDRESS_DBG, ADDRESS_CONTROL}"
    and "length p + 4 \<le> HDLC_MAX_BLOCK_SIZE" and "length q + 4 \<le> HDLC_MAX_BLOCK_SIZE"
    and "c AND 1 \<noteq> 0" and "d AND 1 \<noteq> 0"
  shows "\<exists>first second wire.
    hdlc_block_send_sync hdlc_send_callback z p (length p) a c s = Inr (0, s\<lparr>uart_tx := uart_tx s @ first\<rparr>) \<and>
    hdlc_block_send_sync hdlc_send_callback z q (length q) b d s = Inr (0, s\<lparr>uart_tx := uart_tx s @ second\<rparr>) \<and>
    hdlc_decode z (first @ second) = [(a, p), (b, q)] \<and>
    wire \<in> shuffles first second \<and> hdlc_decode z wire = [(b, q)]"
proof (intro exI conjI)
  let ?f = "hdlc_frame z a c p" and ?g = "hdlc_frame z b d q"
  have "c \<noteq> 0" "d \<noteq> 0" using assms(5,6) by auto
  then show "hdlc_block_send_sync hdlc_send_callback z p (length p) a c s = Inr (0, s\<lparr>uart_tx := uart_tx s @ ?f\<rparr>)"
    "hdlc_block_send_sync hdlc_send_callback z q (length q) b d s = Inr (0, s\<lparr>uart_tx := uart_tx s @ ?g\<rparr>)"
    by (simp_all add: hdlc_block_send_uart)
  show "hdlc_decode z (?f @ ?g) = [(a, p), (b, q)]"
    using hdlc_decode_frame [OF assms(1,3,5)] hdlc_decode_frame [OF assms(1,4,6), of b "[]"] by simp
  show "preempted z a c p ?g \<in> shuffles ?f ?g" by (rule preempted_shuffle)
  let ?tail = "tl (hdlc_body z a c p)"
  have one: "hdlc_accept z [a] = []" by (simp add: hdlc_accept_def hdlc_kept_short hdlc_consts)
  have "preempted z a c p ?g = HDLC_FRAME # hdlc_escape [a] @ HDLC_FRAME #
      (hdlc_escape (hdlc_body z b d q) @ HDLC_FRAME # (hdlc_escape ?tail @ HDLC_FRAME # []))"
    by (simp add: preempted_def hdlc_frame_def)
  then show "hdlc_decode z (preempted z a c p ?g) = [(b, q)]"
    using hdlc_accept_tail [OF assms(1,3,2)] hdlc_accept_body [OF assms(1,4,6)] one
    by (simp only: hdlc_decode_flag hdlc_decode_body hdlc_decode_Nil append.simps)
qed

theorem preempted_frame_lost_witness:
  "\<exists>first second wire.
    hdlc_block_send_sync hdlc_send_callback sample_zephyr [7, 8] (length ([7, 8] :: byte list)) ADDRESS_GREYBUS 3 sample_hd =
      Inr (0, sample_hd\<lparr>uart_tx := uart_tx sample_hd @ first\<rparr>) \<and>
    hdlc_block_send_sync hdlc_send_callback sample_zephyr [9] (length ([9] :: byte list)) ADDRESS_DBG 3 sample_hd =
      Inr (0, sample_hd\<lparr>uart_tx := uart_tx sample_hd @ second\<rparr>) \<and>
    hdlc_decode sample_zephyr (first @ second) = [(ADDRESS_GREYBUS, [7, 8]), (ADDRESS_DBG, [9])] \<and>
    wire \<in> shuffles first second \<and> hdlc_decode sample_zephyr wire = [(ADDRESS_DBG, [9])]"
  by (rule preempted_frame_lost) (simp_all add: sample_documented HDLC_MAX_BLOCK_SIZE_def)

text \<open>
  After an overflow the check no longer covers the first octet of the new block: whatever that octet is,
  the block is accepted and the octet is taken for the address.
\<close>

lemma overlong_address_unchecked:
  assumes "crc_documented z" and "length junk = HDLC_MAX_BLOCK_SIZE" and "length p + 5 \<le> HDLC_MAX_BLOCK_SIZE"
    and "c AND 1 \<noteq> 0"
  shows "hdlc_decode z (HDLC_FRAME # hdlc_escape (junk @ x # hdlc_body z c d p) @ [HDLC_FRAME]) = [(x, d # p)]"
proof -
  let ?body = "hdlc_body z c d p"
  have k: "hdlc_kept (junk @ x # ?body) = x # ?body"
    using assms(2,3) by (simp add: hdlc_kept_def hdlc_consts)
  then have "hdlc_checked (junk @ x # ?body) = ?body" using assms(2) by (simp add: hdlc_checked_def)
  then have "hdlc_accept z (junk @ x # ?body) = [(x, d # p)]"
    using k crc_chain_body [OF assms(1), of c d p] assms(4)
    by (simp add: hdlc_accept_def) (simp add: hdlc_body_def)
  then show ?thesis
    using hdlc_decode_body [of z "junk @ x # ?body" "[]"] by (simp add: hdlc_decode_flag)
qed

end
