(* ===== verification/Log_Backend.thy ===== *)
theory Log_Backend
  imports Hdlc_Stream
begin

text \<open>
  The log backend of src/hdlc_log_backend.c: the callbacks it registers with Zephyr's log library and the
  output function through which the library hands text to the HDLC driver.  The log library is outside
  the repository and a parameter; it is given an output function and calls it back as often as it
  likes, and what it does next may depend on what the function returned.
\<close>

section \<open>The log library\<close>

text \<open>A computation of the library: finished, or calling the output function and going on with its result.\<close>

datatype 'w log_io =
    Log_done 'w
  | Log_out "byte list" "int \<Rightarrow> 'w log_io"

text \<open>
  The calls the backend makes, each a function of its arguments and the platform's hidden state.  The
  argument \<open>nat\<close> is the size of the buffer of the output object.
\<close>

record ('w, 'm) log_lib =
  log_backend_std_get_flags :: "'w \<Rightarrow> 32 word \<times> 'w"
  log_output_msg_process :: "nat \<Rightarrow> 'm \<Rightarrow> 32 word \<Rightarrow> 'w \<Rightarrow> 'w log_io"
  log_backend_std_dropped :: "nat \<Rightarrow> 32 word \<Rightarrow> 'w \<Rightarrow> 'w log_io"
  log_backend_std_panic :: "nat \<Rightarrow> 'w \<Rightarrow> 'w log_io"

section \<open>The backend\<close>

definition BUFFER_LEN :: nat where "BUFFER_LEN = 200"

definition hdlc_uart_out :: "'w zephyr \<Rightarrow> byte list \<Rightarrow> nat \<Rightarrow> ('w, 'a) hd \<Rightarrow> (int \<times> ('w, 'a) hd) res" where
  "hdlc_uart_out z data len s =
     bnd (hdlc_block_send_sync hdlc_send_callback z data len ADDRESS_DBG 0x03 s) (\<lambda>(r, s). Inr (int len, s))"

text \<open>
  The output object of \<open>LOG_OUTPUT_DEFINE\<close>: the function the library calls back and the size of the
  buffer it may use.
\<close>

record ('w, 'a) log_output =
  output_func :: "byte list \<Rightarrow> nat \<Rightarrow> ('w, 'a) hd \<Rightarrow> (int \<times> ('w, 'a) hd) res"
  output_size :: nat

definition hdlc_uart_output :: "'w zephyr \<Rightarrow> ('w, 'a) log_output" where
  "hdlc_uart_output z = \<lparr>output_func = hdlc_uart_out z, output_size = BUFFER_LEN\<rparr>"

primrec run_log :: "('w, 'a) log_output \<Rightarrow> 'w log_io \<Rightarrow> ('w, 'a) hd \<Rightarrow> ('w, 'a) hd res" where
  "run_log out (Log_done w) s = Inr (s\<lparr>world := w\<rparr>)"
| "run_log out (Log_out data k) s = bnd (output_func out data (length data) s) (\<lambda>(r, s). run_log out (k r) s)"

definition hdlc_uart_backend_process ::
  "'w zephyr \<Rightarrow> ('w, 'm) log_lib \<Rightarrow> 'm \<Rightarrow> ('w, 'a) hd \<Rightarrow> ('w, 'a) hd res" where
  "hdlc_uart_backend_process z lg msg s =
     (let (flags, w) = log_backend_std_get_flags lg (world s);
          out = hdlc_uart_output z
      in run_log out (log_output_msg_process lg (output_size out) msg flags w) (s\<lparr>world := w\<rparr>))"

definition hdlc_uart_backend_dropped ::
  "'w zephyr \<Rightarrow> ('w, 'm) log_lib \<Rightarrow> 32 word \<Rightarrow> ('w, 'a) hd \<Rightarrow> ('w, 'a) hd res" where
  "hdlc_uart_backend_dropped z lg cnt s =
     (let out = hdlc_uart_output z in run_log out (log_backend_std_dropped lg (output_size out) cnt (world s)) s)"

definition hdlc_uart_backend_panic :: "'w zephyr \<Rightarrow> ('w, 'm) log_lib \<Rightarrow> ('w, 'a) hd \<Rightarrow> ('w, 'a) hd res" where
  "hdlc_uart_backend_panic z lg s =
     (let out = hdlc_uart_output z in run_log out (log_backend_std_panic lg (output_size out) (world s)) s)"

definition hdlc_uart_backend_init :: "('w, 'a) hd \<Rightarrow> ('w, 'a) hd" where
  "hdlc_uart_backend_init s = s"

definition EBUSY :: int where "EBUSY = 16"

definition hdlc_uart_backend_is_ready :: "'w zephyr \<Rightarrow> ('w, 'a) hd \<Rightarrow> int \<times> ('w, 'a) hd" where
  "hdlc_uart_backend_is_ready z s =
     (let (ready, w) = device_is_ready z (world s)
      in (if ready then 0 else - EBUSY, s\<lparr>world := w\<rparr>))"

definition hdlc_uart_backend_format_set :: "32 word \<Rightarrow> ('w, 'a) hd \<Rightarrow> int \<times> ('w, 'a) hd" where
  "hdlc_uart_backend_format_set log_type s = (0, s)"

definition hdlc_uart_backend_notify :: "nat \<Rightarrow> ('w, 'a) hd \<Rightarrow> ('w, 'a) hd" where
  "hdlc_uart_backend_notify event s = s"

text \<open>\<open>hdlc_uart_backend_api\<close>: what the library may ask of the backend.\<close>

datatype 'm log_event =
    Log_process 'm
  | Log_dropped "32 word"
  | Log_panic
  | Log_init
  | Log_is_ready
  | Log_format_set "32 word"
  | Log_notify nat

definition hdlc_uart_backend_api ::
  "'w zephyr \<Rightarrow> ('w, 'm) log_lib \<Rightarrow> 'm log_event \<Rightarrow> ('w, 'a) hd \<Rightarrow> ('w, 'a) hd res" where
  "hdlc_uart_backend_api z lg ev s =
     (case ev of
        Log_process msg \<Rightarrow> hdlc_uart_backend_process z lg msg s
      | Log_dropped cnt \<Rightarrow> hdlc_uart_backend_dropped z lg cnt s
      | Log_panic \<Rightarrow> hdlc_uart_backend_panic z lg s
      | Log_init \<Rightarrow> Inr (hdlc_uart_backend_init s)
      | Log_is_ready \<Rightarrow> Inr (snd (hdlc_uart_backend_is_ready z s))
      | Log_format_set ty \<Rightarrow> Inr (snd (hdlc_uart_backend_format_set ty s))
      | Log_notify event \<Rightarrow> Inr (hdlc_uart_backend_notify event s))"

section \<open>What comes out\<close>

text \<open>
  The pieces of text the library hands out when every call reports the whole piece as processed, and
  the state it ends in.
\<close>

primrec log_pieces :: "'w log_io \<Rightarrow> byte list list" where
  "log_pieces (Log_done w) = []"
| "log_pieces (Log_out data k) = data # log_pieces (k (int (length data)))"

primrec log_world :: "'w log_io \<Rightarrow> 'w" where
  "log_world (Log_done w) = w"
| "log_world (Log_out data k) = log_world (k (int (length data)))"

definition log_frames :: "'w zephyr \<Rightarrow> byte list list \<Rightarrow> byte list" where
  "log_frames z ds = concat (map (\<lambda>(a, c, p). hdlc_frame z a c p) (map (\<lambda>d. (ADDRESS_DBG, 3, d)) ds))"

lemma hdlc_uart_out_eq:
  "hdlc_uart_out z d (length d) s = Inr (int (length d), s\<lparr>uart_tx := uart_tx s @ hdlc_frame z ADDRESS_DBG 3 d\<rparr>)"
  by (simp add: hdlc_uart_out_def hdlc_block_send_uart)

lemma run_log_eq:
  "run_log (hdlc_uart_output z) io s =
     Inr (s\<lparr>world := log_world io, uart_tx := uart_tx s @ log_frames z (log_pieces io)\<rparr>)"
proof (induction io arbitrary: s)
  case (Log_done w)
  then show ?case by (simp add: log_frames_def)
next
  case (Log_out d k)
  have "run_log (hdlc_uart_output z) (Log_out d k) s =
      run_log (hdlc_uart_output z) (k (int (length d))) (s\<lparr>uart_tx := uart_tx s @ hdlc_frame z ADDRESS_DBG 3 d\<rparr>)"
    by (simp add: hdlc_uart_output_def hdlc_uart_out_eq)
  then show ?case using Log_out.IH [OF rangeI] by (simp add: log_frames_def)
qed

text \<open>What the library computes for one of the three events that produce output.\<close>

definition log_run :: "('w, 'm) log_lib \<Rightarrow> 'm log_event \<Rightarrow> 'w \<Rightarrow> 'w log_io" where
  "log_run lg ev w =
     (case ev of
        Log_process msg \<Rightarrow>
          let (flags, w) = log_backend_std_get_flags lg w in log_output_msg_process lg BUFFER_LEN msg flags w
      | Log_dropped cnt \<Rightarrow> log_backend_std_dropped lg BUFFER_LEN cnt w
      | Log_panic \<Rightarrow> log_backend_std_panic lg BUFFER_LEN w
      | _ \<Rightarrow> Log_done w)"

definition log_events :: "'m log_event set" where
  "log_events = range Log_process \<union> range Log_dropped \<union> {Log_panic}"

lemma backend_api_eq:
  "ev \<in> log_events \<Longrightarrow> hdlc_uart_backend_api z lg ev s =
     Inr (s\<lparr>world := log_world (log_run lg ev (world s)),
            uart_tx := uart_tx s @ log_frames z (log_pieces (log_run lg ev (world s)))\<rparr>)"
  by (auto simp: log_events_def hdlc_uart_backend_api_def hdlc_uart_backend_process_def hdlc_uart_backend_dropped_def
      hdlc_uart_backend_panic_def log_run_def run_log_eq hdlc_uart_output_def [THEN arg_cong, of output_size] Let_def
      split: prod.split)

lemma backend_api_other:
  "ev \<notin> log_events \<Longrightarrow> \<exists>w. hdlc_uart_backend_api z lg ev s = Inr (s\<lparr>world := w\<rparr>)"
  by (cases ev) (auto simp: log_events_def hdlc_uart_backend_api_def hdlc_uart_backend_init_def hdlc_uart_backend_is_ready_def
      hdlc_uart_backend_format_set_def hdlc_uart_backend_notify_def split: prod.split intro: exI [of _ "world s"])

text \<open>The library formats into the buffer of the output object, so no piece is larger than that.\<close>

definition log_documented :: "('w, 'm) log_lib \<Rightarrow> bool" where
  "log_documented lg \<longleftrightarrow>
     (\<forall>n msg flags w. \<forall>d \<in> set (log_pieces (log_output_msg_process lg n msg flags w)). length d \<le> n) \<and>
     (\<forall>n cnt w. \<forall>d \<in> set (log_pieces (log_backend_std_dropped lg n cnt w)). length d \<le> n) \<and>
     (\<forall>n w. \<forall>d \<in> set (log_pieces (log_backend_std_panic lg n w)). length d \<le> n)"

lemma log_run_pieces:
  "log_documented lg \<Longrightarrow> d \<in> set (log_pieces (log_run lg ev w)) \<Longrightarrow> length d \<le> BUFFER_LEN"
  by (auto simp: log_documented_def log_run_def split: log_event.splits prod.splits)

lemma log_frames_decode:
  assumes "crc_documented z" "\<And>d. d \<in> set ds \<Longrightarrow> length d + 4 \<le> HDLC_MAX_BLOCK_SIZE"
  shows "hdlc_decode z (log_frames z ds) = map (\<lambda>d. (ADDRESS_DBG, d)) ds"
proof -
  have "hdlc_decode z (log_frames z ds) = map (\<lambda>(a, c, p). (a, p)) (map (\<lambda>d. (ADDRESS_DBG, 3 :: u8, d)) ds)"
    unfolding log_frames_def by (rule hdlc_decode_frames [OF assms(1)]) (use assms(2) in auto)
  then show ?thesis by simp
qed

text \<open>What the library leaves alone of the platform's state, whatever the output function answers.\<close>

definition log_keeps :: "('w, 'm) log_lib \<Rightarrow> ('w \<Rightarrow> 'w \<Rightarrow> bool) \<Rightarrow> bool" where
  "log_keeps lg Q \<longleftrightarrow> (\<forall>w. Q w (snd (log_backend_std_get_flags lg w)) \<and>
     (\<forall>n msg flags. Q w (log_world (log_output_msg_process lg n msg flags w))) \<and>
     (\<forall>n cnt. Q w (log_world (log_backend_std_dropped lg n cnt w))) \<and>
     (\<forall>n. Q w (log_world (log_backend_std_panic lg n w))))"

lemma log_keeps_mono: "log_keeps lg Q \<Longrightarrow> (\<And>w w'. Q w w' \<Longrightarrow> R w w') \<Longrightarrow> log_keeps lg R"
  unfolding log_keeps_def by blast

lemma log_run_keeps:
  assumes "log_keeps lg Q" "\<And>w. Q w w" "\<And>u v w. Q u v \<Longrightarrow> Q v w \<Longrightarrow> Q u w"
  shows "Q w (log_world (log_run lg ev w))"
proof (cases ev)
  case (Log_process msg)
  have "Q w (snd (log_backend_std_get_flags lg w))" "Q v (log_world (log_output_msg_process lg n msg f v))" for n f v
    using assms(1) by (simp_all add: log_keeps_def)
  then show ?thesis using assms(3) by (auto simp: Log_process log_run_def split_def Let_def)
qed (use assms(1,2) in \<open>auto simp: log_keeps_def log_run_def\<close>)

definition sample_log :: "(sample_world, byte list) log_lib" where
  "sample_log = \<lparr>log_backend_std_get_flags = (\<lambda>w. (7, w)),
     log_output_msg_process = (\<lambda>n msg flags w. Log_out (take n msg) (\<lambda>r.
       if nat r < length msg then Log_out (take n (drop (nat r) msg)) (\<lambda>r. Log_done w) else Log_done w)),
     log_backend_std_dropped = (\<lambda>n cnt w. Log_out (take n [0x2d]) (\<lambda>r. Log_done w)),
     log_backend_std_panic = (\<lambda>n w. Log_done w)\<rparr>"

lemma sample_log_documented: "log_documented sample_log"
  by (auto simp: log_documented_def sample_log_def)

text \<open>
  C17. Log text reaches the host.  Whatever the log library makes of a message, of a count of dropped
  messages or of a panic, and in whatever pieces it hands out the text, the backend does not fault,
  changes nothing but the UART (and the library's own state), and puts on it one debug frame per
  piece; the host's decoder recovers exactly these pieces, in order, on the debug address.  Every
  piece fits a frame because the output buffer, of 200 bytes, is smaller than an HDLC block.
\<close>

theorem log_text_reaches_host:
  assumes "crc_documented z" and "log_documented lg" and "ev \<in> log_events"
  shows "\<exists>wire w. hdlc_uart_backend_api z lg ev s = Inr (s\<lparr>world := w, uart_tx := uart_tx s @ wire\<rparr>) \<and>
    hdlc_decode z wire = map (\<lambda>d. (ADDRESS_DBG, d)) (log_pieces (log_run lg ev (world s)))"
proof (intro exI conjI)
  show "hdlc_uart_backend_api z lg ev s = Inr (s\<lparr>world := log_world (log_run lg ev (world s)),
      uart_tx := uart_tx s @ log_frames z (log_pieces (log_run lg ev (world s)))\<rparr>)"
    by (rule backend_api_eq [OF assms(3)])
  show "hdlc_decode z (log_frames z (log_pieces (log_run lg ev (world s)))) =
      map (\<lambda>d. (ADDRESS_DBG, d)) (log_pieces (log_run lg ev (world s)))"
    by (rule log_frames_decode [OF assms(1)])
      (use log_run_pieces [OF assms(2)] in \<open>fastforce simp: BUFFER_LEN_def HDLC_MAX_BLOCK_SIZE_def\<close>)
qed

theorem log_text_reaches_host_witness:
  "\<exists>wire w. hdlc_uart_backend_api sample_zephyr sample_log (Log_process [0x68, 0x69] :: byte list log_event) sample_hd =
      Inr (sample_hd\<lparr>world := w, uart_tx := uart_tx sample_hd @ wire\<rparr>) \<and>
    hdlc_decode sample_zephyr wire = map (\<lambda>d. (ADDRESS_DBG, d))
      (log_pieces (log_run sample_log (Log_process [0x68, 0x69] :: byte list log_event) (world sample_hd)))"
  by (rule log_text_reaches_host [OF sample_documented(1) sample_log_documented]) (simp add: log_events_def)

end
