(* ===== verification/Firmware.thy ===== *)
theory Firmware
  imports Svc Local_Node Mdns Log_Backend
begin

text \<open>
  The firmware put together: routing a message to its interface (src/apbridge.c, include/ap.h), the
  frames from the host and the UART interrupt (src/main.c), the receive thread for the nodes
  (src/node.c) and node discovery (src/tcp_discovery.c).
\<close>

section \<open>State\<close>

text \<open>
  \<open>rx_flag\<close> and \<open>rx_pipe\<close> are the local variables \<open>flag\<close> and \<open>fds[0].fd\<close> of the receive thread, which
  live as long as the thread; \<open>discovery_running\<close> says whether the discovery thread is not suspended
  and \<open>discovery_sock\<close> is \<open>tcp_discovery_data.sock\<close>.
\<close>

record 'w fw_state = "'w node_state" +
  rx_flag :: bool
  rx_pipe :: int
  discovery_running :: bool
  discovery_sock :: int

type_synonym ('w, 'a) fws = "('w, 'a) fw_state_scheme"

definition CONTROL_SVC_START :: u8 where "CONTROL_SVC_START = 0x01"
definition CONTROL_SVC_STOP :: u8 where "CONTROL_SVC_STOP = 0x02"
definition ENODEV :: int where "ENODEV = 19"

section \<open>Routing\<close>

definition intf_write_call ::
  "'w zephyr \<Rightarrow> intf_ptr \<Rightarrow> nat \<Rightarrow> u16 \<Rightarrow> ('w, 'a) ns \<Rightarrow> (int \<times> ('w, 'a) ns) res" where
  "intf_write_call z p msg cport_id s =
     bnd (intf_deref p s) (\<lambda>i.
       case intf_write i of
         Svc_inf_write \<Rightarrow> svc_inf_write z msg cport_id s
       | Local_intf_write \<Rightarrow> local_intf_write z msg cport_id s
       | Node_inf_write \<Rightarrow> node_inf_write z p msg cport_id s)"

definition connection_send ::
  "'w zephyr \<Rightarrow> u8 \<Rightarrow> u16 \<Rightarrow> nat \<Rightarrow> ('w, 'a) ns \<Rightarrow> (int \<times> ('w, 'a) ns) res" where
  "connection_send z nid cport msg s =
     (if nid = AP_INF_ID then
        (if length (node_ap_map s) \<le> unat cport then Inl OutOfBounds
         else let e = node_ap_map s ! unat cport in
              case node_intf e of
                None \<Rightarrow> Inl NullDeref
              | Some p \<Rightarrow> intf_write_call z p msg (node_cport e) s)
      else connection_send_to_ap z nid cport msg s)"

definition ap_rx_submit :: "'w zephyr \<Rightarrow> nat \<Rightarrow> u16 \<Rightarrow> ('w, 'a) ns \<Rightarrow> (int \<times> ('w, 'a) ns) res" where
  "ap_rx_submit z msg cport_id s = connection_send z AP_INF_ID cport_id msg s"

definition ap_init :: "('w, 'a) ns \<Rightarrow> ('w, 'a) ns" where
  "ap_init s = s"

definition ap_deinit :: "('w, 'a) ns \<Rightarrow> ('w, 'a) ns" where
  "ap_deinit s = s"

section \<open>Discovery\<close>

definition tcp_discovery_start :: "'w zephyr \<Rightarrow> bool \<Rightarrow> ('w, 'a) fws \<Rightarrow> ('w, 'a) fws" where
  "tcp_discovery_start z mdns s =
     (if mdns then let (sock, w) = mdns_socket_open_ipv6 z mdns_addr (world s)
                   in s\<lparr>world := w, discovery_sock := sock, discovery_running := True\<rparr>
      else s\<lparr>discovery_running := True\<rparr>)"

definition tcp_discovery_stop :: "'w zephyr \<Rightarrow> bool \<Rightarrow> ('w, 'a) fws \<Rightarrow> ('w, 'a) fws" where
  "tcp_discovery_stop z mdns s =
     (let s = s\<lparr>discovery_running := False\<rparr> in
      if mdns \<and> 0 \<le> discovery_sock s
      then s\<lparr>world := mdns_socket_close z (discovery_sock s) (world s), discovery_sock := -1\<rparr> else s)"

text \<open>
  One round of the discovery thread, in the configuration with a fixed node address and in the one
  with mDNS.
\<close>

definition handler_fixed :: "'w zephyr \<Rightarrow> byte list \<Rightarrow> ('w, 'a) ns \<Rightarrow> ('w, 'a) ns res" where
  "handler_fixed z node1 s = node_filter z [node1] s"

definition handler_mdns :: "'w zephyr \<Rightarrow> ('w, 'a) fws \<Rightarrow> ('w, 'a) fws res" where
  "handler_mdns z s =
     (if discovery_sock s < 0 then Inr s
      else
        let query = join_dots greybus_labels in
        bnd (mdns_query_send z (discovery_sock s) query (length query) (world s)) (\<lambda>(ret, w).
        let s = s\<lparr>world := w\<rparr> in
        if ret < 0 then Inr s
        else bnd (mdns_query_recv z (discovery_sock s) MAX_GREYBUS_NODES query (length query) 2000 (world s))
          (\<lambda>(addrs, w). node_filter z addrs (s\<lparr>world := w\<rparr>))))"

section \<open>Frames from the host\<close>

definition hdlc_process_greybus_frame ::
  "'w zephyr \<Rightarrow> byte list \<Rightarrow> nat \<Rightarrow> ('w, 'a) ns \<Rightarrow> (int \<times> ('w, 'a) ns) res" where
  "hdlc_process_greybus_frame z buffer buffer_len s =
     (let msg_len = size_sub buffer_len 2 in
      bnd (buf_read buffer 0 2) (\<lambda>cp.
      bnd (buf_read buffer 2 hdr_len) (\<lambda>hb.
        let hdr = hdr_of_bytes hb in
        if msg_len < unat (hdr_size hdr) then Inr (-1, s)
        else
          bnd (gb_message_alloc z (gb_hdr_payload_len hdr) (hdr_type hdr) (hdr_operation_id hdr)
                 (hdr_result hdr) s) (\<lambda>(msg, s).
          case msg of
            None \<Rightarrow> Inr (-1, s)
          | Some p \<Rightarrow>
              bnd (msg_get p s) (\<lambda>m.
              bnd (buf_read buffer (2 + hdr_len) (gb_message_payload_len m)) (\<lambda>bs.
              bnd (msg_payload_write p bs s) (\<lambda>s.
              bnd (ap_rx_submit z p (le16_of (cp ! 0) (cp ! 1)) s) (\<lambda>(ret, s).
                if ret < 0 then Inr (ret, s) else Inr (0, s)))))))))"

definition control_process_frame ::
  "'w zephyr \<Rightarrow> bool \<Rightarrow> byte list \<Rightarrow> nat \<Rightarrow> ('w, 'a) fws \<Rightarrow> (int \<times> ('w, 'a) fws) res" where
  "control_process_frame z mdns buffer buffer_len s =
     (if buffer_len \<noteq> 1 then Inr (-1, s)
      else bnd (buf_get buffer 0) (\<lambda>command.
        if command = CONTROL_SVC_START then
          let s = apbridge_init (svc_init (ap_init s)) in
          bnd (connection_create z AP_INF_ID 0 SVC_INF_ID 0 s) (\<lambda>(ret, s).
            if ret < 0 then Inr (ret, s)
            else bnd (svc_send_version z s) (\<lambda>(r, s). Inr (0, tcp_discovery_start z mdns s)))
        else if command = CONTROL_SVC_STOP then
          bnd (node_destroy_all z (tcp_discovery_stop z mdns s)) (\<lambda>s.
            Inr (0, apbridge_deinit (ap_deinit (svc_deinit s))))
        else Inr (-1, s)))"

definition main_process_complete_frame ::
  "'w zephyr \<Rightarrow> bool \<Rightarrow> byte list \<Rightarrow> nat \<Rightarrow> u8 \<Rightarrow> ('w, 'a) fws \<Rightarrow> (int \<times> ('w, 'a) fws) res" where
  "main_process_complete_frame z mdns buffer len address s =
     (if address = ADDRESS_GREYBUS then hdlc_process_greybus_frame z buffer len s
      else if address = ADDRESS_CONTROL then control_process_frame z mdns buffer len s
      else if address = ADDRESS_DBG then Inr (0, s)
      else Inr (-1, s))"

definition serial_callback :: "'w zephyr \<Rightarrow> ('w, 'a) hd \<Rightarrow> ('w, 'a) hd" where
  "serial_callback z s =
     (let (upd, w) = uart_irq_update z (world s);
          (rdy, w) = (if upd then (True, w) else uart_irq_rx_ready z w);
          s = s\<lparr>world := w\<rparr>
      in if \<not> upd \<and> \<not> rdy then s
         else let (n, s) = hdlc_rx_start z s in
              if n = 0 then s
              else let (ret, bs, w) = uart_fifo_read z n (world s);
                       s = s\<lparr>world := w\<rparr>
                   in if ret < 0 then s else snd (hdlc_rx_finish z (take (nat ret) bs) s))"

text \<open>\<open>main\<close> up to the point where it sleeps for ever.\<close>

definition main :: "'w zephyr \<Rightarrow> bool \<Rightarrow> ('w, 'a) fws \<Rightarrow> int \<times> ('w, 'a) fws" where
  "main z mdns s =
     (let s = tcp_discovery_stop z mdns s;
          (ready, w) = device_is_ready z (world s);
          s = s\<lparr>world := w\<rparr>
      in if \<not> ready then (- ENODEV, s)
         else let s = snd (hdlc_init s);
                  (ret, w) = uart_irq_callback_user_data_set z (world s);
                  s = s\<lparr>world := w\<rparr>
              in if ret < 0 then (ret, s)
                 else (0, s\<lparr>world := uart_irq_rx_enable z (world s)\<rparr>))"

section \<open>The receive thread for the nodes\<close>

text \<open>What the thread does before its loop: \<open>None\<close> while the SVC is not ready.\<close>

definition node_rx_start :: "'w zephyr \<Rightarrow> ('w, 'a) fws \<Rightarrow> (int \<times> ('w, 'a) fws) option" where
  "node_rx_start z s =
     (if \<not> svc_is_ready s then None
      else let (ret, rd, wr, w) = zsock_socketpair z (world s);
               s = s\<lparr>world := w\<rparr>
           in if ret < 0 then Some (ret, s)
              else Some (0, s\<lparr>local_pipe_writer := wr, rx_pipe := rd, rx_flag := False\<rparr>))"

text \<open>The body of the inner \<open>for\<close> loop for one polled socket.\<close>

definition node_rx_socket :: "'w zephyr \<Rightarrow> int \<times> revents \<Rightarrow> ('w, 'a) fws \<Rightarrow> ('w, 'a) fws res" where
  "node_rx_socket z fe s =
     (let (fd, ev) = fe in
      if pollnval ev then svc_send_module_removed_by_sock z fd s
      else if pollhup ev then svc_send_module_removed_by_sock z fd s
      else if pollerr ev then svc_send_module_removed_by_sock z fd s
      else if pollin ev then
        let ret = node_cache_find_by_sock fd s in
        if ret < 0 then Inr s
        else
          bnd (gb_message_receive z fd (rx_flag s) s) (\<lambda>((cport, msg), flag, s).
          let s = s\<lparr>rx_flag := flag\<rparr> in
          if flag then bnd (svc_send_module_removed z (item_inf (node_cache s ! nat ret)) s) (\<lambda>(r, s). Inr s)
          else case msg of
                 None \<Rightarrow> bnd (svc_send_module_removed z (item_inf (node_cache s ! nat ret)) s) (\<lambda>(r, s). Inr s)
               | Some p \<Rightarrow> bnd (connection_send z (item_id (node_cache s ! nat ret)) cport p s) (\<lambda>(r, s). Inr s))
      else Inr s)"

text \<open>One iteration of the thread's endless loop.\<close>

definition node_rx_iteration :: "'w zephyr \<Rightarrow> ('w, 'a) fws \<Rightarrow> ('w, 'a) fws res" where
  "node_rx_iteration z s =
     (let fds = rx_pipe s # map item_sock (nodes s);
          (ret, evs, w) = zsock_poll z fds (-1) (world s);
          s = s\<lparr>world := w\<rparr>
      in if ret < 0 then Inr s
         else let s = (if evs \<noteq> [] \<and> pollin (hd evs)
                       then s\<lparr>world := snd (snd (zsock_recv z (rx_pipe s) 1 (world s)))\<rparr> else s)
              in foldres (node_rx_socket z) (zip (tl fds) (tl evs)) s)"

section \<open>What a Greybus frame does\<close>

definition repadded :: "byte list \<Rightarrow> gb_message \<Rightarrow> gb_message" where
  "repadded blk m = m\<lparr>header := (header m)\<lparr>hdr_pad := (blk ! 6, blk ! 7)\<rparr>\<rparr>"

lemma repadded_sel [simp]:
  "payload (repadded blk m) = payload m" "hdr_size (header (repadded blk m)) = hdr_size (header m)"
  "hdr_type (header (repadded blk m)) = hdr_type (header m)"
  "hdr_operation_id (header (repadded blk m)) = hdr_operation_id (header m)"
  "hdr_result (header (repadded blk m)) = hdr_result (header m)" "wf_msg (repadded blk m) = wf_msg m"
  by (simp_all add: repadded_def wf_msg_def)

lemma greybus_frame_eq:
  assumes "heap_documented z" "wf_msg m" "k_heap_alloc z (hdr_len + length (payload m)) (world s) = (Some blk, w)"
  shows "hdlc_process_greybus_frame z (le16 cport @ msg_bytes m @ rest) (length (payload m) + 10) s =
    bnd (ap_rx_submit z (msg_next s) cport (with_msg (repadded blk m) w s)) (\<lambda>(ret, s).
      if ret < 0 then Inr (ret, s) else Inr (0, s))"
proof -
  let ?b = "le16 cport @ msg_bytes m @ rest" and ?h = "header m" and ?n = "length (payload m)"
  have small: "hdr_len + ?n < 65536" by (rule wf_msg_size [OF assms(2)])
  have rd: "buf_read ?b 0 2 = Inr (le16 cport)" "buf_read ?b 2 hdr_len = Inr (hdr_bytes ?h)"
    "buf_read ?b (2 + hdr_len) ?n = Inr (payload m)"
    by (simp_all add: buf_read_def msg_bytes_def hdr_len_def)
  have len: "size_sub (?n + 10) 2 = ?n + 8" using small by (subst size_sub_exact) (simp_all add: hdr_len_def)
  have sz: "unat (hdr_size ?h) = hdr_len + ?n" using assms(2) by (simp add: wf_msg_def)
  have pl: "gb_hdr_payload_len ?h = ?n"
    using wf_msg_payload_len [OF assms(2)] by (simp add: gb_message_payload_len_def)
  let ?m = "new_msg ?n (hdr_type ?h) (hdr_operation_id ?h) (hdr_result ?h) blk"
  have lm: "gb_message_payload_len ?m = ?n" "length (payload ?m) = ?n" "hdr_size (header ?m) = hdr_size ?h"
    using small sz heap_block_length [OF assms(1,3)]
    by (simp_all add: new_msg_def gb_message_payload_len_def gb_hdr_payload_len_def
        unat_of_nat_u16 size_sub_exact word_unat_eq_iff del: of_nat_add)
  have m: "?m\<lparr>payload := payload m\<rparr> = repadded blk m" using lm(3) by (simp add: new_msg_def repadded_def)
  have fit: "\<not> size_sub (?n + 10) 2 < unat (hdr_size ?h)" using len sz by (simp add: hdr_len_def)
  have cp: "le16_of (le16 cport ! 0) (le16 cport ! 1) = cport" by (rule le16_of_nth)
  have alloc: "gb_message_alloc z (gb_hdr_payload_len ?h) (hdr_type ?h) (hdr_operation_id ?h) (hdr_result ?h) s =
      Inr (Some (msg_next s), with_msg ?m w s)"
    by (simp add: pl gb_message_alloc_eq [OF assms(1) small] assms(3) with_msg_def)
  have get: "msg_get (msg_next s) (with_msg ?m w s) = Inr ?m" by (simp add: msg_get_def)
  have wr: "msg_payload_write (msg_next s) (payload m) (with_msg ?m w s) = Inr (with_msg (repadded blk m) w s)"
    using lm(2) m by (simp add: msg_payload_write_def get buf_write_def) (simp add: with_msg_def)
  show ?thesis
    using fit by (simp add: hdlc_process_greybus_frame_def rd rd [simplified] alloc get lm(1) wr cp [simplified] Let_def)
qed

lemma connection_send_ap:
  assumes "ap_route s p = Some (q, c, n)"
  shows "connection_send z AP_INF_ID p msg s = intf_write_call z q msg c s"
  using assms by (auto simp: connection_send_def ap_route_def Let_def split: if_splits)

end
