(* ===== verification/Firmware_Invariant.thy ===== *)
theory Firmware_Invariant
  imports Message_Users Firmware
begin

text \<open>
  What holds in every state the firmware gets into: the HDLC receive buffer, the node cache with its
  two slabs, the route table, the message heap and the two id counters are consistent.  Every
  operation that returns keeps it so, whatever the platform below does.
\<close>

section \<open>The invariant\<close>

definition intf_owned :: "('w, 'a) ns \<Rightarrow> bool" where
  "intf_owned s \<longleftrightarrow>
     (\<forall>b < length (gb_interface_slab s). gb_interface_slab s ! b \<noteq> None \<longrightarrow>
        Some (NodeIntf b) \<in> item_inf ` set (nodes s))"

text \<open>No address is cached twice, and every cached address is one discovery may report.\<close>

definition addrs_ok :: "byte list set \<Rightarrow> ('w, 'a) ns \<Rightarrow> bool" where
  "addrs_ok A s \<longleftrightarrow> distinct (map item_addr (nodes s)) \<and> item_addr ` set (nodes s) \<subseteq> A"

definition fw_inv :: "byte list set \<Rightarrow> ('w, 'a) ns \<Rightarrow> bool" where
  "fw_inv A s \<longleftrightarrow> addrs_ok A s \<and> rx_ok s \<and> node_ok s \<and> intf_owned s \<and> ap_map_ok s \<and> heap_ok s \<and> op_ids_ok s \<and> intf_ids_ok s"

abbreviation inv_pair :: "byte list set \<Rightarrow> 'r \<times> ('w, 'a) ns \<Rightarrow> bool" where
  "inv_pair A rt \<equiv> fw_inv A (snd rt)"

lemma addrs_ok_cong: "map item_addr (nodes t) = map item_addr (nodes s) \<Longrightarrow> addrs_ok A t = addrs_ok A s"
  unfolding addrs_ok_def by (metis set_map)

text \<open>What the invariant reads: two states that agree on it are equally good.\<close>

lemma fw_inv_cong:
  assumes "fw_inv A s" "rx_buffer t = rx_buffer s" "rx_buffer_len t = rx_buffer_len s" "node_cache t = node_cache s"
    "node_cache_pos t = node_cache_pos s" "gb_interface_slab t = gb_interface_slab s"
    "node_control_data_slab t = node_control_data_slab s" "node_ap_map t = node_ap_map s" "heap_ok t"
    "op_ids_ok t" "interface_id_counter t = interface_id_counter s"
  shows "fw_inv A t"
proof -
  have "nodes t = nodes s" using assms by (simp add: nodes_def)
  then show ?thesis
    using assms node_ok_cong [of s t]
    by (simp add: fw_inv_def addrs_ok_def rx_ok_def intf_owned_def ap_map_ok_def intf_ids_ok_def)
qed

lemma fw_inv_upd [simp]:
  "fw_inv A (s\<lparr>world := w\<rparr>) = fw_inv A s" "fw_inv A (s\<lparr>uart_tx := b\<rparr>) = fw_inv A s"
  "fw_inv A (s\<lparr>svc_is_read_flag := f\<rparr>) = fw_inv A s" "fw_inv A (s\<lparr>local_pipe_writer := n\<rparr>) = fw_inv A s"
  "fw_inv A (s\<lparr>rx_work_pending := f\<rparr>) = fw_inv A s"
  by (simp_all add: fw_inv_def addrs_ok_def rx_ok_def node_ok_def intf_owned_def nodes_def ap_map_ok_def heap_ok_def
      op_ids_ok_def intf_ids_ok_def)

lemma fw_inv_upd_fw [simp]:
  "fw_inv A (t\<lparr>rx_flag := f\<rparr>) = fw_inv A t" "fw_inv A (t\<lparr>rx_pipe := n\<rparr>) = fw_inv A t"
  "fw_inv A (t\<lparr>discovery_running := f\<rparr>) = fw_inv A t" "fw_inv A (t\<lparr>discovery_sock := n\<rparr>) = fw_inv A t"
  for t :: "('w, 'a) fws"
  by (simp_all add: fw_inv_def addrs_ok_def rx_ok_def node_ok_def intf_owned_def nodes_def ap_map_ok_def heap_ok_def
      op_ids_ok_def intf_ids_ok_def)

lemma fw_invD:
  assumes "fw_inv A s"
  shows "rx_ok s" "node_ok s" "intf_owned s" "ap_map_ok s" "heap_ok s" "op_ids_ok s" "intf_ids_ok s" "addrs_ok A s"
  using assms by (simp_all add: fw_inv_def)

text \<open>Reads do not change the state.\<close>

lemmas okr_reads =
  okr_any [where m = "msg_get p s" for p s] okr_any [where m = "buf_read b i n" for b i n]
  okr_any [where m = "buf_get b i" for b i] okr_any [where m = "buf_write b i c" for b i c]
  okr_any [where m = "intf_deref p s" for p s] okr_any [where m = "ctrl_get c s" for c s]
  okr_any [where m = "gb_svc_conn_request_read b" for b] okr_any [where m = "gb_svc_intf_set_pwrm_modes b" for b]

section \<open>Messages\<close>

lemma fw_inv_alloc:
  "fw_inv A s \<Longrightarrow> fw_inv A (s\<lparr>msg_heap := (msg_heap s)(msg_next s \<mapsto> m), msg_next := msg_next s + 1\<rparr>)"
  by (rule fw_inv_cong, assumption) (auto simp: heap_ok_def op_ids_ok_def dest: fw_invD(5,6))

interpretation fw: message_user z "\<lambda>_ _. True" "fw_inv A" for z A
proof unfold_locales
  fix s :: "('a, 'b) ns" and p m m'
  assume inv: "fw_inv A s"
  show "fw_inv A (snd (new_operation_id s))"
    using inv by (rule fw_inv_cong) (use fw_invD [OF inv] in \<open>auto simp: new_operation_id_eq heap_ok_def op_ids_ok_def\<close>)
  show "fw_inv A (s\<lparr>msg_heap := (msg_heap s)(msg_next s \<mapsto> m), msg_next := msg_next s + 1\<rparr>)"
    by (rule fw_inv_alloc [OF inv])
  show "fw_inv A (s\<lparr>msg_heap := (msg_heap s)(p := None)\<rparr>)"
    using inv by (rule fw_inv_cong) (use fw_invD [OF inv] in \<open>auto simp: heap_ok_def op_ids_ok_def\<close>)
  assume "msg_heap s p = Some m"
  then have "p < msg_next s" using fw_invD(5) [OF inv] by (auto simp: heap_ok_def intro: ccontr)
  then show "fw_inv A (s\<lparr>msg_heap := (msg_heap s)(p \<mapsto> m')\<rparr>)"
    using inv by (intro fw_inv_cong [OF inv]) (use fw_invD [OF inv] in \<open>auto simp: heap_ok_def op_ids_ok_def\<close>)
qed (simp_all add: calls_keep_def)

lemmas gb_message_alloc_inv = fw.alloc_keeps
lemmas gb_message_dealloc_inv = fw.dealloc_keeps
lemmas msg_payload_write_inv = fw.payload_write_keeps
lemmas response_alloc_inv = fw.response_alloc_keeps
lemmas block_send_inv = fw.block_send_keeps
lemmas connection_send_to_ap_inv = fw.connection_send_to_ap_keeps
lemmas control_send_request_inv = fw.control_send_request_keeps
lemmas svc_response_helper_inv = fw.svc_response_helper_keeps

lemma response_helper_inv: "fw_inv A s \<Longrightarrow> okr (fw_inv A) (response_helper z p bs st c s)"
  by (auto simp: response_helper_def split_def split: option.split
      intro!: okr_reads okr_bnd [OF response_alloc_inv] okr_bnd [OF connection_send_to_ap_inv])

section \<open>Nodes\<close>

lemma node_removed_inv:
  assumes inv: "fw_inv A s" and i: "i < node_cache_pos s" "item_inf (node_cache s ! i) = Some (NodeIntf b)"
    and c: "entry_ctrl (gb_interface_slab s) (node_cache s ! i) = Some c"
  shows "fw_inv A (node_removed z i b c s)"
proof -
  let ?t = "node_removed z i b c s"
  note m = node_ok_removed [OF fw_invD(2) [OF inv] i c, of z]
  have slab: "gb_interface_slab ?t = (gb_interface_slab s)[b := None]" by (simp add: node_removed_def)
  have "Some (NodeIntf k) \<in> item_inf ` set (nodes ?t)"
    if "k < length (gb_interface_slab ?t)" "gb_interface_slab ?t ! k \<noteq> None" for k
  proof -
    have k: "k \<noteq> b" "k < length (gb_interface_slab s)" "gb_interface_slab s ! k \<noteq> None"
      using that slab by (cases "k = b"; auto)+
    then have "Some (NodeIntf k) \<in> item_inf ` set (nodes s)" using fw_invD(3) [OF inv] by (simp add: intf_owned_def)
    then show ?thesis using set_mset_remove [OF m(2)] i(2) k(1) by auto
  qed
  then have "intf_owned ?t" by (simp add: intf_owned_def)
  moreover have "addrs_ok A ?t"
    using fw_invD(8) [OF inv] distinct_map_mset [OF m(2), of item_addr] set_mset_remove [OF m(2)] by (auto simp: addrs_ok_def)
  ultimately show ?thesis using m(1) fw_invD [OF inv]
    unfolding fw_inv_def by (auto simp: node_removed_def rx_ok_def ap_map_ok_def heap_ok_def op_ids_ok_def intf_ids_ok_def)
qed

lemma node_destroy_interface_inv:
  assumes inv: "fw_inv A s" shows "okr (fw_inv A) (node_destroy_interface z p s)"
proof (cases "p = None \<or> p = Some SvcIntf \<or> p = Some LocalIntf")
  case True
  then show ?thesis using inv by (auto simp: node_destroy_interface_def svc_intf_def local_intf_def)
next
  case False
  then obtain b where p: "p = Some (NodeIntf b)" by (metis intf_ptr.exhaust not_Some_eq)
  show ?thesis
  proof (cases "b < length (gb_interface_slab s) \<and> gb_interface_slab s ! b \<noteq> None")
    case True
    then have "Some (NodeIntf b) \<in> item_inf ` set (nodes s)" using fw_invD(3) [OF inv] by (simp add: intf_owned_def)
    then obtain i where i: "i < node_cache_pos s" "item_inf (node_cache s ! i) = Some (NodeIntf b)"
      using length_nodes [OF fw_invD(2) [OF inv]] by (auto simp: in_set_conv_nth nodes_def)
    obtain b' c where d: "item_inf (node_cache s ! i) = Some (NodeIntf b')"
      "entry_ctrl (gb_interface_slab s) (node_cache s ! i) = Some c"
      "node_destroy_interface z (item_inf (node_cache s ! i)) s = Inr (node_removed z i b' c s)"
      by (rule node_destroy_interface_eq [OF fw_invD(2) [OF inv] i(1)])
    with i p node_removed_inv [OF inv i(1) d(1,2)] show ?thesis by simp
  next
    case False
    then show ?thesis using p by (auto simp: node_destroy_interface_def intf_deref_def)
  qed
qed

lemma svc_send_module_removed_inv: "fw_inv A s \<Longrightarrow> okr (inv_pair A) (svc_send_module_removed z p s)"
  by (auto simp: svc_send_module_removed_def split_def split: option.split
      intro!: okr_reads okr_bnd [OF control_send_request_inv] okr_bnd [OF node_destroy_interface_inv])

lemma module_removed_by_sock_inv: "fw_inv A s \<Longrightarrow> okr (fw_inv A) (svc_send_module_removed_by_sock z k s)"
  by (auto simp: svc_send_module_removed_by_sock_def split_def Let_def intro!: okr_bnd [OF svc_send_module_removed_inv])

lemma write_data_inv: "fw_inv A s \<Longrightarrow> okr (inv_pair A) (write_data z k d n s)"
  by (auto simp: write_data_def split: option.split)

lemma read_data_inv: "fw_inv A s \<Longrightarrow> okr (\<lambda>(r, b, t). fw_inv A t) (read_data z k n s)"
  by (auto simp: read_data_def split: option.split)

lemma gb_message_send_inv: "fw_inv A s \<Longrightarrow> okr (inv_pair A) (gb_message_send z k p c s)"
  by (auto simp: gb_message_send_def send_failed_def split_def
      intro!: okr_reads okr_bnd [OF write_data_inv] okr_bnd [OF module_removed_by_sock_inv])

lemma gb_message_receive_inv: "fw_inv A s \<Longrightarrow> okr (\<lambda>(r, f, t). fw_inv A t) (gb_message_receive z k f s)"
  by (auto simp: gb_message_receive_def receive_failed_def Let_def split: option.split
      intro!: okr_reads okr_bnd [OF read_data_inv] okr_bnd [OF gb_message_alloc_inv]
        okr_bnd [OF msg_payload_write_inv] okr_bnd [OF gb_message_dealloc_inv])

lemma node_inf_write_inv: "fw_inv A s \<Longrightarrow> okr (inv_pair A) (node_inf_write z p m c s)"
  by (auto simp: node_inf_write_def split_def split: option.split
      intro!: okr_reads okr_bnd [OF gb_message_send_inv] okr_bnd [OF svc_send_module_removed_inv]
        okr_bnd [OF gb_message_dealloc_inv])

section \<open>Connections and interfaces\<close>

lemma conn_frame_inv: "fw_inv A s \<Longrightarrow> conn_frame s t \<Longrightarrow> node_ok t \<Longrightarrow> fw_inv A t"
  unfolding fw_inv_def using addrs_ok_cong [of t s A]
  by (auto simp: conn_frame_def rx_ok_def intf_owned_def ap_map_ok_def heap_ok_def op_ids_ok_def intf_ids_ok_def
      dest: arg_cong [of _ _ set])

lemma node_ap_add_inv: "fw_inv A s \<Longrightarrow> okr (inv_pair A) (node_ap_add p c q s)"
proof -
  assume inv: "fw_inv A s"
  show ?thesis
  proof (cases "node_ap_add p c q s")
    case (Inr rt)
    then obtain r t where rt: "node_ap_add p c q s = Inr (r, t)" by (cases rt) simp
    have "ap_map_ok t" by (rule node_ap_add_ok [OF fw_invD(4) [OF inv] rt])
    moreover have "node_ok t" by (rule node_ap_add_node_ok [OF fw_invD(2) [OF inv] rt])
    moreover have "rx_ok t" "intf_owned t" "addrs_ok A t" "heap_ok t" "op_ids_ok t" "intf_ids_ok t"
      using rt fw_invD [OF inv]
      by (auto simp: node_ap_add_def addrs_ok_def rx_ok_def intf_owned_def nodes_def heap_ok_def op_ids_ok_def intf_ids_ok_def
          split: if_splits)
    ultimately show ?thesis using rt by (simp add: fw_inv_def)
  qed simp
qed

lemma node_ap_remove_inv: "fw_inv A s \<Longrightarrow> fw_inv A (snd (node_ap_remove p s))"
  using node_ap_remove_ok [of s p] unfolding fw_inv_def
  by (auto simp: node_ap_remove_def addrs_ok_def rx_ok_def intf_owned_def nodes_def heap_ok_def op_ids_ok_def intf_ids_ok_def
      elim: node_ok_cong split: if_splits)

lemma connection_create_inv:
  assumes inv: "fw_inv A s" shows "okr (inv_pair A) (connection_create z i1 c1 i2 c2 s)"
proof -
  have "okr (inv_pair A) (create_connection_call z q c s)" if "gb_interface_find_by_id n s = Some q" for n q c
    using create_connection_call_ok(1) [OF fw_invD(2) [OF inv] that, of z c] conn_frame_inv [OF inv] by auto
  then show ?thesis
    using inv by (auto simp: connection_create_def split_def split: option.split
        intro!: okr_bnd [where P = "inv_pair A" and m = "create_connection_call z q c s" for q c] okr_bnd [OF node_ap_add_inv])
qed

lemma connection_destroy_inv:
  assumes inv: "fw_inv A s" shows "okr (inv_pair A) (connection_destroy i1 c1 i2 c2 s)"
proof -
  have "okr (fw_inv A) (destroy_connection_call q c s)" if "gb_interface_find_by_id n s = Some q" for n q c
    using destroy_connection_call_ok [OF fw_invD(2) [OF inv] that, of c] conn_frame_inv [OF inv] by auto
  then show ?thesis
    using inv by (auto simp: connection_destroy_def split_def node_ap_remove_inv split: option.split
        intro!: okr_bnd [where P = "fw_inv A"])
qed

lemma svc_conn_create_inv: "fw_inv A s \<Longrightarrow> okr (fw_inv A) (svc_connection_create_handler z p s)"
  by (auto simp: svc_connection_create_handler_def split_def
      intro!: okr_reads svc_response_helper_inv okr_bnd [OF connection_create_inv])

lemma svc_conn_destroy_inv: "fw_inv A s \<Longrightarrow> okr (fw_inv A) (svc_connection_destroy_handler z p s)"
  by (auto simp: svc_connection_destroy_handler_def split_def
      intro!: okr_reads svc_response_helper_inv okr_bnd [OF connection_destroy_inv])

lemma svc_set_pwrm_inv: "fw_inv A s \<Longrightarrow> okr (fw_inv A) (svc_intf_set_pwrm_handler z p s)"
  by (auto simp: svc_intf_set_pwrm_handler_def split_def Let_def intro!: okr_reads svc_response_helper_inv)

lemma svc_version_response_inv: "fw_inv A s \<Longrightarrow> okr (fw_inv A) (svc_version_response_handler z p s)"
  by (auto simp: svc_version_response_handler_def svc_send_hello_def split_def
      intro!: okr_reads okr_bnd [OF control_send_request_inv])

lemma svc_event_response_inv:
  "fw_inv A s \<Longrightarrow> okr (fw_inv A) (svc_module_inserted_response_handler z p s)"
  "fw_inv A s \<Longrightarrow> okr (fw_inv A) (svc_module_removed_response_handler z p s)"
  "fw_inv A s \<Longrightarrow> okr (fw_inv A) (svc_hello_response_handler z p s)"
  by (auto simp: svc_module_inserted_response_handler_def svc_module_removed_response_handler_def
      svc_hello_response_handler_def intro!: okr_reads)

lemmas svc_fixed_handlers = svc_empty_request_handler_def svc_dme_peer_get_handler_def
  svc_dme_peer_set_handler_def svc_pwrm_get_rail_count_handler_def
  svc_intf_vsys_enable_disable_handler_def svc_interface_refclk_enable_disable_handler_def
  svc_interface_unipro_enable_disable_handler_def svc_interface_activate_handler_def
  svc_interface_resume_handler_def

lemma gb_handle_msg_inv:
  assumes inv: "fw_inv A s" shows "okr (fw_inv A) (gb_handle_msg z p s)"
  unfolding gb_handle_msg_def Let_def svc_fixed_handlers
  by (rule okr_any)
    (simp add: svc_response_helper_inv [OF inv] svc_conn_create_inv [OF inv] svc_conn_destroy_inv [OF inv]
      svc_set_pwrm_inv [OF inv] svc_version_response_inv [OF inv] svc_event_response_inv [OF inv] inv)

lemma svc_inf_write_inv: "fw_inv A s \<Longrightarrow> okr (inv_pair A) (svc_inf_write z p c s)"
  by (auto simp: svc_inf_write_def intro!: okr_bnd [OF gb_handle_msg_inv] okr_bnd [OF gb_message_dealloc_inv])

lemma control_protocol_handle_inv: "fw_inv A s \<Longrightarrow> okr (fw_inv A) (control_protocol_handle z p s)"
  by (auto simp: control_protocol_handle_def Let_def control_protocol_cport_shutdown_handler_def
      control_protocol_version_handler_def control_protocol_get_manifest_size_handler_def
      control_protocol_get_manifest_handler_def control_protocol_empty_handler_def
      intro!: okr_reads response_helper_inv)

lemma local_intf_write_inv: "fw_inv A s \<Longrightarrow> okr (inv_pair A) (local_intf_write z p c s)"
  by (auto simp: local_intf_write_def
      intro!: okr_bnd [OF control_protocol_handle_inv] okr_bnd [OF gb_message_dealloc_inv])

lemma connection_send_inv: "fw_inv A s \<Longrightarrow> okr (inv_pair A) (connection_send z n c p s)"
  by (auto simp: connection_send_def intf_write_call_def Let_def connection_send_to_ap_inv svc_inf_write_inv
      local_intf_write_inv node_inf_write_inv split: option.split write_fn.split intro!: okr_reads)

section \<open>Frames from the host\<close>

lemma hdlc_process_greybus_frame_inv: "fw_inv A s \<Longrightarrow> okr (inv_pair A) (hdlc_process_greybus_frame z b n s)"
  by (auto simp: hdlc_process_greybus_frame_def ap_rx_submit_def Let_def split_def split: option.split
      intro!: okr_reads okr_bnd [OF gb_message_alloc_inv] okr_bnd [OF msg_payload_write_inv]
        okr_bnd [OF connection_send_inv])

lemma node_destroy_loop_inv: "fw_inv A s \<Longrightarrow> okr (fw_inv A) (node_destroy_loop z n i s)"
  by (induction n arbitrary: i s) (auto intro!: okr_bnd [OF node_destroy_interface_inv])

lemma node_destroy_all_inv: "fw_inv A s \<Longrightarrow> okr (fw_inv A) (node_destroy_all z s)"
proof -
  have "fw_inv A (t\<lparr>node_cache_pos := 0\<rparr>)" if "fw_inv A t" "True \<notin> set (slab_used (node_control_data_slab t))" for t :: "('a, 'b) ns"
  proof -
    have "node_cache_pos t = 0" using ctrl_used_iff [OF fw_invD(2) [OF that(1)]] that(2) by simp
    then have "t\<lparr>node_cache_pos := 0\<rparr> = t" by (auto intro!: node_state.equality)
    with that(1) show ?thesis by simp
  qed
  then show "fw_inv A s \<Longrightarrow> ?thesis"
    by (auto simp: node_destroy_all_def Let_def intro!: okr_bnd [OF node_destroy_loop_inv])
qed

lemma apbridge_deinit_inv: "fw_inv A s \<Longrightarrow> fw_inv A (apbridge_deinit s)"
  using apbridge_deinit_ok [of s] unfolding fw_inv_def
  by (auto simp: apbridge_deinit_def addrs_ok_def rx_ok_def intf_owned_def nodes_def heap_ok_def op_ids_ok_def intf_ids_ok_def
      elim: node_ok_cong)

lemma tcp_discovery_inv:
  "fw_inv A s \<Longrightarrow> fw_inv A (tcp_discovery_start z mdns s)" "fw_inv A s \<Longrightarrow> fw_inv A (tcp_discovery_stop z mdns s)"
  by (simp_all add: tcp_discovery_start_def tcp_discovery_stop_def Let_def split: prod.split)

lemma control_process_frame_inv:
  assumes inv: "fw_inv A s" shows "okr (inv_pair A) (control_process_frame z mdns b n s)"
proof -
  have i: "fw_inv A (svc_init s)" using inv by (simp add: svc_init_def)
  show ?thesis
    using inv
    by (auto simp: control_process_frame_def apbridge_init_def ap_init_def ap_deinit_def svc_deinit_def
        svc_send_version_def Let_def split_def
        intro!: okr_reads okr_bnd [OF connection_create_inv [OF i]] okr_bnd [OF control_send_request_inv]
          okr_bnd [OF node_destroy_all_inv] tcp_discovery_inv apbridge_deinit_inv)
qed

lemma main_process_complete_frame_inv: "fw_inv A s \<Longrightarrow> okr (inv_pair A) (main_process_complete_frame z mdns b n a s)"
  by (simp add: main_process_complete_frame_def hdlc_process_greybus_frame_inv control_process_frame_inv)

text \<open>
  The part of the invariant that is not the HDLC driver's own is what the frame callback of \<open>main\<close>
  keeps, so the driver's contract holds for it.
\<close>

definition fw_tables :: "byte list set \<Rightarrow> ('w, 'a) ns \<Rightarrow> bool" where
  "fw_tables A s \<longleftrightarrow> addrs_ok A s \<and> node_ok s \<and> intf_owned s \<and> ap_map_ok s \<and> heap_ok s \<and> op_ids_ok s \<and> intf_ids_ok s"

lemma fw_inv_split: "fw_inv A s \<longleftrightarrow> rx_ok s \<and> fw_tables A s"
  by (auto simp: fw_inv_def fw_tables_def)

interpretation host: frame_handler "main_process_complete_frame z mdns" "fw_tables A" for A z mdns
proof unfold_locales
  fix s s' :: "('a, 'b) fws" and buf len a r
  assume "rx_ok s" "fw_tables A s" "main_process_complete_frame z mdns buf len a s = Inr (r, s')"
  then show "rx_ok s' \<and> fw_tables A s'"
    using okrD [OF main_process_complete_frame_inv, of A s z mdns buf len a "(r, s')"] by (simp add: fw_inv_split)
qed (simp_all add: fw_tables_def addrs_ok_def node_ok_def intf_owned_def nodes_def ap_map_ok_def heap_ok_def op_ids_ok_def
    intf_ids_ok_def)

section \<open>The other threads\<close>

lemma node_rx_socket_inv: "fw_inv A s \<Longrightarrow> okr (fw_inv A) (node_rx_socket z fe s)"
  by (auto simp: node_rx_socket_def Let_def split: prod.split option.split
      intro!: module_removed_by_sock_inv okr_bnd [OF gb_message_receive_inv]
        okr_bnd [OF svc_send_module_removed_inv] okr_bnd [OF connection_send_inv])

lemma node_created_inv:
  assumes inv: "fw_inv A s" and fresh: "fst (new_interface_id s) \<notin> item_id ` set (nodes s)"
    and b: "b < length (gb_interface_slab s)" "gb_interface_slab s ! b = None"
    and c: "c < length (node_control_data_slab s)" "node_control_data_slab s ! c = None"
    and a: "a \<in> A" "a \<notin> item_addr ` set (nodes s)"
  shows "fw_inv A (node_created a b c w s)"
proof -
  let ?t = "node_created a b c w s"
  have n: "nodes ?t = nodes s @ [new_node (fst (new_interface_id s)) a b]"
    by (rule node_created_nodes [OF fw_invD(2) [OF inv]])
  have slab: "gb_interface_slab ?t = (gb_interface_slab s)[b := Some (new_node_intf (fst (new_interface_id s)) c)]"
    by (simp add: node_created_def new_interface_id_eq)
  have "Some (NodeIntf k) \<in> item_inf ` set (nodes ?t)"
    if "k < length (gb_interface_slab ?t)" "gb_interface_slab ?t ! k \<noteq> None" for k
  proof (cases "k = b")
    case True
    then show ?thesis by (simp add: n new_node_def)
  next
    case False
    then have "k < length (gb_interface_slab s)" "gb_interface_slab s ! k \<noteq> None" using that slab by simp_all
    then have "Some (NodeIntf k) \<in> item_inf ` set (nodes s)" using fw_invD(3) [OF inv] by (simp add: intf_owned_def)
    then show ?thesis by (auto simp: n)
  qed
  then have "intf_owned ?t" by (simp add: intf_owned_def)
  moreover have "addrs_ok A ?t" using fw_invD(8) [OF inv] a by (auto simp: addrs_ok_def n new_node_def)
  moreover have "intf_ids_ok ?t" using new_interface_id_ok [OF fw_invD(7) [OF inv]]
    by (simp add: node_created_def intf_ids_ok_def new_interface_id_eq)
  ultimately show ?thesis
    using node_created_ok [OF fw_invD(2) [OF inv] fresh b c] fw_invD [OF inv]
    unfolding fw_inv_def
    by (auto simp: node_created_def new_interface_id_eq rx_ok_def ap_map_ok_def heap_ok_def op_ids_ok_def)
qed

text \<open>
  The ids the counter will hand out: \<open>id_ahead j\<close> is the one after \<open>j\<close> others.  A discovery round
  creates at most one interface per address, so it stays clear of the ids in use if as many ids ahead
  are free.
\<close>

definition id_ahead :: "nat \<Rightarrow> ('w, 'a) ns \<Rightarrow> u8" where
  "id_ahead j s = word_of_int (3 + (interface_id_counter s - 3 + int j) mod 253)"

definition ids_free :: "nat \<Rightarrow> ('w, 'a) ns \<Rightarrow> bool" where
  "ids_free n s \<longleftrightarrow> (\<forall>j < n. id_ahead j s \<notin> item_id ` set (nodes s))"

lemma ids_free_cong:
  "nodes t = nodes s \<Longrightarrow> interface_id_counter t = interface_id_counter s \<Longrightarrow> ids_free n t = ids_free n s"
  by (simp add: ids_free_def id_ahead_def)

lemma ids_free_mono: "ids_free n s \<Longrightarrow> m \<le> n \<Longrightarrow> ids_free m s"
  by (simp add: ids_free_def)

lemma id_ahead_0: "intf_ids_ok s \<Longrightarrow> id_ahead 0 s = fst (new_interface_id s)"
  by (simp add: id_ahead_def new_interface_id_eq intf_ids_ok_def)

lemma id_ahead_Suc:
  assumes "intf_ids_ok s"
  shows "id_ahead j (node_created a b c w s) = id_ahead (Suc j) s"
proof -
  have k: "(if interface_id_counter s = 255 then 3 else interface_id_counter s + 1) - 3 = (interface_id_counter s - 3 + 1) mod 253"
    using assms by (auto simp: intf_ids_ok_def)
  have "interface_id_counter (node_created a b c w s) - 3 = (interface_id_counter s - 3 + 1) mod 253"
    using k by (simp add: node_created_def new_interface_id_eq)
  then have "3 + (interface_id_counter (node_created a b c w s) - 3 + int j) mod 253 =
      3 + (interface_id_counter s - 3 + 1 + int j) mod 253"
    by (simp only: mod_add_left_eq)
  then show ?thesis by (simp add: id_ahead_def algebra_simps)
qed

lemma id_ahead_distinct:
  assumes "0 < j" "j < 253"
  shows "id_ahead j s \<noteq> id_ahead 0 s"
proof
  let ?x = "interface_id_counter s - 3"
  have b: "0 \<le> y mod 253 \<and> y mod 253 < 253" for y :: int by simp
  have u: "uint (word_of_int (3 + y mod 253) :: u8) = 3 + y mod 253" for y
    using b [of y] by (simp add: uint_word_of_int del: of_int_add)
  assume "id_ahead j s = id_ahead 0 s"
  then have "uint (id_ahead j s) = uint (id_ahead 0 s)" by simp
  then have "(?x + int j) mod 253 = ?x mod 253" unfolding id_ahead_def u by simp
  then have "int j mod 253 = 0" by (metis add_cancel_right_right mod_add_cong mod_diff_left_eq add_diff_cancel_left' diff_self mod_0)
  with assms show False by simp
qed

text \<open>The counter has 253 values, so the id handed out after 253 others is the same one.\<close>

lemma id_ahead_period: "id_ahead (j + 253) s = id_ahead j s"
proof -
  have "interface_id_counter s - 3 + int (j + 253) = interface_id_counter s - 3 + int j + 253" by simp
  then show ?thesis unfolding id_ahead_def by (simp only: mod_add_self2)
qed

interpretation quiet: message_user z "\<lambda>_ _. True" "\<lambda>t. nodes t = N \<and> interface_id_counter t = k" for z and N :: "node_item list" and k :: int
  by unfold_locales (simp_all add: nodes_def new_operation_id_eq calls_keep_def)

lemma node_filter_step_inv:
  assumes inv: "fw_inv A s" and z: "slab_documented z" and a: "a \<in> A" and ids: "ids_free (Suc n) s" "n < 253"
  shows "okr (\<lambda>t. fw_inv A t \<and> ids_free n t) (node_filter_step z a s)"
proof (cases "node_cache_find_by_addr a s < 0")
  case False
  then show ?thesis using inv ids_free_mono [OF ids(1)] by (simp add: node_filter_step_def)
next
  case new: True
  then have fresh: "a \<notin> item_addr ` set (nodes s)"
    by (auto simp: node_cache_find_by_addr_def index_or_def first_index_None_iff split: option.splits)
  note ok = fw_invD(7) [OF inv]
  show ?thesis
  proof (cases rule: node_create_interface_cases [OF fw_invD(2) [OF inv] z, of a, case_names full created])
    case (full w)
    have "ids_free n (s\<lparr>world := w\<rparr>)" using ids_free_mono [OF ids(1), of n] by (simp add: ids_free_def id_ahead_def nodes_def)
    with full new inv show ?thesis by (simp add: node_filter_step_def)
  next
    case (created b c w)
    let ?t = "node_created a b c w s"
    have nodes: "nodes ?t = nodes s @ [new_node (fst (new_interface_id s)) a b]"
      by (rule node_created_nodes [OF fw_invD(2) [OF inv]])
    have t: "fw_inv A ?t"
      using ids(1) id_ahead_0 [OF ok] by (intro node_created_inv [OF inv _ created(1-4) a fresh]) (auto simp: ids_free_def)
    have "ids_free n ?t"
      unfolding ids_free_def
    proof (intro allI impI)
      fix j assume j: "j < n"
      then have "id_ahead (Suc j) s \<notin> item_id ` set (nodes s)" "id_ahead (Suc j) s \<noteq> id_ahead 0 s"
        using ids id_ahead_distinct [of "Suc j" s] by (auto simp: ids_free_def)
      then show "id_ahead j ?t \<notin> item_id ` set (nodes ?t)"
        by (simp add: id_ahead_Suc [OF ok] nodes new_node_def id_ahead_0 [OF ok])
    qed
    then have q: "ids_free n u" if "nodes u = nodes ?t" "interface_id_counter u = interface_id_counter ?t" for u :: "('a, 'b) ns"
      using ids_free_cong [OF that] by simp
    have "okr (\<lambda>rt. fw_inv A (snd rt) \<and> ids_free n (snd rt)) (svc_send_module_inserted z i ?t)" for i
      unfolding svc_send_module_inserted_def
      by (rule okr_mono [OF okr_conj [OF control_send_request_inv [OF t] quiet.control_send_request_keeps]])
        (use q in auto)
    then show ?thesis
      using new created(5)
      by (auto simp: node_filter_step_def split_def intro!: okr_reads
          okr_bnd [where P = "\<lambda>rt. fw_inv A (snd rt) \<and> ids_free n (snd rt)"])
  qed
qed

section \<open>Runs of the firmware\<close>

definition node_addrs :: "bool \<Rightarrow> byte list \<Rightarrow> byte list set" where
  "node_addrs mdns node1 = (if mdns then UNIV else {node1})"

lemma serial_callback_inv: "fw_inv A s \<Longrightarrow> fw_inv A (serial_callback z s)"
  by (simp add: serial_callback_def hdlc_rx_start_def hdlc_rx_finish_def Let_def split_def)

lemma node_rx_start_inv: "fw_inv A s \<Longrightarrow> node_rx_start z s = Some (r, t) \<Longrightarrow> fw_inv A t"
  by (auto simp: node_rx_start_def Let_def split: if_splits prod.splits)

lemma backend_api_inv: "fw_inv A s \<Longrightarrow> okr (fw_inv A) (hdlc_uart_backend_api z lg ev s)"
  using backend_api_other [of ev z lg s] by (cases "ev \<in> log_events") (auto simp: backend_api_eq)

text \<open>The state in which the C runtime hands over to \<open>main\<close>: static data as initialised in the sources.\<close>

definition boot :: "'w \<Rightarrow> 'w fw_state" where
  "boot w =
     \<lparr>world = w, uart_tx = [], crc = 0, next_escaped = False, rx_send_seq = 0, send_seq = 0,
      rx_buffer_len = 0, rx_buffer = replicate HDLC_MAX_BLOCK_SIZE 0, rx_work_pending = False,
      operation_id_counter = OPERATION_ID_START, msg_heap = Map.empty, msg_next = 0,
      interface_id_counter = INTERFACE_ID_START, gb_interface_slab = replicate MAX_GREYBUS_INTERFACES None,
      svc_is_read_flag = False, node_ap_map = replicate AP_MAX_NODES empty_item,
      node_cache = replicate MAX_GREYBUS_NODES \<lparr>item_sock = 0, item_id = 0, item_addr = replicate 16 0,
        item_inf = None, fail_count = 0\<rparr>,
      node_cache_pos = 0, node_control_data_slab = replicate MAX_GREYBUS_NODES None, local_pipe_writer = 0,
      rx_flag = False, rx_pipe = 0, discovery_running = True, discovery_sock = -1\<rparr>"

definition sample_boot :: "sample_world fw_state" where
  "sample_boot = boot ([], [])"

lemma boot_inv: "fw_inv A (boot w)"
  by (auto simp: fw_inv_def addrs_ok_def boot_def rx_ok_def node_ok_def nodes_def nodes_ok_def intf_owned_def ap_map_ok_def
      heap_ok_def op_ids_ok_def intf_ids_ok_def OPERATION_ID_START_def INTERFACE_ID_START_def)

lemma sample_boot_inv: "fw_inv A sample_boot"
  unfolding sample_boot_def by (rule boot_inv)

lemma main_inv: "fw_inv A s \<Longrightarrow> fw_inv A (snd (main z mdns s))"
proof -
  assume inv: "fw_inv A s"
  have "fw_inv A (snd (hdlc_init t))" if "fw_inv A t" for t :: "('a, 'b) fws"
    using that by (auto simp: hdlc_init_def fw_inv_def addrs_ok_def rx_ok_def node_ok_def intf_owned_def nodes_def ap_map_ok_def
        heap_ok_def op_ids_ok_def intf_ids_ok_def)
  then show ?thesis
    using tcp_discovery_inv(2) [OF inv, of z mdns] by (simp add: main_def Let_def split: prod.split)
qed

text \<open>What the invariant says of the tables, spelled out.\<close>

lemma fw_inv_consistent:
  assumes inv: "fw_inv (node_addrs mdns node1) s"
  shows "rx_ok s \<and> node_ok s \<and> intf_owned s \<and> distinct (map item_addr (nodes s)) \<and>
    node_cache_pos s \<le> (if mdns then 10 else 1) \<and> ap_map_ok s \<and> heap_ok s \<and> op_ids_ok s \<and> intf_ids_ok s"
proof -
  have d: "distinct (map item_addr (nodes s))" and a: "set (map item_addr (nodes s)) \<subseteq> node_addrs mdns node1"
    using fw_invD(8) [OF inv] by (simp_all add: addrs_ok_def)
  have "node_cache_pos s \<le> (if mdns then 10 else 1)"
  proof (cases mdns)
    case True
    then show ?thesis using nodes_bound [OF fw_invD(2) [OF inv]] by (simp add: MAX_GREYBUS_INTERFACES_def)
  next
    case False
    then have "set (map item_addr (nodes s)) \<subseteq> {node1}" using a by (simp add: node_addrs_def)
    then have "card (set (map item_addr (nodes s))) \<le> 1" using card_mono [of "{node1}"] by fastforce
    then show ?thesis using False distinct_card [OF d] length_nodes [OF fw_invD(2) [OF inv]] by simp
  qed
  then show ?thesis using d fw_invD [OF inv] by simp
qed

end
