(* ===== verification/Fault_Freedom.thy ===== *)
theory Fault_Freedom
  imports Firmware_Invariant
begin

text \<open>
  What the firmware guarantees to a well-behaved host: a consistent Greybus frame for a connected CPort
  is processed without a fault, from every consistent state, unless it makes the SVC send a request of its own.  \<open>fine P m\<close> is the total counterpart of
  \<open>okr P m\<close>: the call returns, and its result satisfies \<open>P\<close>.
\<close>

section \<open>Calls that return\<close>

definition fine :: "('a \<Rightarrow> bool) \<Rightarrow> 'a res \<Rightarrow> bool" where
  "fine P m = (case m of Inl e \<Rightarrow> False | Inr x \<Rightarrow> P x)"

lemma fine_simps [simp]: "fine P (Inl e) = False" "fine P (Inr x) = P x"
  by (simp_all add: fine_def)

lemma fine_bnd: "fine P m \<Longrightarrow> (\<And>x. P x \<Longrightarrow> fine Q (f x)) \<Longrightarrow> fine Q (bnd m f)"
  by (cases m) simp_all

lemma fine_mono: "fine P m \<Longrightarrow> (\<And>x. P x \<Longrightarrow> Q x) \<Longrightarrow> fine Q m"
  by (cases m) simp_all

lemma fineE: assumes "fine P m" obtains x where "m = Inr x" "P x"
  using assms by (cases m) simp_all

section \<open>Building and sending messages\<close>

text \<open>Memory for every message that fits an HDLC block.\<close>

definition roomy :: "'w zephyr \<Rightarrow> bool" where
  "roomy z \<longleftrightarrow> heap_documented z \<and> (\<forall>n \<le> HDLC_MAX_BLOCK_SIZE. heap_room z n)"

text \<open>The state is consistent and the message being handled is still there.\<close>

definition handling :: "byte list set \<Rightarrow> nat \<Rightarrow> gb_message \<Rightarrow> ('w, 'a) ns \<Rightarrow> bool" where
  "handling A p m s \<longleftrightarrow> fw_inv A s \<and> msg_heap s p = Some m"

lemma handlingD: "handling A p m s \<Longrightarrow> fw_inv A s" "handling A p m s \<Longrightarrow> msg_heap s p = Some m"
  by (simp_all add: handling_def)

lemma handling_other: "handling A p m s \<Longrightarrow> p \<noteq> msg_next s"
  using fw_invD(5) by (fastforce simp: handling_def heap_ok_def)

lemma handling_with_msg: "handling A p m s \<Longrightarrow> handling A p m (with_msg x w s)"
  using handling_other [of A p m s] fw_inv_alloc [of A "s\<lparr>world := w\<rparr>" x]
  by (simp add: handling_def with_msg_def)

lemma handling_uplinked: "handling A p m s \<Longrightarrow> handling A p m (uplinked z c x w s)"
proof -
  assume h: "handling A p m s"
  have "fw_inv A (uplinked z c x w s)"
    by (rule fw_inv_cong [OF handlingD(1) [OF h]])
      (use fw_invD [OF handlingD(1) [OF h]] in \<open>simp_all add: uplinked_def heap_ok_def op_ids_ok_def\<close>)
  with h show ?thesis by (simp add: handling_def)
qed

lemma send_fresh_fine:
  assumes "handling A p m s" "length bs \<le> 246"
  shows "fine (\<lambda>rt. handling A p m (snd rt))
    (connection_send_to_ap z n c (msg_next s) (with_msg (sent_msg ty op st pad bs) w s))"
proof -
  let ?x = "sent_msg ty op st pad bs"
  have wf: "wf_msg ?x" "fits_block ?x"
    using assms(2) by (simp_all add: wf_sent_msg fits_sent_msg hdr_len_def)
  have cp: "node_to_ap_cport n c (with_msg ?x w s) = node_to_ap_cport n c s"
    by (rule node_to_ap_cport_cong) (simp add: with_msg_def)
  note inv = handlingD(1) [OF assms(1)]
  show ?thesis
  proof (cases "node_to_ap_cport n c s < 0")
    case True
    then show ?thesis using handling_with_msg [OF assms(1)] by (simp add: connection_send_to_ap_def cp)
  next
    case False
    then have "node_to_ap_cport n c s = int (nat (node_to_ap_cport n c s))" by simp
    from connection_send_to_ap_fresh [OF fw_invD(5) [OF inv] wf this] show ?thesis
      using handling_uplinked [OF assms(1)] by simp
  qed
qed

lemma roomyE:
  assumes "roomy z" "length bs \<le> 246"
  obtains blk w where "heap_documented z" "hdr_len + length bs < 65536" "k_heap_alloc z (hdr_len + length bs) w0 = (Some blk, w)"
proof -
  have "heap_room z (hdr_len + length bs)"
    using assms by (simp add: roomy_def hdr_len_def HDLC_MAX_BLOCK_SIZE_def)
  then obtain blk w where "k_heap_alloc z (hdr_len + length bs) w0 = (Some blk, w)" by (rule heap_roomE)
  with that assms show ?thesis by (simp add: roomy_def hdr_len_def)
qed

lemma helpers_fine:
  assumes "roomy z" "handling A p m s" "length bs \<le> 246"
  shows "fine (handling A p m) (svc_response_helper z p bs st s)"
    and "fine (handling A p m) (response_helper z p bs st c s)"
proof -
  obtain blk w where a: "heap_documented z" "hdr_len + length bs < 65536"
    "k_heap_alloc z (hdr_len + length bs) (world s) = (Some blk, w)" by (rule roomyE [OF assms(1,3)])
  note f = send_fresh_fine [OF assms(2,3)]
  show "fine (handling A p m) (svc_response_helper z p bs st s)"
    using handlingD(2) [OF assms(2)]
    by (auto simp: svc_response_helper_def msg_get_def gb_message_response_alloc_eq [OF a(1,2)] a(3) split_def
        intro!: fine_bnd [OF f])
  show "fine (handling A p m) (response_helper z p bs st c s)"
    using handlingD(2) [OF assms(2)]
    by (auto simp: response_helper_def msg_get_def gb_message_response_alloc_eq [OF a(1,2)] a(3) split_def
        intro!: fine_bnd [OF f])
qed

section \<open>The SVC and the local node\<close>

text \<open>How much payload a handler reads before it looks at the length.\<close>

definition svc_min_len :: "u8 \<Rightarrow> nat" where
  "svc_min_len ty =
     (if ty = GB_SVC_TYPE_CONN_CREATE \<or> ty = GB_SVC_TYPE_CONN_DESTROY then 6
      else if ty = GB_SVC_TYPE_INTF_SET_PWRM then 8 else 0)"

lemma connections_fine:
  assumes "handling A p m s"
  shows "fine (\<lambda>rt. handling A p m (snd rt)) (connection_create z i1 c1 i2 c2 s)"
    and "fine (\<lambda>rt. handling A p m (snd rt)) (connection_destroy i1 c1 i2 c2 s)"
proof -
  note inv = handlingD(1) [OF assms]
  obtain r t where c: "connection_create z i1 c1 i2 c2 s = Inr (r, t)" "msg_heap t = msg_heap s"
    using connection_create_spec [OF fw_invD(2) [OF inv] fw_invD(4) [OF inv]] by blast
  then show "fine (\<lambda>rt. handling A p m (snd rt)) (connection_create z i1 c1 i2 c2 s)"
    using assms okrD [OF connection_create_inv [OF inv] c(1)] by (simp add: handling_def)
  show "fine (\<lambda>rt. handling A p m (snd rt)) (connection_destroy i1 c1 i2 c2 s)"
  proof (cases "ap_end i1 c1 i2 c2")
    case None
    then show ?thesis using assms by (simp add: connection_destroy_def)
  next
    case (Some e)
    then obtain t where d: "connection_destroy i1 c1 i2 c2 s = Inr (0, t)" "msg_heap t = msg_heap s"
      using connection_destroy_spec [OF fw_invD(2) [OF inv] fw_invD(4) [OF inv]] by (cases e) blast
    then show ?thesis using assms okrD [OF connection_destroy_inv [OF inv] d(1)] by (simp add: handling_def)
  qed
qed

lemma svc_connection_handlers_fine:
  assumes "roomy z" "handling A p m s" "6 \<le> length (payload m)"
  shows "fine (handling A p m) (svc_connection_create_handler z p s)"
    and "fine (handling A p m) (svc_connection_destroy_handler z p s)"
proof -
  have get: "msg_get p s = Inr m" using handlingD(2) [OF assms(2)] by (simp add: msg_get_def)
  obtain req where req: "gb_svc_conn_request_read (payload m) = Inr req"
    using assms(3) by (simp add: gb_svc_conn_request_read_def buf_read_def)
  have h: "fine (handling A p m) (svc_response_helper z p [] st t)" if "handling A p m t" for st t
    by (rule helpers_fine(1) [OF assms(1) that]) simp
  show "fine (handling A p m) (svc_connection_create_handler z p s)"
    using h assms(2)
    by (auto simp: svc_connection_create_handler_def get req split_def intro!: fine_bnd [OF connections_fine(1)])
  show "fine (handling A p m) (svc_connection_destroy_handler z p s)"
    using h assms(2)
    by (auto simp: svc_connection_destroy_handler_def get req split_def intro!: fine_bnd [OF connections_fine(2)])
qed

lemma gb_handle_msg_fine:
  assumes "roomy z" "handling A p m s" "svc_min_len (hdr_type (header m)) \<le> length (payload m)"
    and "hdr_type (header m) \<noteq> GB_RESPONSE GB_SVC_TYPE_PROTOCOL_VERSION"
  shows "fine (handling A p m) (gb_handle_msg z p s)"
proof -
  have get: "msg_get p s = Inr m" using handlingD(2) [OF assms(2)] by (simp add: msg_get_def)
  note h = helpers_fine(1) [OF assms(1,2)]
  have pwrm: "fine (handling A p m) (svc_intf_set_pwrm_handler z p s)" if "hdr_type (header m) = GB_SVC_TYPE_INTF_SET_PWRM"
    using that assms(3) h by (simp add: svc_min_len_def gb_consts svc_intf_set_pwrm_handler_def get gb_svc_intf_set_pwrm_modes_def buf_get_def gb_payload_defs)
  have conn: "fine (handling A p m) (svc_connection_create_handler z p s)"
    "fine (handling A p m) (svc_connection_destroy_handler z p s)" if "hdr_type (header m) = GB_SVC_TYPE_CONN_CREATE \<or> hdr_type (header m) = GB_SVC_TYPE_CONN_DESTROY"
    using svc_connection_handlers_fine [OF assms(1,2)] assms(3) that by (auto simp: svc_min_len_def)
  show ?thesis
    unfolding gb_handle_msg_def get bnd_Inr Let_def gb_message_type_def svc_fixed_handlers
    using assms(2,4) pwrm conn
    by (simp add: h gb_payload_defs gb_consts get svc_hello_response_handler_def
        svc_module_inserted_response_handler_def svc_module_removed_response_handler_def)
qed

lemma control_protocol_handle_fine:
  assumes "roomy z" "handling A p m s"
  shows "fine (handling A p m) (control_protocol_handle z p s)"
proof (cases "control_reply (hdr_type (header m))")
  case None
  then have "control_protocol_handle z p s = Inr s"
    using handlingD(2) [OF assms(2)]
    by (auto simp: control_protocol_handle_def msg_get_def gb_message_type_def control_reply_def gb_consts Let_def
        split: if_splits)
  with assms(2) show ?thesis by simp
next
  case (Some pl)
  have "length pl \<le> 246" using control_reply_length [OF Some] by simp
  from helpers_fine(2) [OF assms this, of 0 0] show ?thesis
    by (simp add: control_reply_handled [OF handlingD(2) [OF assms(2)] Some])
qed

lemma dealloc_fine: "handling A p m s \<Longrightarrow> fine (fw_inv A) (gb_message_dealloc z p s)"
  using fw.dealloc_keeps [of A s z p]
  by (cases "gb_message_dealloc z p s") (auto simp: handling_def gb_message_dealloc_def)

lemma static_interfaces_fine:
  assumes "roomy z" "handling A p m s"
  shows "c = 0 \<longrightarrow> svc_min_len (hdr_type (header m)) \<le> length (payload m) \<and>
        hdr_type (header m) \<noteq> GB_RESPONSE GB_SVC_TYPE_PROTOCOL_VERSION \<Longrightarrow>
      fine (\<lambda>rt. fw_inv A (snd rt)) (svc_inf_write z p c s)"
    and "fine (\<lambda>rt. fw_inv A (snd rt)) (local_intf_write z p c s)"
proof -
  have free: "fine (\<lambda>rt. fw_inv A (snd rt)) (bnd (gb_message_dealloc z p t) (\<lambda>s. Inr (r, s)))"
    if "handling A p m t" for t and r :: int
    by (rule fine_bnd [OF dealloc_fine [OF that]]) simp
  show "fine (\<lambda>rt. fw_inv A (snd rt)) (svc_inf_write z p c s)"
    if "c = 0 \<longrightarrow> svc_min_len (hdr_type (header m)) \<le> length (payload m) \<and>
      hdr_type (header m) \<noteq> GB_RESPONSE GB_SVC_TYPE_PROTOCOL_VERSION"
    using that free handlingD(1) [OF assms(2)]
    by (auto simp: svc_inf_write_def intro!: fine_bnd [OF gb_handle_msg_fine [OF assms]])
  show "fine (\<lambda>rt. fw_inv A (snd rt)) (local_intf_write z p c s)"
    unfolding local_intf_write_def
    by (rule fine_bnd [of "handling A p m"]) (use control_protocol_handle_fine [OF assms] assms(2) free in simp_all)
qed

section \<open>Nodes\<close>

lemma node_inf_write_fine:
  assumes "handling A p m s" "wf_msg m" "i < node_cache_pos s" "item_inf (node_cache s ! i) = Some q"
    and "send_stream z (item_sock (node_cache s ! i)) sent"
  shows "fine (\<lambda>rt. fw_inv A (snd rt)) (intf_write_call z q p c s)"
proof -
  note inv = handlingD(1) [OF assms(1)]
  from entry_okE [OF fw_invD(2) [OF inv] assms(3)] obtain b intf k where e: "item_inf (node_cache s ! i) = Some (NodeIntf b)"
    "b < length (gb_interface_slab s)" "gb_interface_slab s ! b = Some intf" "intf_write intf = Node_inf_write"
    "ctrl_data intf = Some k" "k < length (node_control_data_slab s)"
    "node_control_data_slab s ! k = Some (item_sock (node_cache s ! i))" by metis
  obtain w where w: "gb_message_send z (item_sock (node_cache s ! i)) p c s = Inr (0, s\<lparr>world := w\<rparr>)"
    using node_send_stream [OF assms(5) handlingD(2) [OF assms(1)] assms(2)] by blast
  have "handling A p m (s\<lparr>world := w\<rparr>)" using assms(1) by (simp add: handling_def)
  from dealloc_fine [OF this, of z] have "fine (\<lambda>rt. fw_inv A (snd rt)) (bnd (gb_message_dealloc z p (s\<lparr>world := w\<rparr>)) (\<lambda>s. Inr (0 :: int, s)))"
    by (rule fine_bnd) simp
  moreover have "intf_deref q s = Inr intf" using e assms(4) by (simp add: intf_deref_node)
  ultimately show ?thesis using w e by (simp add: intf_write_call_def node_inf_write_def ctrl_get_def)
qed

section \<open>Frames from the host\<close>

text \<open>
  C5. A well-behaved host cannot bring the firmware down: from every consistent state, with memory
  available, a frame that holds a consistent message for a connected AP CPort is processed without any
  fault and leaves a consistent state.  For the SVC the request must be as long as its type demands and must not be
  the answer to the SVC's version request (type 0x81), to which the SVC sends its hello request with a
  read from freed memory; for a node the interface must belong to a cached node and its socket must take
  bytes; the local node takes anything.
\<close>

theorem good_frame_never_faults:
  assumes "fw_inv A s" and "roomy z" and "wf_msg m" and "length (payload m) \<le> 242"
    and "ap_route s cport = Some (q, c, n)"
    and "q = SvcIntf \<longrightarrow> c = 0 \<longrightarrow> svc_min_len (hdr_type (header m)) \<le> length (payload m) \<and>
           hdr_type (header m) \<noteq> GB_RESPONSE GB_SVC_TYPE_PROTOCOL_VERSION"
    and "\<forall>b. q = NodeIntf b \<longrightarrow> (\<exists>i < node_cache_pos s. item_inf (node_cache s ! i) = Some q \<and>
           send_stream z (item_sock (node_cache s ! i)) sent)"
  shows "\<exists>r s'. main_process_complete_frame z mdns (le16 cport @ msg_bytes m @ rest) (length (payload m) + 10)
      ADDRESS_GREYBUS s = Inr (r, s') \<and> fw_inv A s'"
proof -
  have len: "length (payload m) \<le> 246" using assms(4) by simp
  obtain blk w where a: "heap_documented z" "k_heap_alloc z (hdr_len + length (payload m)) (world s) = (Some blk, w)"
    by (rule roomyE [OF assms(2) len])
  let ?x = "repadded blk m" and ?t = "with_msg (repadded blk m) w s"
  have h: "handling A (msg_next s) ?x ?t"
    using fw_inv_alloc [of A "s\<lparr>world := w\<rparr>" ?x] assms(1) by (simp add: handling_def with_msg_def)
  have t: "ap_route ?t cport = Some (q, c, n)" "node_cache_pos ?t = node_cache_pos s" "node_cache ?t = node_cache s"
    using assms(5) by (auto simp: ap_route_def with_msg_def Let_def split: if_splits)
  have "fine (\<lambda>rt. fw_inv A (snd rt)) (intf_write_call z q (msg_next s) c ?t)"
  proof (cases q)
    case (NodeIntf b)
    with assms(7) t obtain i where "i < node_cache_pos ?t" "item_inf (node_cache ?t ! i) = Some q"
      "send_stream z (item_sock (node_cache ?t ! i)) sent" by auto
    with assms(3) show ?thesis by (intro node_inf_write_fine [OF h]) simp_all
  qed (use static_interfaces_fine [OF assms(2) h] assms(6) in \<open>simp_all add: intf_write_call_def svc_intf_def local_intf_def\<close>)
  then have "fine (\<lambda>rt. fw_inv A (snd rt)) (hdlc_process_greybus_frame z (le16 cport @ msg_bytes m @ rest) (length (payload m) + 10) s)"
    unfolding greybus_frame_eq [OF a(1) assms(3) a(2)] ap_rx_submit_def connection_send_ap [OF t(1)]
    by (rule fine_bnd) (auto split: prod.split)
  then show ?thesis by (auto simp: main_process_complete_frame_def elim!: fineE)
qed

theorem good_frame_never_faults_witness:
  "\<exists>r s'. main_process_complete_frame sample_zephyr False (le16 0 @ msg_bytes (sent_msg GB_SVC_TYPE_PING 5 0 (0, 0) []) @ [])
      (length (payload (sent_msg GB_SVC_TYPE_PING 5 0 (0, 0) [])) + 10) ADDRESS_GREYBUS
      (sample_boot\<lparr>node_ap_map := (node_ap_map sample_boot)[0 := \<lparr>node_intf = Some SvcIntf, node_cport = 0, node_id = 0\<rparr>]\<rparr>) = Inr (r, s') \<and>
    fw_inv UNIV s'"
proof (rule good_frame_never_faults [where q = SvcIntf and c = 0 and n = 0])
  let ?s = "sample_boot\<lparr>node_ap_map := (node_ap_map sample_boot)[0 := \<lparr>node_intf = Some SvcIntf, node_cport = 0, node_id = 0\<rparr>]\<rparr>"
  show "fw_inv UNIV ?s"
    using okrD [OF node_ap_add_inv [OF sample_boot_inv, of UNIV 0 0 SvcIntf]]
    by (simp add: node_ap_add_def sample_boot_def boot_def AP_MAX_NODES_def empty_item_def svc_intf_def SVC_INF_ID_def)
  show "ap_route ?s 0 = Some (SvcIntf, 0, 0)" by (simp add: ap_route_def sample_boot_def boot_def AP_MAX_NODES_def Let_def)
  show "roomy sample_zephyr" by (simp add: roomy_def sample_documented sample_room)
qed (simp_all add: wf_msg_def hdr_len_def sent_msg_def svc_min_len_def gb_consts)

end
