(* ===== verification/Schedule.thy ===== *)
theory Schedule
  imports Firmware_Invariant
begin

text \<open>
  The firmware as it is scheduled.  The receive thread, the discovery thread and the work item each have a
  position in their code; between two positions any other thread and the interrupt may run.  The positions
  are those where a thread waits or has just called into the platform: after polling, between the sockets,
  after a message has been received and before it is forwarded, between the bytes the work item processes,
  between the addresses a discovery round has found.  What every atomic piece keeps, every schedule keeps.
\<close>

section \<open>The pieces\<close>

text \<open>The receive thread: waiting for its sockets, receiving a message, and what it does with the result.\<close>

definition node_rx_poll :: "'w zephyr \<Rightarrow> ('w, 'a) fws \<Rightarrow> (int \<times> revents) list \<times> ('w, 'a) fws" where
  "node_rx_poll z s =
     (let fds = rx_pipe s # map item_sock (nodes s);
          (ret, evs, w) = zsock_poll z fds (-1) (world s);
          s = s\<lparr>world := w\<rparr>
      in if ret < 0 then ([], s)
         else (zip (tl fds) (tl evs),
               if evs \<noteq> [] \<and> pollin (hd evs)
               then s\<lparr>world := snd (snd (zsock_recv z (rx_pipe s) 1 (world s)))\<rparr> else s))"

definition rx_receives :: "int \<times> revents \<Rightarrow> ('w, 'a) ns \<Rightarrow> bool" where
  "rx_receives fe s = (case fe of (fd, ev) \<Rightarrow>
     \<not> pollnval ev \<and> \<not> pollhup ev \<and> \<not> pollerr ev \<and> pollin ev \<and> 0 \<le> node_cache_find_by_sock fd s)"

definition node_rx_receive :: "'w zephyr \<Rightarrow> int \<Rightarrow> ('w, 'a) fws \<Rightarrow> ((u16 \<times> nat option) \<times> ('w, 'a) fws) res" where
  "node_rx_receive z fd s =
     bnd (gb_message_receive z fd (rx_flag s) s) (\<lambda>(r, flag, s). Inr (r, s\<lparr>rx_flag := flag\<rparr>))"

definition node_rx_forward ::
  "'w zephyr \<Rightarrow> nat \<Rightarrow> u16 \<times> nat option \<Rightarrow> ('w, 'a) fws \<Rightarrow> ('w, 'a) fws res" where
  "node_rx_forward z ret r s = (case r of (cport, msg) \<Rightarrow>
     if rx_flag s then bnd (svc_send_module_removed z (item_inf (node_cache s ! ret)) s) (\<lambda>(r, s). Inr s)
     else case msg of
            None \<Rightarrow> bnd (svc_send_module_removed z (item_inf (node_cache s ! ret)) s) (\<lambda>(r, s). Inr s)
          | Some p \<Rightarrow> bnd (connection_send z (item_id (node_cache s ! ret)) cport p s) (\<lambda>(r, s). Inr s))"

text \<open>The discovery thread, up to the list of the nodes that answered.\<close>

definition handler_mdns_query :: "'w zephyr \<Rightarrow> ('w, 'a) fws \<Rightarrow> (byte list list \<times> ('w, 'a) fws) res" where
  "handler_mdns_query z s =
     (if discovery_sock s < 0 then Inr ([], s)
      else
        let query = join_dots greybus_labels in
        bnd (mdns_query_send z (discovery_sock s) query (length query) (world s)) (\<lambda>(ret, w).
        let s = s\<lparr>world := w\<rparr> in
        if ret < 0 then Inr ([], s)
        else bnd (mdns_query_recv z (discovery_sock s) MAX_GREYBUS_NODES query (length query) 2000 (world s))
          (\<lambda>(addrs, w). Inr (addrs, s\<lparr>world := w\<rparr>))))"

text \<open>Run one after the other, the pieces are the handlers.\<close>

lemma node_rx_socket_split:
  "rx_receives (fd, ev) s \<Longrightarrow> node_rx_socket z (fd, ev) s =
     bnd (node_rx_receive z fd s) (\<lambda>(r, t). node_rx_forward z (nat (node_cache_find_by_sock fd s)) r t)"
  by (cases "gb_message_receive z fd (rx_flag s) s")
    (auto simp: rx_receives_def node_rx_socket_def node_rx_receive_def node_rx_forward_def Let_def split: option.split)

lemma node_rx_iteration_split:
  "node_rx_iteration z s = (case node_rx_poll z s of (fes, t) \<Rightarrow> foldres (node_rx_socket z) fes t)"
  by (simp add: node_rx_iteration_def node_rx_poll_def Let_def split_def)

lemma handler_mdns_split: "handler_mdns z s = bnd (handler_mdns_query z s) (\<lambda>(as, t). node_filter z as t)"
  by (auto simp: handler_mdns_def handler_mdns_query_def node_filter_def Let_def split_def bnd_assoc intro!: bnd_cong)

section \<open>Positions and schedules\<close>

datatype rx_pc =
    RxStart
  | RxStopped
  | RxPoll
  | RxSockets "(int \<times> revents) list"
  | RxGot nat "u16 \<times> nat option" "(int \<times> revents) list"

datatype work_pc = WorkIdle | WorkBytes "byte list" nat

datatype discovery_pc = DiscoverySleep | DiscoveryFilter "byte list list"

record positions =
  rx_pc :: rx_pc
  work_pc :: work_pc
  discovery_pc :: discovery_pc

lemma same_position [simp]:
  "rx_pc p = r \<Longrightarrow> p\<lparr>rx_pc := r\<rparr> = p" "work_pc p = k \<Longrightarrow> p\<lparr>work_pc := k\<rparr> = p"
  "discovery_pc p = d \<Longrightarrow> p\<lparr>discovery_pc := d\<rparr> = p" for p :: positions
  by (cases p; simp)+

type_synonym ('w, 'a) conf = "positions \<times> ('w, 'a) fws"

text \<open>
  One step of a thread, in either configuration (\<open>mdns\<close> tells whether nodes are found by mDNS or are the one
  address of the configuration), or a call of the log backend; and one step of the firmware, which is that or the
  UART interrupt.  A piece that faults is not a step.  The discovery thread is suspended while
  \<open>discovery_running\<close> is false; a node is added only while the id it will get is not that of a live node, that is,
  before the 8-bit counter has wrapped onto one.
\<close>

inductive thread_step ::
  "'w zephyr \<Rightarrow> ('w, 'm) log_lib \<Rightarrow> bool \<Rightarrow> byte list \<Rightarrow> ('w, 'a) conf \<Rightarrow> ('w, 'a) conf \<Rightarrow> bool"
  for z :: "'w zephyr" and lg :: "('w, 'm) log_lib" and mdns :: bool and node1 :: "byte list" where
  log: "hdlc_uart_backend_api z lg ev s = Inr t \<Longrightarrow> thread_step z lg mdns node1 (p, s) (p, t)"
| rx_start: "rx_pc p = RxStart \<Longrightarrow> node_rx_start z s = Some (r, t) \<Longrightarrow>
    thread_step z lg mdns node1 (p, s) (p\<lparr>rx_pc := if r < 0 then RxStopped else RxPoll\<rparr>, t)"
| rx_poll: "rx_pc p = RxPoll \<Longrightarrow> node_rx_poll z s = (fes, t) \<Longrightarrow>
    thread_step z lg mdns node1 (p, s) (p\<lparr>rx_pc := RxSockets fes\<rparr>, t)"
| rx_next: "rx_pc p = RxSockets (fe # fes) \<Longrightarrow> \<not> rx_receives fe s \<Longrightarrow> node_rx_socket z fe s = Inr t \<Longrightarrow>
    thread_step z lg mdns node1 (p, s) (p\<lparr>rx_pc := RxSockets fes\<rparr>, t)"
| rx_receive: "rx_pc p = RxSockets ((fd, ev) # fes) \<Longrightarrow> rx_receives (fd, ev) s \<Longrightarrow> node_rx_receive z fd s = Inr (r, t) \<Longrightarrow>
    thread_step z lg mdns node1 (p, s) (p\<lparr>rx_pc := RxGot (nat (node_cache_find_by_sock fd s)) r fes\<rparr>, t)"
| rx_forward: "rx_pc p = RxGot i r fes \<Longrightarrow> node_rx_forward z i r s = Inr t \<Longrightarrow>
    thread_step z lg mdns node1 (p, s) (p\<lparr>rx_pc := RxSockets fes\<rparr>, t)"
| rx_again: "rx_pc p = RxSockets [] \<Longrightarrow> thread_step z lg mdns node1 (p, s) (p\<lparr>rx_pc := RxPoll\<rparr>, s)"
| work_claim: "work_pc p = WorkIdle \<Longrightarrow> rx_work_pending s \<Longrightarrow>
    ring_buf_get_claim z HDLC_RX_BUF_SIZE (world s) = (d, w) \<Longrightarrow>
    thread_step z lg mdns node1 (p, s) (p\<lparr>work_pc := WorkBytes d (length d)\<rparr>, s\<lparr>rx_work_pending := False, world := w\<rparr>)"
| work_byte: "work_pc p = WorkBytes (b # bs) n \<Longrightarrow>
    hdlc_rx_input_byte (main_process_complete_frame z mdns) z b s = Inr t \<Longrightarrow>
    thread_step z lg mdns node1 (p, s) (p\<lparr>work_pc := WorkBytes bs n\<rparr>, t)"
| work_finish: "work_pc p = WorkBytes [] n \<Longrightarrow> ring_buf_get_finish z n (world s) = (r, w) \<Longrightarrow>
    thread_step z lg mdns node1 (p, s) (p\<lparr>work_pc := WorkIdle\<rparr>, s\<lparr>world := w\<rparr>)"
| discovery_fixed: "discovery_pc p = DiscoverySleep \<Longrightarrow> discovery_running s \<Longrightarrow> \<not> mdns \<Longrightarrow>
    thread_step z lg mdns node1 (p, s) (p\<lparr>discovery_pc := DiscoveryFilter [node1]\<rparr>, s)"
| discovery_query: "discovery_pc p = DiscoverySleep \<Longrightarrow> discovery_running s \<Longrightarrow> mdns \<Longrightarrow>
    handler_mdns_query z s = Inr (as, t) \<Longrightarrow>
    thread_step z lg mdns node1 (p, s) (p\<lparr>discovery_pc := DiscoveryFilter as\<rparr>, t)"
| discovery_node: "discovery_pc p = DiscoveryFilter (a # as) \<Longrightarrow> discovery_running s \<Longrightarrow> ids_free 1 s \<Longrightarrow>
    node_filter_step z a s = Inr t \<Longrightarrow>
    thread_step z lg mdns node1 (p, s) (p\<lparr>discovery_pc := DiscoveryFilter as\<rparr>, t)"
| discovery_again: "discovery_pc p = DiscoveryFilter [] \<Longrightarrow> discovery_running s \<Longrightarrow>
    thread_step z lg mdns node1 (p, s) (p\<lparr>discovery_pc := DiscoverySleep\<rparr>, s)"

inductive fw_step ::
  "'w zephyr \<Rightarrow> ('w, 'm) log_lib \<Rightarrow> bool \<Rightarrow> byte list \<Rightarrow> ('w, 'a) conf \<Rightarrow> ('w, 'a) conf \<Rightarrow> bool"
  for z :: "'w zephyr" and lg :: "('w, 'm) log_lib" and mdns :: bool and node1 :: "byte list" where
  uart_irq: "fw_step z lg mdns node1 (p, s) (p, serial_callback z s)"
| thread: "thread_step z lg mdns node1 c d \<Longrightarrow> fw_step z lg mdns node1 c d"

inductive_cases fw_stepE: "fw_step z lg mdns node1 c d"

definition idle :: positions where
  "idle = \<lparr>rx_pc = RxStart, work_pc = WorkIdle, discovery_pc = DiscoverySleep\<rparr>"

text \<open>A handler that is not preempted is one of the schedules.\<close>

lemma rx_sockets_schedule:
  "foldres (node_rx_socket z) fes s = Inr t \<Longrightarrow> rx_pc p = RxSockets fes \<Longrightarrow>
   (thread_step z lg mdns node1)\<^sup>*\<^sup>* (p, s) (p\<lparr>rx_pc := RxSockets []\<rparr>, t)"
proof (induction fes arbitrary: p s)
  case Nil
  then show ?case by simp
next
  case (Cons fe fes)
  obtain fd ev where fe: "fe = (fd, ev)" by (cases fe)
  let ?p = "p\<lparr>rx_pc := RxSockets fes\<rparr>"
  from Cons.prems obtain u where u: "node_rx_socket z fe s = Inr u" "foldres (node_rx_socket z) fes u = Inr t" by auto
  have "(thread_step z lg mdns node1)\<^sup>*\<^sup>* (p, s) (?p, u)"
  proof (cases "rx_receives fe s")
    case False
    then show ?thesis by (intro r_into_rtranclp rx_next [OF Cons.prems(2) _ u(1)])
  next
    case True
    then obtain r v where r: "node_rx_receive z fd s = Inr (r, v)"
      "node_rx_forward z (nat (node_cache_find_by_sock fd s)) r v = Inr u"
      using u(1) node_rx_socket_split [of fd ev s z] by (auto simp: fe)
    let ?q = "p\<lparr>rx_pc := RxGot (nat (node_cache_find_by_sock fd s)) r fes\<rparr>"
    have "thread_step z lg mdns node1 (p, s) (?q, v)" using rx_receive [OF _ _ r(1)] Cons.prems(2) True by (simp add: fe)
    moreover have "thread_step z lg mdns node1 (?q, v) (?q\<lparr>rx_pc := RxSockets fes\<rparr>, u)"
      by (rule rx_forward [OF _ r(2)]) simp
    ultimately show ?thesis by (simp add: rtranclp.rtrancl_into_rtrancl r_into_rtranclp)
  qed
  also have "(thread_step z lg mdns node1)\<^sup>*\<^sup>* (?p, u) (?p\<lparr>rx_pc := RxSockets []\<rparr>, t)"
    by (rule Cons.IH [OF u(2)]) simp
  finally show ?case by simp
qed

lemma rx_iteration_schedule:
  assumes "node_rx_iteration z s = Inr t" "rx_pc p = RxPoll"
  shows "(thread_step z lg mdns node1)\<^sup>*\<^sup>* (p, s) (p, t)"
proof -
  obtain fes u where u: "node_rx_poll z s = (fes, u)" "foldres (node_rx_socket z) fes u = Inr t"
    using assms(1) by (auto simp: node_rx_iteration_split split: prod.splits)
  let ?p = "p\<lparr>rx_pc := RxSockets fes\<rparr>"
  have "thread_step z lg mdns node1 (p, s) (?p, u)" by (rule rx_poll [OF assms(2) u(1)])
  also have "(thread_step z lg mdns node1)\<^sup>*\<^sup>* (?p, u) (?p\<lparr>rx_pc := RxSockets []\<rparr>, t)"
    by (rule rx_sockets_schedule [OF u(2)]) simp
  also have "thread_step z lg mdns node1 (?p\<lparr>rx_pc := RxSockets []\<rparr>, t) (?p\<lparr>rx_pc := RxSockets [], rx_pc := RxPoll\<rparr>, t)"
    by (rule rx_again) simp
  finally show ?thesis using assms(2) by simp
qed

lemma work_bytes_schedule:
  "foldres (hdlc_rx_input_byte (main_process_complete_frame z mdns) z) bs s = Inr t \<Longrightarrow> work_pc p = WorkBytes bs n \<Longrightarrow>
   (thread_step z lg mdns node1)\<^sup>*\<^sup>* (p, s) (p\<lparr>work_pc := WorkBytes [] n\<rparr>, t)"
proof (induction bs arbitrary: p s)
  case Nil
  then show ?case by simp
next
  case (Cons b bs)
  let ?p = "p\<lparr>work_pc := WorkBytes bs n\<rparr>"
  from Cons.prems(1) obtain u where u: "hdlc_rx_input_byte (main_process_complete_frame z mdns) z b s = Inr u"
    "foldres (hdlc_rx_input_byte (main_process_complete_frame z mdns) z) bs u = Inr t" by auto
  have "thread_step z lg mdns node1 (p, s) (?p, u)" by (rule work_byte [OF Cons.prems(2) u(1)])
  also have "(thread_step z lg mdns node1)\<^sup>*\<^sup>* (?p, u) (?p\<lparr>work_pc := WorkBytes [] n\<rparr>, t)"
    by (rule Cons.IH [OF u(2)]) simp
  finally show ?case by simp
qed

lemma rx_handler_schedule:
  assumes "rx_work_pending s" "work_pc p = WorkIdle"
    "hdlc_rx_handler (main_process_complete_frame z mdns) z (s\<lparr>rx_work_pending := False\<rparr>) = Inr t"
  shows "(thread_step z lg mdns node1)\<^sup>*\<^sup>* (p, s) (p, t)"
proof -
  obtain d w where d: "ring_buf_get_claim z HDLC_RX_BUF_SIZE (world s) = (d, w)" by (cases "ring_buf_get_claim z HDLC_RX_BUF_SIZE (world s)")
  let ?p = "p\<lparr>work_pc := WorkBytes d (length d)\<rparr>" and ?s = "s\<lparr>rx_work_pending := False, world := w\<rparr>"
  obtain u where u: "foldres (hdlc_rx_input_byte (main_process_complete_frame z mdns) z) d ?s = Inr u"
    "t = u\<lparr>world := snd (ring_buf_get_finish z (length d) (world u))\<rparr>"
    using assms(3) d by (auto simp: hdlc_rx_handler_def hdlc_process_buffer_def Let_def split_def)
  have "thread_step z lg mdns node1 (p, s) (?p, ?s)" by (rule work_claim [OF assms(2,1) d])
  also have "(thread_step z lg mdns node1)\<^sup>*\<^sup>* (?p, ?s) (?p\<lparr>work_pc := WorkBytes [] (length d)\<rparr>, u)"
    by (rule work_bytes_schedule [OF u(1)]) simp
  also have "thread_step z lg mdns node1 (?p\<lparr>work_pc := WorkBytes [] (length d)\<rparr>, u)
      (?p\<lparr>work_pc := WorkBytes [] (length d), work_pc := WorkIdle\<rparr>, t)"
    unfolding u(2) by (rule work_finish) (simp_all add: prod_eq_iff)
  finally show ?thesis using assms(2) by simp
qed

interpretation rest: message_user z "\<lambda>_ _. True" "\<lambda>t :: ('w, 'a) ns. node_state.more t = M" for z :: "'w zephyr" and M :: 'a
  by unfold_locales (simp_all add: new_operation_id_eq calls_keep_def)

lemma node_filter_step_rest: "node_state.more s = M \<Longrightarrow> okr (\<lambda>t. node_state.more t = M) (node_filter_step z a s)"
proof -
  assume s: "node_state.more s = M"
  have "okr (\<lambda>rt. node_state.more (snd rt) = M) (node_create_interface z a s)"
    using s by (auto simp: node_create_interface_def gb_interface_alloc_def new_interface_id_eq node_cache_add_def ctrl_free_def
      ctrl_set_def Let_def split_def split: option.split
      intro!: okr_reads okr_bnd [where P = "\<lambda>rt. node_state.more (snd rt) = M"] okr_bnd [where P = "\<lambda>t. node_state.more t = M"])
  then show ?thesis
    using s by (auto simp: node_filter_step_def svc_send_module_inserted_def split_def split: option.split
        intro!: okr_reads okr_bnd [where P = "\<lambda>rt. node_state.more (snd rt) = M"] rest.control_send_request_keeps)
qed

lemma node_filter_schedule:
  "node_filter z as s = Inr t \<Longrightarrow> discovery_pc p = DiscoveryFilter as \<Longrightarrow> discovery_running s \<Longrightarrow> slab_documented z \<Longrightarrow>
   fw_inv A s \<Longrightarrow> set as \<subseteq> A \<Longrightarrow> ids_free (length as) s \<Longrightarrow> length as \<le> 253 \<Longrightarrow>
   (thread_step z lg mdns node1)\<^sup>*\<^sup>* (p, s) (p\<lparr>discovery_pc := DiscoverySleep\<rparr>, t)"
proof (induction as arbitrary: p s)
  case Nil
  then show ?case by (auto simp: node_filter_def intro!: r_into_rtranclp discovery_again)
next
  case (Cons a as)
  let ?p = "p\<lparr>discovery_pc := DiscoveryFilter as\<rparr>"
  from Cons.prems(1) obtain u where u: "node_filter_step z a s = Inr u" "node_filter z as u = Inr t"
    by (auto simp: node_filter_def)
  have inv: "fw_inv A u" "ids_free (length as) u"
    using okrD [OF node_filter_step_inv [OF Cons.prems(5,4), of a "length as"] u(1)] Cons.prems by simp_all
  have "node_state.more u = node_state.more s" using okrD [OF node_filter_step_rest [OF refl] u(1)] .
  then have run: "discovery_running u" using Cons.prems(3) by (cases u, cases s) simp
  have "thread_step z lg mdns node1 (p, s) (?p, u)"
    using Cons.prems by (intro discovery_node [OF _ _ _ u(1)]) (auto intro: ids_free_mono)
  also have "(thread_step z lg mdns node1)\<^sup>*\<^sup>* (?p, u) (?p\<lparr>discovery_pc := DiscoverySleep\<rparr>, t)"
    using Cons.prems by (intro Cons.IH [OF u(2) _ run _ inv(1) _ inv(2)]) simp_all
  finally show ?case by simp
qed

lemma handler_mdns_query_result:
  "okr (\<lambda>rt. nodes (snd rt) = nodes s \<and> interface_id_counter (snd rt) = interface_id_counter s \<and>
     discovery_running (snd rt) = discovery_running s \<and> length (fst rt) \<le> MAX_GREYBUS_NODES) (handler_mdns_query z s)"
  by (auto simp: handler_mdns_query_def nodes_def Let_def split_def intro!: okr_any okr_bnd [OF mdns_query_recv_length])

lemma handler_mdns_query_inv: "fw_inv A s \<Longrightarrow> okr (inv_pair A) (handler_mdns_query z s)"
  by (auto simp: handler_mdns_query_def Let_def split_def intro!: okr_any)

lemma discovery_schedule:
  assumes "slab_documented z" "fw_inv (node_addrs mdns node1) s" "discovery_running s" "discovery_pc p = DiscoverySleep"
    and "if mdns then ids_free MAX_GREYBUS_NODES s \<and> handler_mdns z s = Inr t else ids_free 1 s \<and> handler_fixed z node1 s = Inr t"
  shows "(thread_step z lg mdns node1)\<^sup>*\<^sup>* (p, s) (p, t)"
proof (cases mdns)
  case False
  let ?p = "p\<lparr>discovery_pc := DiscoveryFilter [node1]\<rparr>"
  have "thread_step z lg mdns node1 (p, s) (?p, s)" by (rule discovery_fixed [OF assms(4,3) False])
  also have "(thread_step z lg mdns node1)\<^sup>*\<^sup>* (?p, s) (?p\<lparr>discovery_pc := DiscoverySleep\<rparr>, t)"
    using False assms by (intro node_filter_schedule [where A = "{node1}" and as = "[node1]"]) (simp_all add: handler_fixed_def node_addrs_def)
  finally show ?thesis using assms(4) by simp
next
  case True
  then obtain as u where q: "handler_mdns_query z s = Inr (as, u)" "node_filter z as u = Inr t"
    using assms(5) by (auto simp: handler_mdns_split)
  have u: "nodes u = nodes s" "interface_id_counter u = interface_id_counter s" "discovery_running u" "length as \<le> MAX_GREYBUS_NODES"
    using okrD [OF handler_mdns_query_result q(1)] assms(3) by simp_all
  have ids: "ids_free (length as) u"
    using ids_free_mono [OF _ u(4), of s] ids_free_cong [OF u(1,2)] assms(5) True by simp
  have inv: "fw_inv UNIV u" using okrD [OF handler_mdns_query_inv q(1)] assms(2) True by (simp add: node_addrs_def)
  let ?p = "p\<lparr>discovery_pc := DiscoveryFilter as\<rparr>"
  have "thread_step z lg mdns node1 (p, s) (?p, u)" by (rule discovery_query [OF assms(4,3) True q(1)])
  also have "(thread_step z lg mdns node1)\<^sup>*\<^sup>* (?p, u) (?p\<lparr>discovery_pc := DiscoverySleep\<rparr>, t)"
    using u ids by (intro node_filter_schedule [OF q(2) _ _ assms(1) inv]) (simp_all add: MAX_GREYBUS_NODES_def)
  finally show ?thesis using assms(4) by simp
qed

section \<open>What the pieces keep, the schedules keep\<close>

locale atomic_pieces =
  fixes z :: "'w zephyr" and lg :: "('w, 'm) log_lib" and mdns :: bool and node1 :: "byte list"
    and I :: "('w, 'a) fws \<Rightarrow> bool"
  assumes I_world: "I s \<Longrightarrow> I (s\<lparr>world := w\<rparr>)"
    and I_pending: "I s \<Longrightarrow> I (s\<lparr>rx_work_pending := b\<rparr>)"
    and I_irq: "I s \<Longrightarrow> I (serial_callback z s)"
    and I_log: "I s \<Longrightarrow> okr I (hdlc_uart_backend_api z lg ev s)"
    and I_start: "I s \<Longrightarrow> node_rx_start z s = Some (r, t) \<Longrightarrow> I t"
    and I_socket: "I s \<Longrightarrow> okr I (node_rx_socket z fe s)"
    and I_receive: "I s \<Longrightarrow> okr (\<lambda>rt. I (snd rt)) (node_rx_receive z fd s)"
    and I_forward: "I s \<Longrightarrow> okr I (node_rx_forward z i r' s)"
    and I_byte: "I s \<Longrightarrow> okr I (hdlc_rx_input_byte (main_process_complete_frame z mdns) z c s)"
    and I_node: "I s \<Longrightarrow> a \<in> node_addrs mdns node1 \<Longrightarrow> ids_free 1 s \<Longrightarrow> okr I (node_filter_step z a s)"
begin

definition conf_ok :: "('w, 'a) conf \<Rightarrow> bool" where
  "conf_ok c \<longleftrightarrow> I (snd c) \<and>
     (case discovery_pc (fst c) of DiscoverySleep \<Rightarrow> True | DiscoveryFilter as \<Rightarrow> set as \<subseteq> node_addrs mdns node1)"

lemma I_poll: "I s \<Longrightarrow> I (snd (node_rx_poll z s))"
  by (simp add: node_rx_poll_def Let_def split_def I_world)

lemma I_query: "I s \<Longrightarrow> okr (\<lambda>rt. I (snd rt)) (handler_mdns_query z s)"
  by (auto simp: handler_mdns_query_def Let_def split_def I_world intro!: okr_any)

lemma thread_step_ok: "thread_step z lg mdns node1 c d \<Longrightarrow> conf_ok c \<Longrightarrow> conf_ok d"
proof (induction rule: thread_step.induct)
  case (rx_poll p s fes t)
  then show ?case using I_poll [of s] by (simp add: conf_ok_def)
next
  case (work_claim p s d w)
  then show ?case using I_world [of "s\<lparr>rx_work_pending := False\<rparr>" w] by (simp add: conf_ok_def I_pending)
next
  case (discovery_query p s as t)
  then show ?case unfolding conf_ok_def using okrD [OF I_query discovery_query(4)] by (simp add: node_addrs_def)
next
  case (discovery_fixed p s)
  then show ?case unfolding conf_ok_def by (simp add: node_addrs_def)
next
  case (discovery_node p a as s t)
  then show ?case using okrD [OF I_node discovery_node(4)] by (simp add: conf_ok_def)
qed (auto simp: conf_ok_def node_addrs_def intro: I_world I_start okrD [OF I_log] okrD [OF I_socket]
    okrD [OF I_forward] okrD [OF I_byte] dest: okrD [OF I_receive])

lemma fw_step_ok: "fw_step z lg mdns node1 c d \<Longrightarrow> conf_ok c \<Longrightarrow> conf_ok d"
  by (auto elim!: fw_stepE intro: thread_step_ok) (simp add: conf_ok_def I_irq)

lemma schedule_keeps:
  assumes "(fw_step z lg mdns node1)\<^sup>*\<^sup>* (idle, s0) (p, s)" "I s0" shows "I s"
proof -
  have "conf_ok (idle, s0)" using assms(2) by (simp add: conf_ok_def idle_def)
  with assms(1) have "conf_ok (p, s)"
    by (induction rule: rtranclp_induct) (auto intro: fw_step_ok)
  then show ?thesis by (simp add: conf_ok_def)
qed

end

lemma input_byte_inv:
  "fw_inv A s \<Longrightarrow> okr (fw_inv A) (hdlc_rx_input_byte (main_process_complete_frame z mdns) z b s)"
  using host.input_byte_ok [of s A z mdns z b] by (auto simp: okr_def fw_inv_split split: sum.split)

lemma node_rx_receive_inv: "fw_inv A s \<Longrightarrow> okr (inv_pair A) (node_rx_receive z fd s)"
  by (auto simp: node_rx_receive_def intro!: okr_bnd [OF gb_message_receive_inv])

lemma node_rx_forward_inv: "fw_inv A s \<Longrightarrow> okr (fw_inv A) (node_rx_forward z i r s)"
  by (auto simp: node_rx_forward_def split_def split: option.split
      intro!: okr_bnd [OF svc_send_module_removed_inv] okr_bnd [OF connection_send_inv])

lemma okr_imp: "okr (\<lambda>x. P \<longrightarrow> Q x) m \<longleftrightarrow> (P \<longrightarrow> okr Q m)"
  by (cases m) simp_all

lemma node_filter_step_inv1:
  "fw_inv A s \<Longrightarrow> slab_documented z \<Longrightarrow> a \<in> A \<Longrightarrow> ids_free 1 s \<Longrightarrow> okr (fw_inv A) (node_filter_step z a s)"
  by (rule okr_mono [OF node_filter_step_inv [where n = 0 and A = A]]) simp_all

interpretation tables: atomic_pieces z lg mdns node1 "\<lambda>s. slab_documented z \<longrightarrow> fw_inv (node_addrs mdns node1) s"
  for z :: "'w zephyr" and lg :: "('w, 'm) log_lib" and mdns node1
  by unfold_locales (simp_all add: okr_imp serial_callback_inv backend_api_inv node_rx_socket_inv node_rx_receive_inv
      node_rx_forward_inv input_byte_inv node_filter_step_inv1, blast intro: node_rx_start_inv)

text \<open>
  The index the receive thread keeps stays right while discovery runs: new nodes are entered behind the
  old ones, so the message is forwarded under the id of the node whose socket it came from.
\<close>

lemma discovery_keeps_entries:
  assumes inv: "fw_inv A s" and z: "slab_documented z" and t: "node_filter_step z a s = Inr t"
  shows "\<exists>ns. nodes t = nodes s @ ns"
proof (cases "node_cache_find_by_addr a s < 0")
  case False
  then show ?thesis using t by (simp add: node_filter_step_def)
next
  case True
  show ?thesis
  proof (cases rule: node_create_interface_cases [OF fw_invD(2) [OF inv] z, of a, case_names full created])
    case (full w)
    then have "nodes t = nodes s" using True t by (auto simp: node_filter_step_def nodes_def)
    then show ?thesis by simp
  next
    case (created b c w)
    let ?u = "node_created a b c w s"
    have "okr (\<lambda>rt. nodes (snd rt) = nodes ?u \<and> interface_id_counter (snd rt) = interface_id_counter ?u)
        (svc_send_module_inserted z i ?u)" for i
      unfolding svc_send_module_inserted_def by (rule quiet.control_send_request_keeps) simp
    then have "nodes t = nodes ?u"
      using True created(5) t by (auto simp: node_filter_step_def split_def dest: okrD)
    then show ?thesis using node_created_nodes [OF fw_invD(2) [OF inv]] by simp
  qed
qed

lemma discovery_keeps_index:
  assumes inv: "fw_inv A s" and z: "slab_documented z" and i: "i < node_cache_pos s" and a: "a \<in> A" "ids_free 1 s"
    and t: "node_filter_step z a s = Inr t"
  shows "i < node_cache_pos t \<and> node_cache t ! i = node_cache s ! i"
proof -
  obtain ns where ns: "nodes t = nodes s @ ns" using discovery_keeps_entries [OF inv z t] by blast
  have t': "node_ok t" using okrD [OF node_filter_step_inv1 [OF inv z a] t] by (rule fw_invD(2))
  have l: "length (nodes s) = node_cache_pos s" "length (nodes t) = node_cache_pos t"
    using length_nodes fw_invD(2) [OF inv] t' by blast+
  have "nodes t ! i = nodes s ! i" using ns i l by (simp add: nth_append)
  moreover have pos: "i < node_cache_pos t" using ns i l by simp
  moreover have "nodes t ! i = node_cache t ! i" "nodes s ! i = node_cache s ! i" using i pos by (simp_all add: nodes_def)
  ultimately show ?thesis by simp
qed

section \<open>Every reachable state\<close>

text \<open>
  C3. Every state the firmware reaches is consistent, whatever the host, the nodes and the network do and
  however its threads are scheduled: after \<open>main\<close> and any interleaving of the interrupt, the log, the
  receive thread (preempted after polling, between sockets, and between receiving a message and
  forwarding it), the work item (preempted between bytes) and the discovery thread (preempted between the
  nodes it has found, and adding nodes while the interface id counter has not come round to the id of a
  live node), the HDLC buffer is in bounds; every cached node has its own live interface and control block,
  its own id and its own address, every live interface and control block belongs to a cached node; there are
  at most ten nodes, and at most one without mDNS; the route table has its size and free entries are
  clear; and the id counters are in range.
\<close>

theorem reachable_consistent:
  assumes "slab_documented z" and "(fw_step z lg mdns node1)\<^sup>*\<^sup>* (idle, snd (main z mdns (boot w))) (p, s)"
  shows "rx_ok s \<and> node_ok s \<and> intf_owned s \<and> distinct (map item_addr (nodes s)) \<and>
    node_cache_pos s \<le> (if mdns then 10 else 1) \<and> ap_map_ok s \<and> heap_ok s \<and> op_ids_ok s \<and> intf_ids_ok s"
  using tables.schedule_keeps [OF assms(2)] assms(1)
  by (intro fw_inv_consistent [of mdns node1]) (simp add: main_inv [OF boot_inv])

definition sample_after_irq :: "sample_world fw_state" where
  "sample_after_irq = serial_callback sample_zephyr (snd (main sample_zephyr False (boot ([], []))))"

theorem reachable_consistent_witness:
  "rx_ok sample_after_irq \<and> node_ok sample_after_irq \<and> intf_owned sample_after_irq \<and>
   distinct (map item_addr (nodes sample_after_irq)) \<and> node_cache_pos sample_after_irq \<le> (if False then 10 else 1) \<and>
   ap_map_ok sample_after_irq \<and> heap_ok sample_after_irq \<and> op_ids_ok sample_after_irq \<and> intf_ids_ok sample_after_irq"
  unfolding sample_after_irq_def
  by (rule reachable_consistent [OF sample_documented(3)]) (rule r_into_rtranclp, rule fw_step.uart_irq)

end
