(* ===== verification/Rx_Frame.thy ===== *)
theory Rx_Frame
  imports Schedule
begin

text \<open>
  What the handlers behind the HDLC driver leave alone.  Handling a frame, receiving from a node and
  looking for nodes go through most of the program, but none of it touches the driver's receive state,
  and what each call into the platform keeps, all of it keeps.  One lemma per operation, proved in a
  locale for an arbitrary relation that the platform's calls respect.
\<close>

section \<open>The receive state\<close>

definition rx_view :: "('w, 'a) hd \<Rightarrow> u16 \<times> bool \<times> nat \<times> byte list \<times> bool" where
  "rx_view s = (crc s, next_escaped s, rx_buffer_len s, rx_buffer s, rx_work_pending s)"

lemma rx_view_upd [simp]:
  "rx_view (s\<lparr>world := w\<rparr>) = rx_view s" "rx_view (s\<lparr>uart_tx := b\<rparr>) = rx_view s"
  by (simp_all add: rx_view_def)

lemma rx_view_upd_gs [simp]:
  "rx_view (t\<lparr>operation_id_counter := i\<rparr>) = rx_view t" "rx_view (t\<lparr>msg_heap := h\<rparr>) = rx_view t"
  "rx_view (t\<lparr>msg_next := n\<rparr>) = rx_view t" for t :: "('w, 'a) gs"
  by (simp_all add: rx_view_def)

lemma rx_view_upd_ns [simp]:
  "rx_view (t\<lparr>interface_id_counter := i\<rparr>) = rx_view t" "rx_view (t\<lparr>gb_interface_slab := g\<rparr>) = rx_view t"
  "rx_view (t\<lparr>svc_is_read_flag := f\<rparr>) = rx_view t" "rx_view (t\<lparr>node_ap_map := m\<rparr>) = rx_view t"
  "rx_view (t\<lparr>node_cache := c\<rparr>) = rx_view t" "rx_view (t\<lparr>node_cache_pos := n\<rparr>) = rx_view t"
  "rx_view (t\<lparr>node_control_data_slab := d\<rparr>) = rx_view t" "rx_view (t\<lparr>local_pipe_writer := p\<rparr>) = rx_view t"
  for t :: "('w, 'a) ns"
  by (simp_all add: rx_view_def)

lemma rx_view_upd_fws [simp]:
  "rx_view (t\<lparr>rx_flag := f\<rparr>) = rx_view t" "rx_view (t\<lparr>rx_pipe := p\<rparr>) = rx_view t"
  "rx_view (t\<lparr>discovery_running := r\<rparr>) = rx_view t" "rx_view (t\<lparr>discovery_sock := k\<rparr>) = rx_view t"
  for t :: "('w, 'a) fws"
  by (simp_all add: rx_view_def)

locale rx_frame = world_frame z R for z :: "'w zephyr" and R +
  fixes H :: "(nat \<rightharpoonup> gb_message) \<Rightarrow> bool"
  assumes H_alloc: "H h \<Longrightarrow> (heap_documented z \<Longrightarrow> heap_bounded z \<Longrightarrow> typed_msg m) \<Longrightarrow> H (h(p \<mapsto> m))"
    and H_free: "H h \<Longrightarrow> H (h(p := None))"
    and H_write: "H h \<Longrightarrow> h p = Some m \<Longrightarrow> header m' = header m \<Longrightarrow> length (payload m') = length (payload m) \<Longrightarrow>
      H (h(p \<mapsto> m'))"
begin

text \<open>
  Started in the platform state \<open>u\<close> with the receive state \<open>v\<close>; \<open>H\<close> is a property of the message heap that
  allocating, freeing and filling messages keeps.
\<close>

definition since :: "'w \<Rightarrow> u16 \<times> bool \<times> nat \<times> byte list \<times> bool \<Rightarrow> ('w, 'a) gs \<Rightarrow> bool" where
  "since u v s \<longleftrightarrow> R u (world s) \<and> rx_view s = v \<and> H (msg_heap s)"

abbreviation since_pair :: "'w \<Rightarrow> u16 \<times> bool \<times> nat \<times> byte list \<times> bool \<Rightarrow> 'r \<times> ('w, 'a) gs \<Rightarrow> bool" where
  "since_pair u v rt \<equiv> since u v (snd rt)"

lemma since_world: "since u v s \<Longrightarrow> R (world s) w \<Longrightarrow> since u v (s\<lparr>world := w\<rparr>)"
  by (auto simp: since_def intro: R_trans)

lemma since_refl: "H (msg_heap s) \<Longrightarrow> since (world s) (rx_view s) s"
  by (simp add: since_def R_refl)

end

sublocale rx_frame \<subseteq> msg: message_user z R "since u v" for u v
  by unfold_locales (auto simp: since_def new_operation_id_eq intro: R_trans H_alloc H_free H_write)

context rx_frame
begin

lemma since_upd [simp]:
  "since u v (s\<lparr>uart_tx := b\<rparr>) = since u v s"
  by (simp add: since_def)

lemma since_upd_ns [simp]:
  "since u v (t\<lparr>interface_id_counter := i\<rparr>) = since u v t" "since u v (t\<lparr>gb_interface_slab := g\<rparr>) = since u v t"
  "since u v (t\<lparr>svc_is_read_flag := f\<rparr>) = since u v t" "since u v (t\<lparr>node_ap_map := m\<rparr>) = since u v t"
  "since u v (t\<lparr>node_cache := c\<rparr>) = since u v t" "since u v (t\<lparr>node_cache_pos := n\<rparr>) = since u v t"
  "since u v (t\<lparr>node_control_data_slab := d\<rparr>) = since u v t" "since u v (t\<lparr>local_pipe_writer := p\<rparr>) = since u v t"
  for t :: "('w, 'a) ns"
  by (simp_all add: since_def)

lemma since_upd_fws [simp]:
  "since u v (t\<lparr>rx_flag := f\<rparr>) = since u v t" "since u v (t\<lparr>rx_pipe := p\<rparr>) = since u v t"
  "since u v (t\<lparr>discovery_running := r\<rparr>) = since u v t" "since u v (t\<lparr>discovery_sock := k\<rparr>) = since u v t"
  for t :: "('w, 'a) fws"
  by (simp_all add: since_def)

lemmas call = since_world R_step R_refl

text \<open>Messages\<close>

lemma response_helper_since: "since u v s \<Longrightarrow> okr (since u v) (response_helper z p bs st c s)"
  by (auto simp: response_helper_def split_def split: option.split
      intro!: okr_reads okr_bnd [OF msg.response_alloc_keeps] okr_bnd [OF msg.connection_send_to_ap_keeps])

text \<open>Nodes\<close>

lemma node_destroy_interface_since: "since u v s \<Longrightarrow> okr (since u v) (node_destroy_interface z p s)"
  by (auto simp: node_destroy_interface_def node_cache_remove_by_id_def node_cache_remove_at_def ctrl_free_def
      gb_interface_dealloc_def Let_def split_def call split: option.split intf_ptr.split
      intro!: okr_reads okr_bnd [where P = "since_pair u v"] okr_bnd [where P = "since u v"])

lemma module_removed_since: "since u v s \<Longrightarrow> okr (since_pair u v) (svc_send_module_removed z p s)"
  by (auto simp: svc_send_module_removed_def split_def split: option.split
      intro!: okr_reads okr_bnd [OF msg.control_send_request_keeps] okr_bnd [OF node_destroy_interface_since])

lemma module_removed_by_sock_since: "since u v s \<Longrightarrow> okr (since u v) (svc_send_module_removed_by_sock z k s)"
  by (auto simp: svc_send_module_removed_by_sock_def split_def Let_def intro!: okr_bnd [OF module_removed_since])

lemma R_send: "zsock_send z k bs w = (r, w') \<Longrightarrow> R u w \<Longrightarrow> R u w'"
  using R_step(9) [of u w k bs] by simp

lemma R_recv: "zsock_recv z k n w = (r, bs, w') \<Longrightarrow> R u w \<Longrightarrow> R u w'"
  using R_step(10) [of u w k n] by simp

lemma write_loop_R:
  assumes "write_loop z k d n w = Some rw" "R u w" shows "R u (snd rw)"
proof -
  have "z = z \<longrightarrow> R u w \<longrightarrow> R u (snd rw)"
    by (rule write_loop.raw_induct [OF _ assms(1), where P = "\<lambda>z' k d n w rw. z' = z \<longrightarrow> R u w \<longrightarrow> R u (snd rw)"])
      (auto simp: Let_def R_send split: if_splits prod.splits)
  with assms(2) show ?thesis by simp
qed

lemma read_loop_R:
  assumes "read_loop z k n bs w = Some rw" "R u w" shows "R u (snd (snd rw))"
proof -
  have "z = z \<longrightarrow> R u w \<longrightarrow> R u (snd (snd rw))"
    by (rule read_loop.raw_induct [OF _ assms(1), where P = "\<lambda>z' k n bs w rw. z' = z \<longrightarrow> R u w \<longrightarrow> R u (snd (snd rw))"])
      (auto simp: Let_def R_recv split: if_splits prod.splits)
  with assms(2) show ?thesis by simp
qed

lemma write_data_since: "since u v s \<Longrightarrow> okr (since_pair u v) (write_data z k d n s)"
  by (auto simp: write_data_def since_world R_refl split: option.split dest!: write_loop_R [OF _ R_refl])

lemma read_data_since: "since u v s \<Longrightarrow> okr (\<lambda>(r, b, t). since u v t) (read_data z k n s)"
  by (auto simp: read_data_def since_world R_refl split: option.split dest!: read_loop_R [OF _ R_refl])

lemma gb_message_send_since: "since u v s \<Longrightarrow> okr (since_pair u v) (gb_message_send z k p c s)"
  by (auto simp: gb_message_send_def send_failed_def split_def
      intro!: okr_reads okr_bnd [OF write_data_since] okr_bnd [OF module_removed_by_sock_since])

lemma gb_message_receive_since: "since u v s \<Longrightarrow> okr (\<lambda>(r, f, t). since u v t) (gb_message_receive z k f s)"
  for s :: "('w, 'a) ns"
  by (auto simp: gb_message_receive_def receive_failed_def Let_def split: option.split
      intro!: okr_reads okr_bnd [OF read_data_since] okr_bnd [OF msg.alloc_keeps]
        okr_bnd [OF msg.payload_write_keeps] okr_bnd [OF msg.dealloc_keeps])

lemma node_inf_write_since: "since u v s \<Longrightarrow> okr (since_pair u v) (node_inf_write z p m c s)"
  by (auto simp: node_inf_write_def split_def split: option.split
      intro!: okr_reads okr_bnd [OF gb_message_send_since] okr_bnd [OF module_removed_since]
        okr_bnd [OF msg.dealloc_keeps])

lemma node_create_interface_since: "since u v s \<Longrightarrow> okr (since_pair u v) (node_create_interface z a s)"
  by (auto simp: node_create_interface_def gb_interface_alloc_def new_interface_id_eq node_cache_add_def ctrl_free_def
      ctrl_set_def Let_def split_def call split: option.split
      intro!: okr_reads okr_bnd [where P = "since_pair u v"] okr_bnd [where P = "since u v"])

lemma node_filter_step_since: "since u v s \<Longrightarrow> okr (since u v) (node_filter_step z a s)"
  by (auto simp: node_filter_step_def svc_send_module_inserted_def split_def split: option.split
      intro!: okr_reads okr_bnd [OF node_create_interface_since] okr_bnd [OF msg.control_send_request_keeps])

text \<open>Connections and interfaces\<close>

lemma connection_create_since: "since u v s \<Longrightarrow> okr (since_pair u v) (connection_create z i1 c1 i2 c2 s)"
proof -
  have "okr (since_pair u v) (create_connection_call z q c s)" if "since u v s" for q c s
    using that by (auto simp: create_connection_call_def node_intf_create_connection_def connect_to_node_def pipe_send_def
        ctrl_set_def Let_def split_def call split: option.split create_fn.split intro!: okr_reads)
  moreover have "okr (since_pair u v) (node_ap_add p c q t)" if "since u v t" for p c q and t :: "('w, 'x) ns"
    using that by (auto simp: node_ap_add_def intro!: okr_reads)
  ultimately show "since u v s \<Longrightarrow> ?thesis"
    by (auto simp: connection_create_def split_def split: option.split intro!: okr_bnd [where P = "since_pair u v"])
qed

lemma connection_destroy_since: "since u v s \<Longrightarrow> okr (since_pair u v) (connection_destroy i1 c1 i2 c2 s)"
proof -
  have "okr (since u v) (destroy_connection_call q c s)" if "since u v s" for q c s
    using that by (auto simp: destroy_connection_call_def svc_inf_destroy_connection_def local_intf_destroy_connection_def
        node_intf_destroy_connection_def split: destroy_fn.split intro!: okr_reads)
  then show "since u v s \<Longrightarrow> ?thesis"
    by (auto simp: connection_destroy_def split_def node_ap_remove_def split: option.split
        intro!: okr_bnd [where P = "since u v"])
qed

lemma svc_handlers_since:
  assumes "since u v s"
  shows "okr (since u v) (svc_connection_create_handler z p s)" "okr (since u v) (svc_connection_destroy_handler z p s)"
    "okr (since u v) (svc_intf_set_pwrm_handler z p s)" "okr (since u v) (svc_version_response_handler z p s)"
    "okr (since u v) (svc_module_inserted_response_handler z p s)" "okr (since u v) (svc_module_removed_response_handler z p s)"
    "okr (since u v) (svc_hello_response_handler z p s)"
  using assms
  by (auto simp: svc_connection_create_handler_def svc_connection_destroy_handler_def svc_intf_set_pwrm_handler_def
      svc_version_response_handler_def svc_send_hello_def svc_module_inserted_response_handler_def
      svc_module_removed_response_handler_def svc_hello_response_handler_def split_def Let_def
      intro!: okr_reads msg.svc_response_helper_keeps okr_bnd [OF connection_create_since] okr_bnd [OF connection_destroy_since]
        okr_bnd [OF msg.control_send_request_keeps])

lemma gb_handle_msg_since: "since u v s \<Longrightarrow> okr (since u v) (gb_handle_msg z p s)"
  unfolding gb_handle_msg_def Let_def svc_fixed_handlers
  by (rule okr_any) (simp add: msg.svc_response_helper_keeps svc_handlers_since)

lemma svc_inf_write_since: "since u v s \<Longrightarrow> okr (since_pair u v) (svc_inf_write z p c s)"
  by (auto simp: svc_inf_write_def intro!: okr_bnd [OF gb_handle_msg_since] okr_bnd [OF msg.dealloc_keeps])

lemma local_intf_write_since: "since u v s \<Longrightarrow> okr (since_pair u v) (local_intf_write z p c s)"
  by (auto simp: local_intf_write_def control_protocol_handle_def Let_def control_protocol_cport_shutdown_handler_def
      control_protocol_version_handler_def control_protocol_get_manifest_size_handler_def
      control_protocol_get_manifest_handler_def control_protocol_empty_handler_def
      intro!: okr_bnd [where P = "since u v"] okr_reads response_helper_since msg.dealloc_keeps)

lemma connection_send_since: "since u v s \<Longrightarrow> okr (since_pair u v) (connection_send z n c p s)"
  by (auto simp: connection_send_def intf_write_call_def Let_def msg.connection_send_to_ap_keeps svc_inf_write_since
      local_intf_write_since node_inf_write_since split: option.split write_fn.split intro!: okr_reads)

text \<open>Frames from the host\<close>

lemma greybus_frame_since: "since u v s \<Longrightarrow> okr (since_pair u v) (hdlc_process_greybus_frame z b n s)"
  by (auto simp: hdlc_process_greybus_frame_def ap_rx_submit_def Let_def split_def split: option.split
      intro!: okr_reads okr_bnd [OF msg.alloc_keeps] okr_bnd [OF msg.payload_write_keeps] okr_bnd [OF connection_send_since])

lemma node_destroy_all_since: "since u v s \<Longrightarrow> okr (since u v) (node_destroy_all z s)"
proof -
  have "since u v s \<Longrightarrow> okr (since u v) (node_destroy_loop z n i s)" for n i
    by (induction n arbitrary: i s) (auto intro!: okr_bnd [OF node_destroy_interface_since])
  then show "since u v s \<Longrightarrow> ?thesis" by (auto simp: node_destroy_all_def Let_def intro!: okr_bnd [where P = "since u v"])
qed

lemma mdns_socket_R: "R u w \<Longrightarrow> R u (snd (mdns_socket_open_ipv6 z a w))"
  by (auto simp: mdns_socket_open_ipv6_def mdns_socket_setup_ipv6_def join_multicast_group_def mdns_socket_close_def
      Let_def split_def R_step)

lemma tcp_discovery_since:
  "since u v s \<Longrightarrow> since u v (tcp_discovery_start z mdns s)" "since u v s \<Longrightarrow> since u v (tcp_discovery_stop z mdns s)"
  by (auto simp: tcp_discovery_start_def tcp_discovery_stop_def mdns_socket_close_def Let_def split_def
      call mdns_socket_R)

lemma control_frame_since: "since u v s \<Longrightarrow> okr (since_pair u v) (control_process_frame z mdns b n s)"
  by (auto simp: control_process_frame_def apbridge_init_def apbridge_deinit_def ap_init_def ap_deinit_def svc_init_def
      svc_deinit_def svc_send_version_def Let_def split_def
      intro!: okr_reads okr_bnd [OF connection_create_since] okr_bnd [OF msg.control_send_request_keeps]
        okr_bnd [OF node_destroy_all_since] tcp_discovery_since)

lemma host_frame_since: "since u v s \<Longrightarrow> okr (since_pair u v) (main_process_complete_frame z mdns b n a s)"
  by (simp add: main_process_complete_frame_def greybus_frame_since control_frame_since)

text \<open>The other threads\<close>

lemma node_rx_socket_since: "since u v s \<Longrightarrow> okr (since u v) (node_rx_socket z fe s)"
  by (auto simp: node_rx_socket_def Let_def split: prod.split option.split
      intro!: module_removed_by_sock_since okr_bnd [OF gb_message_receive_since]
        okr_bnd [OF module_removed_since] okr_bnd [OF connection_send_since])

lemma node_rx_start_since: "since u v s \<Longrightarrow> node_rx_start z s = Some (r, t) \<Longrightarrow> since u v t"
  by (auto simp: node_rx_start_def Let_def split_def call split: if_splits)

lemma mdns_recv_internal_R: "R u w \<Longrightarrow> okr (\<lambda>rw. R u (snd rw)) (mdns_query_recv_internal z k q l w)"
  by (auto simp: mdns_query_recv_internal_def Let_def split_def R_step split: option.split intro!: okr_any)

lemma R_internal: "mdns_query_recv_internal z k q l w = Inr (f, w') \<Longrightarrow> R u w \<Longrightarrow> R u w'"
  using mdns_recv_internal_R [of u w k q l] by simp

lemma mdns_recv_loop_R:
  assumes "mdns_recv_loop z k n q l ret as w = Some r" "R u w" shows "okr (\<lambda>aw. R u (snd aw)) r"
proof -
  have "z = z \<longrightarrow> R u w \<longrightarrow> okr (\<lambda>aw. R u (snd aw)) r"
    by (rule mdns_recv_loop.raw_induct [OF _ assms(1),
          where P = "\<lambda>z' k n q l ret as w r. z' = z \<longrightarrow> R u w \<longrightarrow> okr (\<lambda>aw. R u (snd aw)) r"])
      (auto simp: Let_def split_def split: if_splits sum.splits, blast intro: R_step(11) R_internal)
  with assms(2) show ?thesis by simp
qed

lemma mdns_query_recv_R: "R u w \<Longrightarrow> okr (\<lambda>aw. R u (snd aw)) (mdns_query_recv z k n q l tm w)"
  by (auto simp: mdns_query_recv_def Let_def split_def split: option.split dest!: mdns_recv_loop_R intro: R_step)

lemma mdns_query_send_R: "R u w \<Longrightarrow> okr (\<lambda>rw. R u (snd rw)) (mdns_query_send z k q l w)"
  by (auto simp: mdns_query_send_def mdns_multiquery_send_def mdns_multicast_send_def Let_def split_def R_step
      split: option.split intro!: okr_any)

lemma backend_api_since:
  assumes "log_keeps lg R" "since u v s" shows "okr (since u v) (hdlc_uart_backend_api z lg ev s)"
proof (cases "ev \<in> log_events")
  case True
  have "R (world s) (log_world (log_run lg ev (world s)))" by (rule log_run_keeps [OF assms(1) R_refl R_trans])
  then show ?thesis using assms(2) True by (simp add: backend_api_eq since_world)
next
  case False
  then show ?thesis
    using assms(2)
    by (cases ev) (auto simp: log_events_def hdlc_uart_backend_api_def hdlc_uart_backend_init_def hdlc_uart_backend_is_ready_def
        hdlc_uart_backend_format_set_def hdlc_uart_backend_notify_def Let_def split_def call)
qed

lemma node_rx_receive_since: "since u v s \<Longrightarrow> okr (since_pair u v) (node_rx_receive z fd s)"
  by (auto simp: node_rx_receive_def intro!: okr_bnd [OF gb_message_receive_since])

lemma node_rx_forward_since: "since u v s \<Longrightarrow> okr (since u v) (node_rx_forward z i r s)"
  by (auto simp: node_rx_forward_def split_def split: option.split
      intro!: okr_bnd [OF module_removed_since] okr_bnd [OF connection_send_since])

lemma since_rx_ok: "since u (rx_view s) t \<Longrightarrow> rx_ok s \<Longrightarrow> rx_ok t \<and> H (msg_heap t)"
  by (simp add: since_def rx_view_def rx_ok_def)

lemma keeps_since_of:
  assumes "\<And>u v. since u v s \<Longrightarrow> okr (\<lambda>x. since u v (f x)) m" "rx_ok s \<and> H (msg_heap s)"
  shows "okr (\<lambda>x. rx_ok (f x) \<and> H (msg_heap (f x))) m"
proof (rule okr_mono [OF assms(1) [OF since_refl]])
  show "rx_ok (f x) \<and> H (msg_heap (f x))" if "since (world s) (rx_view s) (f x)" for x
    using since_rx_ok [OF that] assms(2) by blast
qed (use assms(2) in blast)

lemmas keeps_since = keeps_since_of [where f = "\<lambda>t. t"] and keeps_since_pair = keeps_since_of [where f = snd]

lemma handler_mdns_query_since: "since u v s \<Longrightarrow> okr (since_pair u v) (handler_mdns_query z s)"
  by (auto simp: handler_mdns_query_def Let_def split_def
      intro!: okr_bnd [OF mdns_query_send_R [OF R_refl]] okr_bnd [OF mdns_query_recv_R [OF R_refl]] since_world)
    (blast intro: R_trans)

lemma node_rx_poll_since: "since u v s \<Longrightarrow> since u v (snd (node_rx_poll z s))"
  by (auto simp: node_rx_poll_def Let_def split_def call)

text \<open>A step of a thread is one of the work item's, or leaves the receive state alone.\<close>

lemma thread_step_since:
  assumes lg: "log_keeps lg R" and st: "thread_step z lg mdns node1 (p, s) (q, t)" and H: "H (msg_heap s)"
    and other: "work_pc q = work_pc p"
  shows "since (world s) (rx_view s) t"
proof -
  note s = since_refl [of s, OF H]
  from st show ?thesis
  proof cases
    case (log ev)
    then show ?thesis using okrD [OF backend_api_since [OF lg s]] by blast
  next
    case (rx_start r)
    then show ?thesis using node_rx_start_since [OF s] by blast
  next
    case (rx_poll fes)
    then show ?thesis using node_rx_poll_since [OF s] by simp
  qed (use s other in \<open>auto dest: okrD [OF node_rx_socket_since [OF s]] okrD [OF node_rx_receive_since [OF s]]
      okrD [OF node_rx_forward_since [OF s]] okrD [OF handler_mdns_query_since [OF s]] okrD [OF node_filter_step_since [OF s]]\<close>)
qed

end

text \<open>Through the driver: the property of the message heap survives every byte of a frame.\<close>

sublocale rx_frame \<subseteq> drv: frame_handler "main_process_complete_frame z mdns" "\<lambda>s. H (msg_heap s)" for mdns
proof unfold_locales
  fix s s' :: "('w, 'b) fws" and buf len a r
  assume "rx_ok s" "H (msg_heap s)" "main_process_complete_frame z mdns buf len a s = Inr (r, s')"
  then show "rx_ok s' \<and> H (msg_heap s')"
    using okrD [OF host_frame_since [OF since_refl]] by (fastforce simp: since_def rx_ok_def rx_view_def)
qed simp_all

end
