(* ===== verification/Uart_Fifo.thy ===== *)
theory Uart_Fifo
  imports Rx_Frame
begin

text \<open>
  The way of a received byte: the UART interrupt (src/main.c) copies it into the ring buffer, the work
  item (src/hdlc.c) takes it out and feeds it to the driver.  Bytes pass through in order, none is lost
  or processed twice, whatever else the firmware does in between; and the ring drains as long as the
  work item is run.
\<close>

section \<open>Clients of the driver that leave its state alone\<close>

locale stream_client =
  fixes cb :: "('w, 'a) process_cb" and Q :: "'w \<Rightarrow> 'w \<Rightarrow> bool"
  assumes cb_view: "cb buf len a s = Inr (r, s') \<Longrightarrow> rx_view s' = rx_view s \<and> Q (world s) (world s')"
    and Q_refl: "Q w w"
    and Q_trans: "Q u v \<Longrightarrow> Q v w \<Longrightarrow> Q u w"
begin

lemma flag_step:
  assumes "rx_at z e body s" "hdlc_rx_input_byte cb z HDLC_FRAME s = Inr t"
  shows "rx_at z e [] t \<and> Q (world s) (world t) \<and> rx_work_pending t = rx_work_pending s"
proof (cases "body = []")
  case True
  with assms show ?thesis by (auto simp: rx_at_def hdlc_rx_input_byte_def hdlc_kept_def Q_refl)
next
  case False
  have "rx_buffer_len s \<noteq> 0" using False assms(1) by (simp add: rx_at_def)
  then have "hdlc_process_frame cb s = Inr t" using assms(2) by (simp add: hdlc_rx_input_byte_def)
  then obtain u where u: "t = u\<lparr>crc := 0xffff, rx_buffer_len := 0\<rparr>"
    "rx_buffer u = rx_buffer s \<and> next_escaped u = next_escaped s \<and> rx_work_pending u = rx_work_pending s \<and> Q (world s) (world u)"
    by (auto simp: hdlc_process_frame_def hdlc_process_complete_frame_def rx_view_def Q_refl dest!: cb_view split: if_splits)
  then show ?thesis using assms(1) by (simp add: rx_at_def hdlc_kept_def hdlc_checked_def)
qed

lemma byte_step:
  assumes "rx_at z e body s" "hdlc_rx_input_byte cb z b s = Inr t"
  shows "rx_at z (hdlc_pending e [b]) (hdlc_open body (hdlc_symbols e [b])) t \<and> Q (world s) (world t) \<and>
    rx_work_pending t = rx_work_pending s"
proof -
  consider "b = HDLC_FRAME" | "b = HDLC_ESC" "b \<noteq> HDLC_FRAME" | "b \<noteq> HDLC_FRAME" "b \<noteq> HDLC_ESC"
    by blast
  then show ?thesis
  proof cases
    case 1
    then show ?thesis using flag_step [OF assms(1)] assms(2) by simp
  next
    case 2
    then show ?thesis using rx_at_escape [OF assms(1), of cb] assms(2) by (auto simp: rx_moved_def Q_refl)
  next
    case 3
    then show ?thesis using rx_at_octet [OF assms(1) 3, of cb] assms(2) by (auto simp: rx_moved_def Q_refl)
  qed
qed

lemma stream_step:
  "rx_at z e body s \<Longrightarrow> foldres (hdlc_rx_input_byte cb z) bs s = Inr t \<Longrightarrow>
   rx_at z (hdlc_pending e bs) (hdlc_open body (hdlc_symbols e bs)) t \<and> Q (world s) (world t) \<and>
     rx_work_pending t = rx_work_pending s"
proof (induction bs arbitrary: e body s)
  case Nil
  then show ?case by (simp add: Q_refl)
next
  case (Cons b bs)
  then obtain u where u: "hdlc_rx_input_byte cb z b s = Inr u" "foldres (hdlc_rx_input_byte cb z) bs u = Inr t" by auto
  have split: "hdlc_symbols e (b # bs) = hdlc_symbols e [b] @ hdlc_symbols (hdlc_pending e [b]) bs"
    "hdlc_pending e (b # bs) = hdlc_pending (hdlc_pending e [b]) bs"
    using hdlc_symbols_append [of e "[b]" bs] by simp_all
  note one = byte_step [OF Cons.prems(1) u(1)]
  show ?case
    unfolding split hdlc_open_append using Cons.IH [OF conjunct1 [OF one] u(2)] one Q_trans by metis
qed

end

text \<open>A driver at the end of the stream \<open>P\<close>.\<close>

definition rx_after :: "'w zephyr \<Rightarrow> byte list \<Rightarrow> ('w, 'a) hd \<Rightarrow> bool" where
  "rx_after z P s \<longleftrightarrow> rx_at z (hdlc_pending False P) (hdlc_open [] (hdlc_symbols False P)) s"

lemma rx_after_append:
  "rx_at z (hdlc_pending (hdlc_pending False P) d) (hdlc_open (hdlc_open [] (hdlc_symbols False P))
     (hdlc_symbols (hdlc_pending False P) d)) s \<longleftrightarrow> rx_after z (P @ d) s"
  by (simp add: rx_after_def hdlc_symbols_append)

lemma rx_after_idle: "rx_ok s \<Longrightarrow> rx_idle s \<Longrightarrow> rx_after z [] s"
  by (simp add: rx_after_def rx_at_idle)

lemma rx_after_view:
  assumes "rx_after z P s" "rx_buffer t = rx_buffer s" "rx_buffer_len t = rx_buffer_len s" "crc t = crc s"
    "next_escaped t = next_escaped s"
  shows "rx_after z P t"
  using assms by (auto simp: rx_after_def rx_at_def)

context stream_client
begin

text \<open>The work item: what it claims is processed, then released.\<close>

lemma handler_step:
  assumes "rx_after z P s" "hdlc_rx_handler cb z s = Inr t" "ring_buf_get_claim z HDLC_RX_BUF_SIZE (world s) = (d, w)"
  obtains w' r where "Q w w'" "ring_buf_get_finish z (length d) w' = (r, world t)" "rx_after z (P @ d) t"
    "rx_work_pending t = rx_work_pending s"
proof -
  obtain u where u: "foldres (hdlc_rx_input_byte cb z) d (s\<lparr>world := w\<rparr>) = Inr u"
    "t = u\<lparr>world := snd (ring_buf_get_finish z (length d) (world u))\<rparr>"
    using assms(2,3) by (auto simp: hdlc_rx_handler_def hdlc_process_buffer_def Let_def split_def)
  have "rx_after z P (s\<lparr>world := w\<rparr>)" by (rule rx_after_view [OF assms(1)]) simp_all
  from stream_step [OF this [unfolded rx_after_def] u(1)]
  have "rx_after z (P @ d) u" "Q w (world u)" "rx_work_pending u = rx_work_pending s" by (simp_all add: rx_after_append)
  moreover have "rx_after z (P @ d) t" if "rx_after z (P @ d) u"
    by (rule rx_after_view [OF that]) (use u(2) in simp_all)
  ultimately show ?thesis
    using that [of "world u" "fst (ring_buf_get_finish z (length d) (world u))"] u(2) by simp
qed

end

interpretation recorder: stream_client recording_cb "(=)"
  by unfold_locales (auto simp: recording_cb_def rx_view_def)

section \<open>The ring buffer and the UART\<close>

text \<open>
  Two views of the platform's state: the bytes the UART driver has handed out so far, and the contents
  of the driver's ring buffer.  The documented behaviour of the calls in terms of them: claiming does not change
  the contents; a claim to write is bounded by the free space, a claim to read is a prefix of the contents,
  not empty unless they are; finishing a write appends, finishing a read removes from the front; a read
  from the UART hands out the bytes it counts; and no other call touches either.
\<close>

definition same_rx :: "('w \<Rightarrow> byte list) \<Rightarrow> ('w \<Rightarrow> byte list) \<Rightarrow> 'w \<Rightarrow> 'w \<Rightarrow> bool" where
  "same_rx got ring w w' \<longleftrightarrow> got w' = got w \<and> ring w' = ring w"

definition ring_put_documented :: "'w zephyr \<Rightarrow> ('w \<Rightarrow> byte list) \<Rightarrow> ('w \<Rightarrow> byte list) \<Rightarrow> bool" where
  "ring_put_documented z got ring \<longleftrightarrow>
     (\<forall>n w k w'. ring_buf_put_claim z n w = (k, w') \<longrightarrow>
        same_rx got ring w w' \<and> k \<le> n \<and> k \<le> HDLC_RX_BUF_SIZE - length (ring w)) \<and>
     (\<forall>bs w r w'. length (ring w) + length bs \<le> HDLC_RX_BUF_SIZE \<longrightarrow> ring_buf_put_finish z bs w = (r, w') \<longrightarrow>
        got w' = got w \<and> ring w' = ring w @ bs)"

definition ring_get_documented :: "'w zephyr \<Rightarrow> ('w \<Rightarrow> byte list) \<Rightarrow> ('w \<Rightarrow> byte list) \<Rightarrow> bool" where
  "ring_get_documented z got ring \<longleftrightarrow>
     (\<forall>n w d w'. ring_buf_get_claim z n w = (d, w') \<longrightarrow>
        same_rx got ring w w' \<and> (\<exists>rest. ring w = d @ rest) \<and> length d \<le> n \<and> (0 < n \<longrightarrow> ring w \<noteq> [] \<longrightarrow> d \<noteq> [])) \<and>
     (\<forall>n w r w'. n \<le> length (ring w) \<longrightarrow> ring_buf_get_finish z n w = (r, w') \<longrightarrow>
        got w' = got w \<and> ring w' = drop n (ring w))"

definition fifo_documented :: "'w zephyr \<Rightarrow> ('w \<Rightarrow> byte list) \<Rightarrow> ('w \<Rightarrow> byte list) \<Rightarrow> bool" where
  "fifo_documented z got ring \<longleftrightarrow>
     (\<forall>n w r bs w'. uart_fifo_read z n w = (r, bs, w') \<longrightarrow> ring w' = ring w \<and>
        (if r < 0 then got w' = got w else r \<le> int n \<and> length bs = nat r \<and> got w' = got w @ bs))"

definition uart_documented :: "'w zephyr \<Rightarrow> ('w \<Rightarrow> byte list) \<Rightarrow> ('w \<Rightarrow> byte list) \<Rightarrow> bool" where
  "uart_documented z got ring \<longleftrightarrow> calls_keep z (same_rx got ring) \<and> ring_put_documented z got ring \<and>
     ring_get_documented z got ring \<and> fifo_documented z got ring"

lemma uart_keeps: "uart_documented z got ring \<Longrightarrow> calls_keep z (same_rx got ring)"
  by (simp add: uart_documented_def)

lemma put_claimD:
  assumes "uart_documented z got ring" "ring_buf_put_claim z n w = (k, w')"
  shows "got w' = got w" "ring w' = ring w" "k \<le> n" "k \<le> HDLC_RX_BUF_SIZE - length (ring w)"
  using assms unfolding uart_documented_def ring_put_documented_def same_rx_def by blast+

lemma put_finishD:
  assumes "uart_documented z got ring" "ring_buf_put_finish z bs w = (r, w')" "length (ring w) + length bs \<le> HDLC_RX_BUF_SIZE"
  shows "got w' = got w" "ring w' = ring w @ bs"
  using assms unfolding uart_documented_def ring_put_documented_def by blast+

lemma get_claimD:
  assumes "uart_documented z got ring" "ring_buf_get_claim z n w = (d, w')"
  shows "got w' = got w" "ring w' = ring w" "\<exists>rest. ring w = d @ rest" "0 < n \<Longrightarrow> ring w \<noteq> [] \<Longrightarrow> d \<noteq> []"
  using assms unfolding uart_documented_def ring_get_documented_def same_rx_def by blast+

lemma get_finishD:
  assumes "uart_documented z got ring" "ring_buf_get_finish z n w = (r, w')" "n \<le> length (ring w)"
  shows "got w' = got w" "ring w' = drop n (ring w)"
  using assms unfolding uart_documented_def ring_get_documented_def by blast+

lemma fifo_readD:
  assumes "uart_documented z got ring" "uart_fifo_read z n w = (r, bs, w')"
  shows "ring w' = ring w" "r < 0 \<Longrightarrow> got w' = got w"
    "0 \<le> r \<Longrightarrow> r \<le> int n \<and> length bs = nat r \<and> got w' = got w @ bs"
  using assms unfolding uart_documented_def fifo_documented_def by (metis linorder_not_less)+

text \<open>
  The firmware's handlers respect the two views whenever the platform's calls do; the implication makes
  this hold of every platform.
\<close>

interpretation io: rx_frame z "\<lambda>w w'. calls_keep z (same_rx got ring) \<longrightarrow> same_rx got ring w w'" "\<lambda>h. True"
  for z :: "'w zephyr" and got ring :: "'w \<Rightarrow> byte list"
  by unfold_locales (auto simp: same_rx_def calls_keep_def)

interpretation fw_client: stream_client "main_process_complete_frame z mdns"
    "\<lambda>w w'. calls_keep z (same_rx got ring) \<longrightarrow> same_rx got ring w w'"
  for z :: "'w zephyr" and mdns got ring
proof unfold_locales
  fix buf len a s r and s' :: "('w, 'b) fws"
  assume "main_process_complete_frame z mdns buf len a s = Inr (r, s')"
  from okrD [OF io.host_frame_since [OF io.since_refl [OF TrueI]] this]
  show "rx_view s' = rx_view s \<and> (calls_keep z (same_rx got ring) \<longrightarrow> same_rx got ring (world s) (world s'))"
    by (simp add: io.since_def)
qed (auto simp: same_rx_def)

section \<open>The stream through interrupt, ring and work item\<close>

text \<open>
  The bytes handed out by the UART are those the driver has processed, followed by those in the ring;
  and the driver is where the decoder is after the processed ones.
\<close>

definition rx_flow :: "'w zephyr \<Rightarrow> ('w \<Rightarrow> byte list) \<Rightarrow> ('w \<Rightarrow> byte list) \<Rightarrow> ('w, 'a) hd \<Rightarrow> bool" where
  "rx_flow z got ring s \<longleftrightarrow>
     (\<exists>P. got (world s) = P @ ring (world s) \<and> rx_after z P s) \<and> length (ring (world s)) \<le> HDLC_RX_BUF_SIZE"

lemma rx_flow_cong:
  assumes "rx_flow z got ring s" "same_rx got ring (world s) (world t)" "rx_buffer t = rx_buffer s"
    "rx_buffer_len t = rx_buffer_len s" "crc t = crc s" "next_escaped t = next_escaped s"
  shows "rx_flow z got ring t"
  using assms rx_after_view [of z _ s t] unfolding rx_flow_def same_rx_def by metis

lemma rx_flow_pending [simp]: "rx_flow z got ring (s\<lparr>rx_work_pending := p\<rparr>) = rx_flow z got ring s"
  by (simp add: rx_flow_def rx_after_def rx_at_def)

lemma serial_callback_rx:
  assumes u: "uart_documented z got ring" and s: "length (ring (world s)) \<le> HDLC_RX_BUF_SIZE"
  obtains bs where "got (world (serial_callback z s)) = got (world s) @ bs" "ring (world (serial_callback z s)) = ring (world s) @ bs"
    "length (ring (world (serial_callback z s))) \<le> HDLC_RX_BUF_SIZE"
    "rx_buffer (serial_callback z s) = rx_buffer s" "rx_buffer_len (serial_callback z s) = rx_buffer_len s"
    "crc (serial_callback z s) = crc s" "next_escaped (serial_callback z s) = next_escaped s"
proof -
  have k: "same_rx got ring w (snd (uart_irq_update z w))" "same_rx got ring w (snd (uart_irq_rx_ready z w))" for w
    using uart_keeps [OF u] by (auto simp: calls_keep_def)
  define w1 where "w1 = (if fst (uart_irq_update z (world s)) then snd (uart_irq_update z (world s))
    else snd (uart_irq_rx_ready z (snd (uart_irq_update z (world s)))))"
  have w1: "same_rx got ring (world s) w1"
    using k(1) [of "world s"] k(2) [of "snd (uart_irq_update z (world s))"] by (auto simp: w1_def same_rx_def)
  obtain n w2 where c: "ring_buf_put_claim z HDLC_RX_BUF_SIZE w1 = (n, w2)" by fastforce
  obtain r bs w3 where f: "uart_fifo_read z n w2 = (r, bs, w3)" by (metis prod_cases3)
  obtain q w4 where p: "ring_buf_put_finish z (take (nat r) bs) w3 = (q, w4)" by fastforce
  note c' = put_claimD [OF u c] and f' = fifo_readD [OF u f]
  let ?t = "serial_callback z s"
  have "?t \<in> {s\<lparr>world := w1\<rparr>, s\<lparr>world := w2\<rparr>} \<or> r < 0 \<and> ?t = s\<lparr>world := w3\<rparr> \<or>
      0 \<le> r \<and> ?t = s\<lparr>world := w4, rx_work_pending := True\<rparr>"
    using c f p by (auto simp: serial_callback_def hdlc_rx_start_def hdlc_rx_finish_def w1_def Let_def split_def)
  moreover have "got w4 = got (world s) @ bs \<and> ring w4 = ring (world s) @ bs \<and> length (ring w4) \<le> HDLC_RX_BUF_SIZE" if r: "0 \<le> r"
  proof -
    have bs: "take (nat r) bs = bs" "length (ring w3) + length bs \<le> HDLC_RX_BUF_SIZE"
      using f'(1) f'(3) [OF r] c'(2,4) w1 s by (auto simp: same_rx_def)
    then show ?thesis
      using put_finishD [OF u p] f'(1) f'(3) [OF r] c'(1,2) w1 by (auto simp: same_rx_def)
  qed
  ultimately show ?thesis
    using that [of "[]"] that [of bs] w1 c'(1,2) f'(1,2) s by (auto simp: same_rx_def)
qed

text \<open>The work item moves bytes from the ring to the driver; one run takes at least one if there is one.\<close>

lemma handler_flow:
  assumes "stream_client cb Q" "\<And>w w'. Q w w' \<Longrightarrow> same_rx got ring w w'"
    and u: "uart_documented z got ring" and s: "rx_flow z got ring s" and h: "hdlc_rx_handler cb z s = Inr t"
  shows "rx_flow z got ring t" "got (world t) = got (world s)" "rx_work_pending t = rx_work_pending s"
    "ring (world s) \<noteq> [] \<Longrightarrow> length (ring (world t)) < length (ring (world s))"
proof -
  obtain d w where c: "ring_buf_get_claim z HDLC_RX_BUF_SIZE (world s) = (d, w)" by fastforce
  note c' = get_claimD [OF u c]
  obtain rest where rest: "ring (world s) = d @ rest" using c'(3) by blast
  obtain P where P: "got (world s) = P @ ring (world s)" "rx_after z P s" "length (ring (world s)) \<le> HDLC_RX_BUF_SIZE"
    using s by (auto simp: rx_flow_def)
  obtain w' r where w': "Q w w'" "ring_buf_get_finish z (length d) w' = (r, world t)" "rx_after z (P @ d) t"
    "rx_work_pending t = rx_work_pending s"
    by (rule stream_client.handler_step [OF assms(1) P(2) h c])
  have q: "got w' = got (world s)" "ring w' = ring (world s)" using assms(2) [OF w'(1)] c' by (auto simp: same_rx_def)
  have "length d \<le> length (ring w')" using q rest by simp
  then have g: "got (world t) = got (world s)" "ring (world t) = rest" using get_finishD [OF u w'(2)] q rest by auto
  show "rx_flow z got ring t" using g P rest w'(3) by (auto simp: rx_flow_def)
  show "got (world t) = got (world s)" "rx_work_pending t = rx_work_pending s" by (fact g(1), fact w'(4))
  show "length (ring (world t)) < length (ring (world s))" if "ring (world s) \<noteq> []"
    using c'(4) that g(2) rest by (simp add: HDLC_RX_BUF_SIZE_def)
qed

text \<open>A thread other than the work item touches neither the ring nor the driver's receive state.\<close>

lemma thread_step_rx:
  assumes u: "uart_documented z got ring" and lg: "log_keeps lg (same_rx got ring)"
    and st: "thread_step z lg mdns node1 (p, s) (q, t)" and "work_pc q = work_pc p"
  shows "same_rx got ring (world s) (world t) \<and> rx_view t = rx_view s"
  using io.thread_step_since [OF log_keeps_mono [OF lg] st _ assms(4), where got = got and ring = ring, unfolded io.since_def]
    uart_keeps [OF u]
  by auto

lemma host_client:
  "stream_client (main_process_complete_frame z mdns) (\<lambda>w w'. calls_keep z (same_rx got ring) \<longrightarrow> same_rx got ring w w')"
  by unfold_locales

text \<open>
  Under preemption: while the work item is at its bytes, those it has processed are still in the ring.
  \<open>claimed p\<close> is their number; the bytes it has yet to process are those behind them.
\<close>

definition claimed :: "positions \<Rightarrow> nat" where
  "claimed p = (case work_pc p of WorkIdle \<Rightarrow> 0 | WorkBytes bs n \<Rightarrow> n - length bs)"

definition claim_ok :: "positions \<Rightarrow> byte list \<Rightarrow> bool" where
  "claim_ok p r = (case work_pc p of WorkIdle \<Rightarrow> True
     | WorkBytes bs n \<Rightarrow> length bs \<le> n \<and> (\<exists>rest. drop (n - length bs) r = bs @ rest) \<and> n \<le> length r)"

definition conf_flow :: "'w zephyr \<Rightarrow> ('w \<Rightarrow> byte list) \<Rightarrow> ('w \<Rightarrow> byte list) \<Rightarrow> ('w, 'a) conf \<Rightarrow> bool" where
  "conf_flow z got ring c = (case c of (p, s) \<Rightarrow>
     (\<exists>P. got (world s) = P @ drop (claimed p) (ring (world s)) \<and> rx_after z P s) \<and>
     claim_ok p (ring (world s)) \<and> length (ring (world s)) \<le> HDLC_RX_BUF_SIZE)"

lemma conf_flow_idle: "work_pc p = WorkIdle \<Longrightarrow> conf_flow z got ring (p, s) \<longleftrightarrow> rx_flow z got ring s"
  by (simp add: conf_flow_def rx_flow_def claimed_def claim_ok_def)

lemma serial_callback_flow:
  assumes u: "uart_documented z got ring" and s: "conf_flow z got ring (p, s)"
  shows "conf_flow z got ring (p, serial_callback z s)"
proof -
  have len: "length (ring (world s)) \<le> HDLC_RX_BUF_SIZE" using s by (simp add: conf_flow_def)
  obtain bs where t: "got (world (serial_callback z s)) = got (world s) @ bs" "ring (world (serial_callback z s)) = ring (world s) @ bs"
    "length (ring (world (serial_callback z s))) \<le> HDLC_RX_BUF_SIZE"
    "rx_buffer (serial_callback z s) = rx_buffer s" "rx_buffer_len (serial_callback z s) = rx_buffer_len s"
    "crc (serial_callback z s) = crc s" "next_escaped (serial_callback z s) = next_escaped s"
    by (rule serial_callback_rx [OF u len])
  have c: "claim_ok p (ring (world s))" "claimed p \<le> length (ring (world s))"
    using s by (auto simp: conf_flow_def claimed_def claim_ok_def split: work_pc.splits)
  have "claim_ok p (ring (world s) @ bs)" using c(1) by (auto simp: claim_ok_def split: work_pc.splits)
  moreover obtain P where "got (world s) = P @ drop (claimed p) (ring (world s))" "rx_after z P s"
    using s by (auto simp: conf_flow_def)
  ultimately show ?thesis
    using t c(2) rx_after_view [OF _ t(4-7)] by (auto simp: conf_flow_def)
qed

lemma thread_step_flow:
  assumes u: "uart_documented z got ring" and lg: "log_keeps lg (same_rx got ring)"
    and s: "conf_flow z got ring (p, s)" and st: "thread_step z lg mdns node1 (p, s) (q, t)"
  shows "conf_flow z got ring (q, t)"
proof (cases "work_pc q = work_pc p")
  case True
  have pc: "claimed q = claimed p" "claim_ok q = claim_ok p" using True by (simp_all add: claimed_def claim_ok_def fun_eq_iff)
  have rx: "got (world t) = got (world s)" "ring (world t) = ring (world s)" "rx_view t = rx_view s"
    using thread_step_rx [OF u lg st True] by (simp_all add: same_rx_def)
  then have "rx_after z P t" if "rx_after z P s" for P by (intro rx_after_view [OF that]) (simp_all add: rx_view_def)
  then show ?thesis using s pc rx(1,2) by (auto simp: conf_flow_def)
next
  case False
  obtain P where P: "got (world s) = P @ drop (claimed p) (ring (world s))" "rx_after z P s" "claim_ok p (ring (world s))"
    "length (ring (world s)) \<le> HDLC_RX_BUF_SIZE" using s by (auto simp: conf_flow_def)
  from st show ?thesis
  proof cases
    case (work_claim d w)
    note c = get_claimD [OF u work_claim(5)]
    have "rx_after z P t" by (rule rx_after_view [OF P(2)]) (simp_all add: work_claim)
    moreover obtain rest where "ring (world s) = d @ rest" using c(3) by blast
    ultimately show ?thesis using P c(1,2) work_claim by (auto simp: conf_flow_def claimed_def claim_ok_def)
  next
    case (work_byte b bs n)
    note b = fw_client.byte_step [OF P(2) [unfolded rx_after_def] work_byte(3), where got = got and ring = ring]
    have t: "rx_after z (P @ [b]) t" "same_rx got ring (world s) (world t)"
      using b uart_keeps [OF u] rx_after_append [of z P "[b]" t] by simp_all
    obtain rest where r: "drop (n - Suc (length bs)) (ring (world s)) = b # bs @ rest" "Suc (length bs) \<le> n"
      "n \<le> length (ring (world s))"
      using P(3) work_byte(2) by (auto simp: claim_ok_def)
    have "n - length bs = Suc (n - Suc (length bs))" using r(2) by simp
    then have "drop (n - length bs) (ring (world s)) = bs @ rest" using r(1) by (simp add: drop_Suc drop_tl)
    then show ?thesis
      using P(1,4) t r work_byte(1,2) by (auto simp: conf_flow_def claimed_def claim_ok_def same_rx_def intro!: exI [of _ "P @ [b]"])
  next
    case (work_finish n r w)
    have n: "n \<le> length (ring (world s))" "claimed p = n" using P(3) work_finish(3) by (simp_all add: claim_ok_def claimed_def)
    have "rx_after z P t" by (rule rx_after_view [OF P(2)]) (simp_all add: work_finish)
    then show ?thesis
      using P(1,4) n get_finishD [OF u work_finish(4) n(1)] work_finish(1,2)
      by (auto simp: conf_flow_def claimed_def claim_ok_def)
  qed (use False in auto)
qed

lemma fw_step_flow:
  "uart_documented z got ring \<Longrightarrow> log_keeps lg (same_rx got ring) \<Longrightarrow> conf_flow z got ring c \<Longrightarrow>
   fw_step z lg mdns node1 c d \<Longrightarrow> conf_flow z got ring d"
  by (cases c; cases d) (auto elim!: fw_stepE intro: serial_callback_flow thread_step_flow)

lemma main_flow:
  assumes u: "uart_documented z got ring" and "ring w = []" "got w = []" and "main z mdns (boot w) = (0, s)"
  shows "rx_flow z got ring s"
proof -
  have k: "same_rx got ring v (snd (device_is_ready z v))" "same_rx got ring v (snd (uart_irq_callback_user_data_set z v))"
    "same_rx got ring v (uart_irq_rx_enable z v)" for v
    using uart_keeps [OF u] by (simp_all add: calls_keep_def)
  define t where "t = tcp_discovery_stop z mdns (boot w)"
  have "io.since z got ring (world (boot w)) (rx_view (boot w)) t"
    unfolding t_def by (rule io.tcp_discovery_since(2) [OF io.since_refl [OF TrueI]])
  then have "same_rx got ring (world (boot w)) (world t)" "rx_buffer t = rx_buffer (boot w)"
    using uart_keeps [OF u] unfolding io.since_def rx_view_def by simp_all
  then have t: "got (world t) = []" "ring (world t) = []" "length (rx_buffer t) = HDLC_MAX_BLOCK_SIZE"
    using assms(2,3) by (simp_all add: same_rx_def boot_def)
  have "got (world s) = []" "ring (world s) = []" "rx_ok s" "rx_idle s"
    using assms(4) k t unfolding main_def t_def [symmetric]
    by (auto simp: hdlc_init_def rx_ok_def rx_idle_def same_rx_def ENODEV_def Let_def split_def split: if_splits)
  then show ?thesis using rx_after_idle [of s z] by (auto simp: rx_flow_def)
qed

text \<open>
  C8. Received bytes reach the HDLC driver exactly once and in order.  In every state the firmware gets
  into, however the UART interrupt, the work item and the threads are interleaved, the bytes the UART
  has handed out are the bytes the driver has processed followed by those waiting in the ring behind the
  ones the work item is at; the ring is never overfilled; and the driver's state (pending
  escape, buffer, running check) is the one the reference decoder has after the processed bytes.
\<close>

theorem uart_bytes_in_order:
  assumes "uart_documented z got ring" and "log_keeps lg (same_rx got ring)"
    and "got w = []" and "ring w = []" and "main z mdns (boot w) = (0, s0)"
    and "(fw_step z lg mdns node1)\<^sup>*\<^sup>* (idle, s0) (p, s)"
  shows "\<exists>processed. got (world s) = processed @ drop (claimed p) (ring (world s)) \<and> length (ring (world s)) \<le> 1024 \<and>
    rx_at z (hdlc_pending False processed) (hdlc_open [] (hdlc_symbols False processed)) s"
proof -
  have "conf_flow z got ring (idle, s0)" using main_flow [OF assms(1,4,3,5)] by (simp add: conf_flow_idle idle_def)
  with assms(6) have "conf_flow z got ring (p, s)"
    by (induction rule: rtranclp_induct) (auto intro: fw_step_flow [OF assms(1,2)])
  then show ?thesis by (auto simp: conf_flow_def rx_after_def HDLC_RX_BUF_SIZE_def)
qed

section \<open>A concrete ring\<close>

text \<open>
  A platform whose ring buffer is a circular array of 1024 bytes with a read position, so that a claim
  ends at the end of the array; \<open>line\<close> holds the bytes that have arrived at the UART.
\<close>

record ring_world =
  rd_pos :: nat
  taken :: "byte list"
  contents :: "byte list"
  line :: "byte list"

definition ring_zephyr :: "ring_world zephyr" where
  "ring_zephyr = \<lparr>
     crc16_ccitt = crc16_reflected,
     ring_buf_put_claim = (\<lambda>n w. (min n (min (1024 - length (contents w))
        (1024 - (rd_pos w + length (contents w)) mod 1024)), w)),
     ring_buf_put_finish = (\<lambda>bs w. (0, w\<lparr>contents := contents w @ bs\<rparr>)),
     ring_buf_get_claim = (\<lambda>n w. (take (min n (1024 - rd_pos w mod 1024)) (contents w), w)),
     ring_buf_get_finish = (\<lambda>n w. (0, w\<lparr>rd_pos := (rd_pos w + n) mod 1024, contents := drop n (contents w)\<rparr>)),
     uart_irq_update = (\<lambda>w. (True, w)),
     uart_irq_rx_ready = (\<lambda>w. (True, w)),
     uart_fifo_read = (\<lambda>n w. (int (length (take n (line w))), take n (line w),
        w\<lparr>taken := taken w @ take n (line w), line := drop n (line w)\<rparr>)),
     k_heap_alloc = (\<lambda>n w. (Some (replicate n 0), w)),
     k_heap_free = (\<lambda>p w. w),
     freed_u16 = (\<lambda>p w. 0),
     k_mem_slab_alloc = (\<lambda>occ w. (first_free occ, w)),
     zsock_socket = (\<lambda>inet6 w. (5, w)),
     zsock_connect = (\<lambda>sock addr port w. (0, w)),
     zsock_close = (\<lambda>sock w. w),
     zsock_send = (\<lambda>sock bs w. (int (length bs), w)),
     zsock_recv = (\<lambda>sock n w. (0, [], w)),
     zsock_poll = (\<lambda>fds timeout w. (0, [], w)),
     zsock_socketpair = (\<lambda>w. (0, 10, 11, w)),
     device_is_ready = (\<lambda>w. (True, w)),
     uart_irq_callback_user_data_set = (\<lambda>w. (0, w)),
     uart_irq_rx_enable = (\<lambda>w. w),
     stack_bytes = (\<lambda>n w. replicate n 0),
     zsock_socket_dgram = (\<lambda>w. (6, w)),
     zsock_reuse = (\<lambda>sock w. w),
     zsock_bind = (\<lambda>sock port w. (0, w)),
     zsock_getsockname = (\<lambda>sock w. (0, True, 5353, w)),
     zsock_sendto = (\<lambda>sock bs addr port w. (int (length bs), w)),
     zsock_recvfrom = (\<lambda>sock n w. (0, [], replicate 16 0, w)),
     net_if_get_default = (\<lambda>w. (True, w)),
     net_if_ipv6_maddr_add = (\<lambda>addr w. (True, w)),
     net_if_ipv6_maddr_join = (\<lambda>w. w)\<rparr>"

lemma ring_zephyr_documented: "uart_documented ring_zephyr taken contents"
proof -
  have prefix: "\<exists>rest. contents w = take k (contents w) @ rest" for k w
    by (rule exI [of _ "drop k (contents w)"]) simp
  have "ring_get_documented ring_zephyr taken contents"
    using prefix by (auto simp: ring_get_documented_def ring_zephyr_def same_rx_def)
  moreover have "ring_put_documented ring_zephyr taken contents"
    by (auto simp: ring_put_documented_def ring_zephyr_def same_rx_def HDLC_RX_BUF_SIZE_def)
  moreover have "fifo_documented ring_zephyr taken contents" "calls_keep ring_zephyr (same_rx taken contents)"
    by (simp_all add: fifo_documented_def calls_keep_def same_rx_def ring_zephyr_def)
  ultimately show ?thesis by (simp add: uart_documented_def)
qed

definition ring_log :: "(ring_world, byte list) log_lib" where
  "ring_log = \<lparr>log_backend_std_get_flags = (\<lambda>w. (0, w)),
     log_output_msg_process = (\<lambda>n msg flags w. Log_out (take n msg) (\<lambda>r. Log_done w)),
     log_backend_std_dropped = (\<lambda>n cnt w. Log_done w), log_backend_std_panic = (\<lambda>n w. Log_done w)\<rparr>"

lemma ring_log_keeps: "log_keeps ring_log (same_rx taken contents)"
  by (simp add: log_keeps_def ring_log_def same_rx_def)

definition ring_boot :: "byte list \<Rightarrow> ring_world fw_state" where
  "ring_boot bs = boot \<lparr>rd_pos = 0, taken = [], contents = [], line = bs\<rparr>"

lemma ring_main: "main ring_zephyr mdns (ring_boot bs) = (0, snd (main ring_zephyr mdns (ring_boot bs)))"
  by (simp add: main_def ring_zephyr_def Let_def split_def)

definition ring_after_irq :: "ring_world fw_state" where
  "ring_after_irq = serial_callback ring_zephyr (snd (main ring_zephyr False (ring_boot [0x7E, 1])))"

theorem uart_bytes_in_order_witness:
  "\<exists>processed. taken (world ring_after_irq) = processed @ drop (claimed idle) (contents (world ring_after_irq)) \<and>
    length (contents (world ring_after_irq)) \<le> 1024 \<and>
    rx_at ring_zephyr (hdlc_pending False processed) (hdlc_open [] (hdlc_symbols False processed)) ring_after_irq"
  unfolding ring_after_irq_def
  by (rule uart_bytes_in_order [OF ring_zephyr_documented ring_log_keeps _ _
        ring_main [where mdns = False and bs = "[0x7E, 1]", unfolded ring_boot_def]])
    (simp_all add: ring_boot_def r_into_rtranclp fw_step.uart_irq)

section \<open>Draining the ring\<close>

primrec rx_runs :: "('w, 'a) process_cb \<Rightarrow> 'w zephyr \<Rightarrow> nat \<Rightarrow> ('w, 'a) hd \<Rightarrow> ('w, 'a) hd res" where
  "rx_runs cb z 0 s = Inr s"
| "rx_runs cb z (Suc n) s = bnd (hdlc_rx_handler cb z s) (rx_runs cb z n)"

lemma hdlc_decode_append:
  "hdlc_decode z (P @ d) = hdlc_decode z P @
     concat (map (hdlc_accept z) (hdlc_bodies (hdlc_open [] (hdlc_symbols False P)) (hdlc_symbols (hdlc_pending False P) d)))"
  by (simp add: hdlc_decode_def hdlc_symbols_append hdlc_bodies_append)

lemma recorder_handler:
  assumes u: "uart_documented z got ring" and P: "got (world s) = P @ ring (world s)" "rx_after z P s"
    and d: "delivered s = hdlc_decode z P"
  obtains t Q where "hdlc_rx_handler recording_cb z s = Inr t" "got (world t) = Q @ ring (world t)" "rx_after z Q t"
    "delivered t = hdlc_decode z Q" "got (world t) = got (world s)"
    "ring (world s) \<noteq> [] \<Longrightarrow> length (ring (world t)) < length (ring (world s))"
proof -
  obtain d w where c: "ring_buf_get_claim z HDLC_RX_BUF_SIZE (world s) = (d, w)" by fastforce
  note c' = get_claimD [OF u c]
  obtain rest where rest: "ring (world s) = d @ rest" using c'(3) by blast
  have "rx_after z P (s\<lparr>world := w\<rparr>)" by (rule rx_after_view [OF P(2)]) simp_all
  from rx_stream [OF this [unfolded rx_after_def], of d] obtain v where
    v: "foldres (hdlc_rx_input_byte recording_cb z) d (s\<lparr>world := w\<rparr>) = Inr v" "rx_after z (P @ d) v"
      "delivered v = hdlc_decode z (P @ d)"
    by (auto simp: rx_after_append hdlc_decode_append assms(4))
  have w: "world v = w"
    using recorder.stream_step [OF \<open>rx_after z P (s\<lparr>world := w\<rparr>)\<close> [unfolded rx_after_def] v(1)] by simp
  obtain r w' where f: "ring_buf_get_finish z (length d) w = (r, w')" by fastforce
  have g: "got w' = got (world s)" "ring w' = rest" using get_finishD [OF u f] c'(1,2) rest by auto
  let ?t = "v\<lparr>world := w'\<rparr>"
  have run: "hdlc_rx_handler recording_cb z s = Inr ?t"
    using c v(1) w f by (simp add: hdlc_rx_handler_def hdlc_process_buffer_def)
  have after: "rx_after z (P @ d) ?t" by (rule rx_after_view [OF v(2)]) simp_all
  have less: "length (ring (world ?t)) < length (ring (world s))" if ne: "ring (world s) \<noteq> []"
  proof -
    have "d \<noteq> []" by (rule c'(4) [OF _ ne]) (simp add: HDLC_RX_BUF_SIZE_def)
    then show ?thesis by (simp add: g(2) rest)
  qed
  show ?thesis by (rule that [OF run _ after _ _ less]) (use g P(1) rest v(3) in simp_all)
qed

text \<open>
  C18. The ring drains.  Whatever is in the ring, running the work item at most as often as there are
  bytes waiting empties it, each run returning; afterwards the client has been handed every frame of
  all the bytes the UART has delivered.  In particular a run never leaves a non-empty ring as it was,
  however short a contiguous piece the ring buffer offers.
\<close>

theorem rx_ring_drains:
  assumes "uart_documented z got ring" and "got (world s) = P @ ring (world s)" and "rx_after z P s"
    and "delivered s = hdlc_decode z P"
  shows "\<exists>n t. n \<le> length (ring (world s)) \<and> rx_runs recording_cb z n s = Inr t \<and> ring (world t) = [] \<and>
    got (world t) = got (world s) \<and> delivered t = hdlc_decode z (got (world s))"
  using assms(2-4)
proof (induction "length (ring (world s))" arbitrary: s P rule: less_induct)
  case less
  show ?case
  proof (cases "ring (world s) = []")
    case True
    then show ?thesis using less.prems by (intro exI [of _ 0] exI [of _ s]) simp
  next
    case False
    obtain t Q where t: "hdlc_rx_handler recording_cb z s = Inr t" "got (world t) = Q @ ring (world t)" "rx_after z Q t"
      "delivered t = hdlc_decode z Q" "got (world t) = got (world s)" "length (ring (world t)) < length (ring (world s))"
      using recorder_handler [OF assms(1) less.prems] False by metis
    from less.hyps [OF t(6,2,3,4)] obtain n v where
      v: "n \<le> length (ring (world t))" "rx_runs recording_cb z n t = Inr v" "ring (world v) = []"
        "got (world v) = got (world t)" "delivered v = hdlc_decode z (got (world t))" by blast
    then show ?thesis using t by (intro exI [of _ "Suc n"] exI [of _ v]) simp
  qed
qed

definition ring_recorder :: "nat \<Rightarrow> byte list \<Rightarrow> ring_world recorder" where
  "ring_recorder pos bs =
     \<lparr>world = \<lparr>rd_pos = pos, taken = bs, contents = bs, line = []\<rparr>, uart_tx = [], crc = 0xffff, next_escaped = False,
      rx_send_seq = 0, send_seq = 0, rx_buffer_len = 0, rx_buffer = replicate HDLC_MAX_BLOCK_SIZE 0,
      rx_work_pending = True, delivered = []\<rparr>"

lemma ring_recorder_after: "rx_after z [] (ring_recorder pos bs)"
  by (rule rx_after_idle) (simp_all add: ring_recorder_def rx_ok_def rx_idle_def)

theorem rx_ring_drains_witness:
  "\<exists>n t. n \<le> length (contents (world (ring_recorder 1022 [0x7E, 1, 3, 0x7E]))) \<and>
    rx_runs recording_cb ring_zephyr n (ring_recorder 1022 [0x7E, 1, 3, 0x7E]) = Inr t \<and> contents (world t) = [] \<and>
    taken (world t) = taken (world (ring_recorder 1022 [0x7E, 1, 3, 0x7E])) \<and>
    delivered t = hdlc_decode ring_zephyr (taken (world (ring_recorder 1022 [0x7E, 1, 3, 0x7E])))"
  by (rule rx_ring_drains [OF ring_zephyr_documented, where P = "[]"])
    (simp_all add: ring_recorder_after, simp_all add: ring_recorder_def)

section \<open>A tail that waits\<close>

lemma work_rests:
  assumes "thread_step z lg mdns node1 (p, s) (q, t)" "work_pc p = WorkIdle" "\<not> rx_work_pending s"
  shows "work_pc q = work_pc p"
  using assms by cases simp_all

text \<open>
  C34. The work item claims once and is submitted once per interrupt.  If the ring buffer offers less
  than it holds, as it does when the contents wrap around the end of the array, the rest stays in the
  ring with no work pending: whatever the threads do, in any order, not one of these bytes is processed before the
  UART delivers another one.
\<close>

theorem wrapped_tail_waits:
  assumes "uart_documented z got ring" and "log_keeps lg (same_rx got ring)" and "rx_flow z got ring s"
    and "ring_buf_get_claim z HDLC_RX_BUF_SIZE (world s) = (d, w)" and "d \<noteq> ring (world s)"
    and "hdlc_rx_handler (main_process_complete_frame z mdns) z (s\<lparr>rx_work_pending := False\<rparr>) = Inr t"
    and "work_pc p = WorkIdle" and "(thread_step z lg mdns node1)\<^sup>*\<^sup>* (p, t) (q, t')"
  shows "\<exists>rest. ring (world s) = d @ rest \<and> rest \<noteq> [] \<and> ring (world t') = rest \<and> \<not> rx_work_pending t' \<and>
    rx_view t' = rx_view t"
proof -
  let ?s = "s\<lparr>rx_work_pending := False\<rparr>"
  note c = get_claimD [OF assms(1,4)]
  obtain rest where rest: "ring (world s) = d @ rest" "rest \<noteq> []" using c(3) assms(5) by fastforce
  have flow: "rx_flow z got ring ?s" using assms(3) by simp
  have "rx_flow z got ring t" "\<not> rx_work_pending t" "got (world t) = got (world s)"
    using handler_flow [OF host_client [where got = got and ring = ring] _ assms(1) flow assms(6)] uart_keeps [OF assms(1)]
    by simp_all
  moreover have "ring (world t) = rest"
  proof -
    obtain P where P: "rx_after z P ?s" using flow by (auto simp: rx_flow_def)
    obtain w' r where "calls_keep z (same_rx got ring) \<longrightarrow> same_rx got ring w w'"
      "ring_buf_get_finish z (length d) w' = (r, world t)"
      by (rule stream_client.handler_step [OF host_client [where got = got and ring = ring] P assms(6)]) (use assms(4) in simp)+
    then show ?thesis using get_finishD(2) [OF assms(1)] uart_keeps [OF assms(1)] c(2) rest by (auto simp: same_rx_def)
  qed
  moreover have "work_pc q = WorkIdle \<and> ring (world t') = ring (world t) \<and> rx_view t' = rx_view t \<and> \<not> rx_work_pending t'"
    using assms(8)
  proof (induction rule: rtranclp_induct2)
    case refl
    then show ?case using \<open>\<not> rx_work_pending t\<close> assms(7) by simp
  next
    case (step p1 u q1 v)
    then have "work_pc q1 = work_pc p1" using work_rests [OF step(2)] by simp
    then show ?case using thread_step_rx [OF assms(1,2) step(2)] step(3) by (auto simp: same_rx_def rx_view_def)
  qed
  ultimately show ?thesis using rest by blast
qed

definition ring_fw :: "nat \<Rightarrow> byte list \<Rightarrow> ring_world fw_state" where
  "ring_fw pos bs = (boot \<lparr>rd_pos = pos, taken = bs, contents = bs, line = []\<rparr>)\<lparr>crc := 0xffff, rx_work_pending := True\<rparr>"

lemma ring_fw_flow: "length bs \<le> HDLC_RX_BUF_SIZE \<Longrightarrow> rx_flow ring_zephyr taken contents (ring_fw pos bs)"
proof -
  have "rx_after ring_zephyr [] (ring_fw pos bs)"
    by (rule rx_after_idle) (simp_all add: ring_fw_def boot_def rx_ok_def rx_idle_def)
  then show "length bs \<le> HDLC_RX_BUF_SIZE \<Longrightarrow> ?thesis" by (auto simp: rx_flow_def ring_fw_def boot_def)
qed

theorem wrapped_tail_waits_witness:
  "\<exists>t. hdlc_rx_handler (main_process_complete_frame ring_zephyr False) ring_zephyr
      ((ring_fw 1022 [0x7E, 1, 3, 0x7E])\<lparr>rx_work_pending := False\<rparr>) = Inr t \<and>
    (\<exists>rest. contents (world (ring_fw 1022 [0x7E, 1, 3, 0x7E])) = [0x7E, 1] @ rest \<and> rest \<noteq> [] \<and> contents (world t) = rest \<and>
      \<not> rx_work_pending t \<and> rx_view t = rx_view t)"
proof -
  let ?s = "ring_fw 1022 [0x7E, 1, 3, 0x7E]"
  have c: "ring_buf_get_claim ring_zephyr HDLC_RX_BUF_SIZE (world ?s) = ([0x7E, 1], world ?s)"
    by (simp add: ring_zephyr_def ring_fw_def boot_def HDLC_RX_BUF_SIZE_def)
  have "\<exists>t. hdlc_rx_handler (main_process_complete_frame ring_zephyr False) ring_zephyr (?s\<lparr>rx_work_pending := False\<rparr>) = Inr t"
    by (simp add: hdlc_rx_handler_def c hdlc_process_buffer_def)
      (simp add: hdlc_rx_input_byte_def hdlc_save_byte_def ring_fw_def boot_def hdlc_consts Let_def split_def)
  then obtain t where t: "hdlc_rx_handler (main_process_complete_frame ring_zephyr False) ring_zephyr
      (?s\<lparr>rx_work_pending := False\<rparr>) = Inr t" by blast
  have "[0x7E, 1] \<noteq> contents (world ?s)" by (simp add: ring_fw_def boot_def)
  moreover have "work_pc idle = WorkIdle" by (simp add: idle_def)
  ultimately have "\<exists>rest. contents (world ?s) = [0x7E, 1] @ rest \<and> rest \<noteq> [] \<and> contents (world t) = rest \<and> \<not> rx_work_pending t \<and>
      rx_view t = rx_view t"
    by (intro wrapped_tail_waits [OF ring_zephyr_documented ring_log_keeps ring_fw_flow c _ t _ rtranclp.rtrancl_refl])
      (simp_all add: HDLC_RX_BUF_SIZE_def)
  with t show ?thesis by (auto simp: HDLC_RX_BUF_SIZE_def)
qed

end
