(* ===== verification/Message_Types.thy ===== *)
theory Message_Types
  imports Rx_Frame
begin

text \<open>
  The type invariant of messages: the size field of every message on the heap is the size of its block.
  Every copy in the sources trusts that field, so the invariant is what keeps them inside the block.
\<close>

definition heap_typed :: "'w zephyr \<Rightarrow> (nat \<rightharpoonup> gb_message) \<Rightarrow> bool" where
  "heap_typed z h \<longleftrightarrow> (heap_documented z \<longrightarrow> heap_bounded z \<longrightarrow> (\<forall>p m. h p = Some m \<longrightarrow> typed_msg m))"

interpretation typed: rx_frame z "\<lambda>_ _. True" "heap_typed z" for z :: "'w zephyr"
  by unfold_locales (auto simp: calls_keep_def heap_typed_def typed_msg_def wf_msg_def)

lemma main_typed:
  "rx_ok (snd (main z mdns (boot w))) \<and> heap_typed z (msg_heap (snd (main z mdns (boot w))))"
proof -
  have "heap_typed z (msg_heap (snd (main z mdns (boot w))))"
    by (simp add: main_def tcp_discovery_stop_def hdlc_init_def heap_typed_def boot_def Let_def split_def)
  moreover have "rx_ok (snd (main z mdns (boot w)))" by (rule fw_invD(1) [OF main_inv [OF boot_inv]])
  ultimately show ?thesis by simp
qed

definition messages_typed :: "('w, 'a) gs \<Rightarrow> bool" where
  "messages_typed s \<longleftrightarrow> rx_ok s \<and> ran (msg_heap s) \<subseteq> {m. typed_msg m}"

lemma messages_typed_iff:
  "heap_documented z \<Longrightarrow> heap_bounded z \<Longrightarrow> messages_typed s \<longleftrightarrow> rx_ok s \<and> heap_typed z (msg_heap s)"
  by (auto simp: messages_typed_def heap_typed_def ran_def)

interpretation messages: atomic_pieces z lg mdns node1 "\<lambda>s. rx_ok s \<and> heap_typed z (msg_heap s)"
  for z :: "'w zephyr" and lg :: "('w, 'm) log_lib" and mdns node1
proof unfold_locales
  fix s :: "('w, 'a) fws" and fe and fd and i and a :: "byte list" and ev :: "'m log_event" and r' :: "u16 \<times> nat option" and c
  let ?I = "\<lambda>s :: ('w, 'a) fws. rx_ok s \<and> heap_typed z (msg_heap s)"
  assume s: "?I s"
  show "?I (serial_callback z s)"
    using s by (simp add: serial_callback_def hdlc_rx_start_def hdlc_rx_finish_def Let_def split_def)
  show "okr ?I (hdlc_uart_backend_api z lg ev s)"
    by (rule typed.keeps_since [OF typed.backend_api_since s]) (simp_all add: log_keeps_def)
  show "okr ?I (node_rx_socket z fe s)" by (rule typed.keeps_since [OF typed.node_rx_socket_since s])
  show "okr (\<lambda>rt. ?I (snd rt)) (node_rx_receive z fd s)" by (rule typed.keeps_since_pair [OF typed.node_rx_receive_since s])
  show "?I t" if "node_rx_start z s = Some (r, t)" for r t
    using typed.since_rx_ok [OF typed.node_rx_start_since [OF typed.since_refl that]] s by blast
  show "okr ?I (node_rx_forward z i r' s)" by (rule typed.keeps_since [OF typed.node_rx_forward_since s])
  show "okr ?I (node_filter_step z a s)" by (rule typed.keeps_since [OF typed.node_filter_step_since s])
  show "okr ?I (hdlc_rx_input_byte (main_process_complete_frame z mdns) z c s)"
    using typed.drv.input_byte_ok [of s z mdns z c] s by (auto simp: okr_def split: sum.split)
qed (auto simp: rx_ok_def)

text \<open>
  C4. Messages keep their type.  The firmware starts with it, and every schedule of the interrupt, the
  threads and the log keeps it, whatever the host and the nodes send and wherever a thread is preempted:
  each message on the heap has a size field that is exactly the size of its block, header and
  payload, and at most the heap's size.  So the payload length the sources compute from the header is
  the length of the payload, and no copy of a live message by that length leaves its block.
\<close>

theorem live_messages_typed:
  assumes "heap_documented z" and "heap_bounded z" and "messages_typed s0" and "(fw_step z lg mdns node1)\<^sup>*\<^sup>* (idle, s0) (p, s)"
  shows "messages_typed (snd (main z mdns (boot w))) \<and> messages_typed s \<and>
    ran (msg_heap s) \<subseteq> {m. unat (hdr_size (header m)) = hdr_len + length (payload m) \<and>
      hdr_len + length (payload m) \<le> 4096 \<and> gb_message_payload_len m = length (payload m)}"
proof -
  note iff = messages_typed_iff [OF assms(1,2)]
  have s: "messages_typed s"
    using messages.schedule_keeps [OF assms(4)] assms(3) by (simp add: iff)
  then have "unat (hdr_size (header m)) = hdr_len + length (payload m) \<and> hdr_len + length (payload m) \<le> 4096 \<and>
      gb_message_payload_len m = length (payload m)" if "m \<in> ran (msg_heap s)" for m
    using that by (auto simp: messages_typed_def typed_msg_def wf_msg_payload_len MESSAGES_HEAP_SIZE_def wf_msg_def)
  with s show ?thesis using main_typed [of z mdns w] by (auto simp: iff)
qed

definition bounded_zephyr :: "sample_world zephyr" where
  "bounded_zephyr = sample_zephyr\<lparr>k_heap_alloc := (\<lambda>n w. (if n \<le> MESSAGES_HEAP_SIZE then Some (replicate n 0) else None, w))\<rparr>"

definition busy_boot :: "sample_world fw_state" where
  "busy_boot = sample_boot\<lparr>msg_heap := [0 \<mapsto> sent_msg 5 9 0 (0, 0) [1, 2, 3]], msg_next := 1\<rparr>"

theorem live_messages_typed_witness:
  "messages_typed (snd (main bounded_zephyr False (boot ([], [])))) \<and> messages_typed (serial_callback bounded_zephyr busy_boot) \<and>
    ran (msg_heap (serial_callback bounded_zephyr busy_boot)) \<subseteq>
      {m. unat (hdr_size (header m)) = hdr_len + length (payload m) \<and> hdr_len + length (payload m) \<le> 4096 \<and>
        gb_message_payload_len m = length (payload m)} \<and> ran (msg_heap busy_boot) \<noteq> {}"
proof -
  have z: "heap_documented bounded_zephyr" "heap_bounded bounded_zephyr"
    by (auto simp: heap_documented_def heap_bounded_def bounded_zephyr_def split: if_splits)
  have "rx_ok busy_boot" by (simp add: busy_boot_def sample_boot_def boot_def rx_ok_def)
  then have b: "messages_typed busy_boot"
    by (auto simp: messages_typed_def busy_boot_def typed_msg_def MESSAGES_HEAP_SIZE_def hdr_len_def
        wf_msg_def sent_msg_def split: if_splits)
  have "ran (msg_heap busy_boot) \<noteq> {}" by (simp add: busy_boot_def)
  moreover have "(fw_step bounded_zephyr sample_log False [])\<^sup>*\<^sup>* (idle, busy_boot) (idle, serial_callback bounded_zephyr busy_boot)"
    by (rule r_into_rtranclp) (rule fw_step.uart_irq)
  ultimately show ?thesis using live_messages_typed [OF z b] by blast
qed

end
