(* ===== verification/Protocol_Codes.thy ===== *)
theory Protocol_Codes
  imports Greybus_Protocols
begin

text \<open>
  The named values of include/greybus_protocols.h that are declared outside structures: status codes, modes, flag
  bits and limits, one table per group of the header.  Within a group every value has one name, so a code read
  from a message can be told from the others; the SPI modes and the audio jack types, which list single bits
  together with combinations of them, are the exceptions.
\<close>

type_synonym codes = "(string \<times> nat) list"

named_theorems gb_codes \<open>the tables of named values\<close>

definition GB_SVC_CPORT_ID :: nat where "GB_SVC_CPORT_ID = 0"
definition GB_BOOTROM_VERSION_MAJOR :: nat where "GB_BOOTROM_VERSION_MAJOR = 0x00"
definition GB_BOOTROM_VERSION_MINOR :: nat where "GB_BOOTROM_VERSION_MINOR = 0x01"
definition GB_BOOTROM_FETCH_MAX :: nat where "GB_BOOTROM_FETCH_MAX = 2000"
definition GB_SVC_PWRM_QUIRK_HSSER :: nat where "GB_SVC_PWRM_QUIRK_HSSER = 0x00000001"
definition GB_SVC_PWRMON_MAX_RAIL_COUNT :: nat where "GB_SVC_PWRMON_MAX_RAIL_COUNT = 254"
definition GB_SVC_MODULE_INSERTED_FLAG_NO_PRIMARY :: nat where "GB_SVC_MODULE_INSERTED_FLAG_NO_PRIMARY = 0x0001"
definition GB_CAMERA_MAX_STREAMS :: nat where "GB_CAMERA_MAX_STREAMS = 4"
definition GB_CAMERA_MAX_SETTINGS_SIZE :: nat where "GB_CAMERA_MAX_SETTINGS_SIZE = 8192"
definition GB_CHANNEL_MODE_DEFINED_RANGE :: nat where "GB_CHANNEL_MODE_DEFINED_RANGE = 0x000004ff"
definition GB_CHANNEL_MODE_VENDOR_RANGE :: nat where "GB_CHANNEL_MODE_VENDOR_RANGE = 0x00f00000"
definition GB_AUDIO_SAMPLE_BUFFER_MIN_US :: nat where "GB_AUDIO_SAMPLE_BUFFER_MIN_US = 10000"
definition AUDIO_CTL_ELEM_NAME_MAX :: nat where "AUDIO_CTL_ELEM_NAME_MAX = 44"
definition AUDIO_ENUM_NAME_MAX :: nat where "AUDIO_ENUM_NAME_MAX = 64"
definition GB_AUDIO_INVALID_INDEX :: nat where "GB_AUDIO_INVALID_INDEX = 0xff"
definition GB_LOG_MAX_LEN :: nat where "GB_LOG_MAX_LEN = 1024"

definition gb_svc_device_ids :: codes where
  [gb_codes]: "gb_svc_device_ids = [(''DEVICE_ID_SVC'', 0), (''DEVICE_ID_AP'', 1), (''DEVICE_ID_MIN'', 2),
     (''DEVICE_ID_MAX'', 31)]"

definition gb_control_bundle_pm_codes :: codes where
  [gb_codes]: "gb_control_bundle_pm_codes = [(''BUNDLE_PM_OK'', 0x00), (''BUNDLE_PM_INVAL'', 0x01),
     (''BUNDLE_PM_BUSY'', 0x02), (''BUNDLE_PM_FAIL'', 0x03), (''BUNDLE_PM_NA'', 0x04)]"

definition gb_control_intf_pm_codes :: codes where
  [gb_codes]: "gb_control_intf_pm_codes = [(''INTF_PM_OK'', 0x00), (''INTF_PM_BUSY'', 0x01),
     (''INTF_PM_NA'', 0x02)]"

definition gb_apb_requests :: codes where
  [gb_codes]: "gb_apb_requests = [(''LOG'', 0x02), (''EP_MAPPING'', 0x03), (''CPORT_COUNT'', 0x04),
     (''RESET_CPORT'', 0x05), (''LATENCY_TAG_EN'', 0x06), (''LATENCY_TAG_DIS'', 0x07),
     (''CSI_TX_CONTROL'', 0x08), (''AUDIO_CONTROL'', 0x09), (''TIMESYNC_ENABLE'', 0x0d),
     (''TIMESYNC_DISABLE'', 0x0e), (''TIMESYNC_AUTHORITATIVE'', 0x0f), (''TIMESYNC_GET_LAST_EVENT'', 0x10),
     (''CPORT_FLAGS'', 0x11), (''ARPC_RUN'', 0x12)]"

definition gb_fw_load_methods :: codes where
  [gb_codes]: "gb_fw_load_methods = [(''LOAD_METHOD_UNIPRO'', 0x01), (''LOAD_METHOD_INTERNAL'', 0x02)]"

definition gb_fw_load_status_codes :: codes where
  [gb_codes]: "gb_fw_load_status_codes = [(''LOAD_STATUS_FAILED'', 0x00), (''LOAD_STATUS_UNVALIDATED'', 0x01),
     (''LOAD_STATUS_VALIDATED'', 0x02), (''LOAD_STATUS_VALIDATION_FAILED'', 0x03)]"

definition gb_fw_backend_fw_status_codes :: codes where
  [gb_codes]: "gb_fw_backend_fw_status_codes = [(''BACKEND_FW_STATUS_SUCCESS'', 0x01),
     (''BACKEND_FW_STATUS_FAIL_FIND'', 0x02), (''BACKEND_FW_STATUS_FAIL_FETCH'', 0x03),
     (''BACKEND_FW_STATUS_FAIL_WRITE'', 0x04), (''BACKEND_FW_STATUS_INT'', 0x05),
     (''BACKEND_FW_STATUS_RETRY'', 0x06), (''BACKEND_FW_STATUS_NOT_SUPPORTED'', 0x07)]"

definition gb_fw_backend_version_status_codes :: codes where
  [gb_codes]: "gb_fw_backend_version_status_codes = [(''BACKEND_VERSION_STATUS_SUCCESS'', 0x01),
     (''BACKEND_VERSION_STATUS_NOT_AVAILABLE'', 0x02), (''BACKEND_VERSION_STATUS_NOT_SUPPORTED'', 0x03),
     (''BACKEND_VERSION_STATUS_RETRY'', 0x04), (''BACKEND_VERSION_STATUS_FAIL_INT'', 0x05)]"

definition gb_bootrom_boot_stages :: codes where
  [gb_codes]: "gb_bootrom_boot_stages = [(''BOOT_STAGE_ONE'', 0x01), (''BOOT_STAGE_TWO'', 0x02),
     (''BOOT_STAGE_THREE'', 0x03)]"

definition gb_bootrom_boot_status_codes :: codes where
  [gb_codes]: "gb_bootrom_boot_status_codes = [(''BOOT_STATUS_INVALID'', 0x00),
     (''BOOT_STATUS_INSECURE'', 0x01), (''BOOT_STATUS_SECURE'', 0x02)]"

definition gb_svc_status_codes :: codes where
  [gb_codes]: "gb_svc_status_codes = [(''OP_SUCCESS'', unat GB_SVC_OP_SUCCESS),
     (''OP_UNKNOWN_ERROR'', unat GB_SVC_OP_UNKNOWN_ERROR), (''INTF_NOT_DETECTED'', 0x02),
     (''INTF_NO_UPRO_LINK'', 0x03), (''INTF_UPRO_NOT_DOWN'', 0x04), (''INTF_UPRO_NOT_HIBERNATED'', 0x05),
     (''INTF_NO_V_SYS'', 0x06), (''INTF_V_CHG'', 0x07), (''INTF_WAKE_BUSY'', 0x08), (''INTF_NO_REFCLK'', 0x09),
     (''INTF_RELEASING'', 0x0a), (''INTF_NO_ORDER'', 0x0b), (''INTF_MBOX_SET'', 0x0c),
     (''INTF_BAD_MBOX'', 0x0d), (''INTF_OP_TIMEOUT'', 0x0e), (''PWRMON_OP_NOT_PRESENT'', 0x0f)]"

definition gb_init_status_codes :: codes where
  [gb_codes]: "gb_init_status_codes = [(''INIT_SPI_BOOT_STARTED'', 0x02),
     (''INIT_TRUSTED_SPI_BOOT_FINISHED'', 0x03), (''INIT_UNTRUSTED_SPI_BOOT_FINISHED'', 0x04),
     (''INIT_BOOTROM_UNIPRO_BOOT_STARTED'', 0x06), (''INIT_BOOTROM_FALLBACK_UNIPRO_BOOT_STARTED'', 0x09),
     (''INIT_S2_LOADER_BOOT_STARTED'', 0x0d)]"

definition gb_svc_unipro_modes :: codes where
  [gb_codes]: "gb_svc_unipro_modes = [(''UNIPRO_FAST_MODE'', 0x01), (''UNIPRO_SLOW_MODE'', 0x02),
     (''UNIPRO_FAST_AUTO_MODE'', 0x04), (''UNIPRO_SLOW_AUTO_MODE'', 0x05), (''UNIPRO_MODE_UNCHANGED'', 0x07),
     (''UNIPRO_HIBERNATE_MODE'', unat GB_SVC_UNIPRO_HIBERNATE_MODE), (''UNIPRO_OFF_MODE'', 0x12)]"

definition gb_svc_amplitudes :: codes where
  [gb_codes]: "gb_svc_amplitudes = [(''SMALL_AMPLITUDE'', 0x01), (''LARGE_AMPLITUDE'', 0x02)]"

definition gb_svc_de_emphasis_codes :: codes where
  [gb_codes]: "gb_svc_de_emphasis_codes = [(''NO_DE_EMPHASIS'', 0x00), (''SMALL_DE_EMPHASIS'', 0x01),
     (''LARGE_DE_EMPHASIS'', 0x02)]"

definition gb_svc_pwrm_flags :: codes where
  [gb_codes]: "gb_svc_pwrm_flags = [(''PWRM_RXTERMINATION'', 0x01), (''PWRM_TXTERMINATION'', 0x02),
     (''PWRM_LINE_RESET'', 0x04), (''PWRM_SCRAMBLING'', 0x20)]"

definition gb_svc_unipro_hs_series :: codes where
  [gb_codes]: "gb_svc_unipro_hs_series = [(''UNIPRO_HS_SERIES_A'', 0x01), (''UNIPRO_HS_SERIES_B'', 0x02)]"

definition gb_svc_setpwrm_codes :: codes where
  [gb_codes]: "gb_svc_setpwrm_codes = [(''SETPWRM_PWR_OK'', unat GB_SVC_SETPWRM_PWR_OK),
     (''SETPWRM_PWR_LOCAL'', unat GB_SVC_SETPWRM_PWR_LOCAL), (''SETPWRM_PWR_REMOTE'', 0x02),
     (''SETPWRM_PWR_BUSY'', 0x03), (''SETPWRM_PWR_ERROR_CAP'', 0x04), (''SETPWRM_PWR_FATAL_ERROR'', 0x05)]"

definition gb_svc_pwrmon_types :: codes where
  [gb_codes]: "gb_svc_pwrmon_types = [(''PWRMON_TYPE_CURR'', 0x01), (''PWRMON_TYPE_VOL'', 0x02),
     (''PWRMON_TYPE_PWR'', 0x03)]"

definition gb_svc_pwrmon_sample_codes :: codes where
  [gb_codes]: "gb_svc_pwrmon_sample_codes = [(''PWRMON_GET_SAMPLE_OK'', 0x00),
     (''PWRMON_GET_SAMPLE_INVAL'', 0x01), (''PWRMON_GET_SAMPLE_NOSUPP'', 0x02),
     (''PWRMON_GET_SAMPLE_HWERR'', 0x03)]"

definition gb_svc_intf_types :: codes where
  [gb_codes]: "gb_svc_intf_types = [(''INTF_TYPE_UNKNOWN'', 0x00), (''INTF_TYPE_DUMMY'', 0x01),
     (''INTF_TYPE_UNIPRO'', 0x02), (''INTF_TYPE_GREYBUS'', unat GB_SVC_INTF_TYPE_GREYBUS)]"

definition gb_svc_intf_mailbox_codes :: codes where
  [gb_codes]: "gb_svc_intf_mailbox_codes = [(''INTF_MAILBOX_NONE'', 0x00), (''INTF_MAILBOX_AP'', 0x01),
     (''INTF_MAILBOX_GREYBUS'', 0x02)]"

definition gb_power_supply_techs :: codes where
  [gb_codes]: "gb_power_supply_techs = [(''TECH_UNKNOWN'', 0x0000), (''TECH_NiMH'', 0x0001),
     (''TECH_LION'', 0x0002), (''TECH_LIPO'', 0x0003), (''TECH_LiFe'', 0x0004), (''TECH_NiCd'', 0x0005),
     (''TECH_LiMn'', 0x0006)]"

definition gb_power_supply_kinds :: codes where
  [gb_codes]: "gb_power_supply_kinds = [(''UNKNOWN_TYPE'', 0x0000), (''BATTERY_TYPE'', 0x0001),
     (''UPS_TYPE'', 0x0002), (''MAINS_TYPE'', 0x0003), (''USB_TYPE'', 0x0004), (''USB_DCP_TYPE'', 0x0005),
     (''USB_CDP_TYPE'', 0x0006), (''USB_ACA_TYPE'', 0x0007)]"

definition gb_power_supply_health_codes :: codes where
  [gb_codes]: "gb_power_supply_health_codes = [(''HEALTH_UNKNOWN'', 0x0000), (''HEALTH_GOOD'', 0x0001),
     (''HEALTH_OVERHEAT'', 0x0002), (''HEALTH_DEAD'', 0x0003), (''HEALTH_OVERVOLTAGE'', 0x0004),
     (''HEALTH_UNSPEC_FAILURE'', 0x0005), (''HEALTH_COLD'', 0x0006), (''HEALTH_WATCHDOG_TIMER_EXPIRE'', 0x0007),
     (''HEALTH_SAFETY_TIMER_EXPIRE'', 0x0008)]"

definition gb_power_supply_status_codes :: codes where
  [gb_codes]: "gb_power_supply_status_codes = [(''STATUS_UNKNOWN'', 0x0000), (''STATUS_CHARGING'', 0x0001),
     (''STATUS_DISCHARGING'', 0x0002), (''STATUS_NOT_CHARGING'', 0x0003), (''STATUS_FULL'', 0x0004)]"

definition gb_power_supply_capacity_levels :: codes where
  [gb_codes]: "gb_power_supply_capacity_levels = [(''CAPACITY_LEVEL_UNKNOWN'', 0x0000),
     (''CAPACITY_LEVEL_CRITICAL'', 0x0001), (''CAPACITY_LEVEL_LOW'', 0x0002),
     (''CAPACITY_LEVEL_NORMAL'', 0x0003), (''CAPACITY_LEVEL_HIGH'', 0x0004), (''CAPACITY_LEVEL_FULL'', 0x0005)]"

definition gb_power_supply_scopes :: codes where
  [gb_codes]: "gb_power_supply_scopes = [(''SCOPE_UNKNOWN'', 0x0000), (''SCOPE_SYSTEM'', 0x0001),
     (''SCOPE_DEVICE'', 0x0002)]"

definition gb_hid_reports :: codes where
  [gb_codes]: "gb_hid_reports = [(''INPUT_REPORT'', 0), (''OUTPUT_REPORT'', 1), (''FEATURE_REPORT'', 2)]"

definition gb_gpio_irq_types :: codes where
  [gb_codes]: "gb_gpio_irq_types = [(''IRQ_TYPE_NONE'', 0x00), (''IRQ_TYPE_EDGE_RISING'', 0x01),
     (''IRQ_TYPE_EDGE_FALLING'', 0x02), (''IRQ_TYPE_EDGE_BOTH'', 0x03), (''IRQ_TYPE_LEVEL_HIGH'', 0x04),
     (''IRQ_TYPE_LEVEL_LOW'', 0x08)]"

definition gb_spi_modes :: codes where
  [gb_codes]: "gb_spi_modes = [(''MODE_CPHA'', 0x01), (''MODE_CPOL'', 0x02), (''MODE_MODE_0'', 0 OR 0),
     (''MODE_MODE_1'', 0 OR 0x01), (''MODE_MODE_2'', 0x02 OR 0), (''MODE_MODE_3'', 0x02 OR 0x01),
     (''MODE_CS_HIGH'', 0x04), (''MODE_LSB_FIRST'', 0x08), (''MODE_3WIRE'', 0x10), (''MODE_LOOP'', 0x20),
     (''MODE_NO_CS'', 0x40), (''MODE_READY'', 0x80)]"

definition gb_spi_flags :: codes where
  [gb_codes]: "gb_spi_flags = [(''FLAG_HALF_DUPLEX'', 2 ^ 0), (''FLAG_NO_RX'', 2 ^ 1), (''FLAG_NO_TX'', 2 ^ 2)]"

definition gb_uart_recv_flags :: codes where
  [gb_codes]: "gb_uart_recv_flags = [(''RECV_FLAG_FRAMING'', 0x01), (''RECV_FLAG_PARITY'', 0x02),
     (''RECV_FLAG_OVERRUN'', 0x04), (''RECV_FLAG_BREAK'', 0x08)]"

definition gb_uart_output_lines :: codes where
  [gb_codes]: "gb_uart_output_lines = [(''CTRL_DTR'', 0x01), (''CTRL_RTS'', 0x02)]"

definition gb_uart_input_lines :: codes where
  [gb_codes]: "gb_uart_input_lines = [(''CTRL_DCD'', 0x01), (''CTRL_DSR'', 0x02), (''CTRL_RI'', 0x04)]"

definition gb_channel_modes :: codes where
  [gb_codes]: "gb_channel_modes = [(''CHANNEL_MODE_NONE'', 0x00000000), (''CHANNEL_MODE_BATTERY'', 0x00000001),
     (''CHANNEL_MODE_POWER'', 0x00000002), (''CHANNEL_MODE_WIRELESS'', 0x00000004),
     (''CHANNEL_MODE_BLUETOOTH'', 0x00000008), (''CHANNEL_MODE_KEYBOARD'', 0x00000010),
     (''CHANNEL_MODE_BUTTONS'', 0x00000020), (''CHANNEL_MODE_NOTIFICATION'', 0x00000040),
     (''CHANNEL_MODE_ATTENTION'', 0x00000080), (''CHANNEL_MODE_FLASH'', 0x00000100),
     (''CHANNEL_MODE_TORCH'', 0x00000200), (''CHANNEL_MODE_INDICATOR'', 0x00000400)]"

definition gb_light_channel_flags :: codes where
  [gb_codes]: "gb_light_channel_flags = [(''LIGHT_CHANNEL_MULTICOLOR'', 0x00000001),
     (''LIGHT_CHANNEL_FADER'', 0x00000002), (''LIGHT_CHANNEL_BLINK'', 0x00000004)]"

definition gb_audio_pcm_formats :: codes where
  [gb_codes]: "gb_audio_pcm_formats = [(''PCM_FMT_S8'', 2 ^ 0), (''PCM_FMT_U8'', 2 ^ 1),
     (''PCM_FMT_S16_LE'', 2 ^ 2), (''PCM_FMT_S16_BE'', 2 ^ 3), (''PCM_FMT_U16_LE'', 2 ^ 4),
     (''PCM_FMT_U16_BE'', 2 ^ 5), (''PCM_FMT_S24_LE'', 2 ^ 6), (''PCM_FMT_S24_BE'', 2 ^ 7),
     (''PCM_FMT_U24_LE'', 2 ^ 8), (''PCM_FMT_U24_BE'', 2 ^ 9), (''PCM_FMT_S32_LE'', 2 ^ 10),
     (''PCM_FMT_S32_BE'', 2 ^ 11), (''PCM_FMT_U32_LE'', 2 ^ 12), (''PCM_FMT_U32_BE'', 2 ^ 13)]"

definition gb_audio_pcm_rates :: codes where
  [gb_codes]: "gb_audio_pcm_rates = [(''PCM_RATE_5512'', 2 ^ 0), (''PCM_RATE_8000'', 2 ^ 1),
     (''PCM_RATE_11025'', 2 ^ 2), (''PCM_RATE_16000'', 2 ^ 3), (''PCM_RATE_22050'', 2 ^ 4),
     (''PCM_RATE_32000'', 2 ^ 5), (''PCM_RATE_44100'', 2 ^ 6), (''PCM_RATE_48000'', 2 ^ 7),
     (''PCM_RATE_64000'', 2 ^ 8), (''PCM_RATE_88200'', 2 ^ 9), (''PCM_RATE_96000'', 2 ^ 10),
     (''PCM_RATE_176400'', 2 ^ 11), (''PCM_RATE_192000'', 2 ^ 12)]"

definition gb_audio_stream_types :: codes where
  [gb_codes]: "gb_audio_stream_types = [(''STREAM_TYPE_CAPTURE'', 0x1), (''STREAM_TYPE_PLAYBACK'', 0x2)]"

definition gb_audio_ctl_elem_accesses :: codes where
  [gb_codes]: "gb_audio_ctl_elem_accesses = [(''CTL_ELEM_ACCESS_READ'', 2 ^ 0),
     (''CTL_ELEM_ACCESS_WRITE'', 2 ^ 1)]"

definition gb_audio_ctl_elem_types :: codes where
  [gb_codes]: "gb_audio_ctl_elem_types = [(''CTL_ELEM_TYPE_BOOLEAN'', 0x01), (''CTL_ELEM_TYPE_INTEGER'', 0x02),
     (''CTL_ELEM_TYPE_ENUMERATED'', 0x03), (''CTL_ELEM_TYPE_INTEGER64'', 0x06)]"

definition gb_audio_ctl_elem_ifaces :: codes where
  [gb_codes]: "gb_audio_ctl_elem_ifaces = [(''CTL_ELEM_IFACE_CARD'', 0x00), (''CTL_ELEM_IFACE_HWDEP'', 0x01),
     (''CTL_ELEM_IFACE_MIXER'', 0x02), (''CTL_ELEM_IFACE_PCM'', 0x03), (''CTL_ELEM_IFACE_RAWMIDI'', 0x04),
     (''CTL_ELEM_IFACE_TIMER'', 0x05), (''CTL_ELEM_IFACE_SEQUENCER'', 0x06)]"

definition gb_audio_accesses :: codes where
  [gb_codes]: "gb_audio_accesses = [(''ACCESS_READ'', 2 ^ 0), (''ACCESS_WRITE'', 2 ^ 1),
     (''ACCESS_VOLATILE'', 2 ^ 2), (''ACCESS_TIMESTAMP'', 2 ^ 3), (''ACCESS_TLV_READ'', 2 ^ 4),
     (''ACCESS_TLV_WRITE'', 2 ^ 5), (''ACCESS_TLV_COMMAND'', 2 ^ 6), (''ACCESS_INACTIVE'', 2 ^ 7),
     (''ACCESS_LOCK'', 2 ^ 8), (''ACCESS_OWNER'', 2 ^ 9)]"

definition gb_audio_widget_types :: codes where
  [gb_codes]: "gb_audio_widget_types = [(''WIDGET_TYPE_INPUT'', 0x0), (''WIDGET_TYPE_OUTPUT'', 0x1),
     (''WIDGET_TYPE_MUX'', 0x2), (''WIDGET_TYPE_VIRT_MUX'', 0x3), (''WIDGET_TYPE_VALUE_MUX'', 0x4),
     (''WIDGET_TYPE_MIXER'', 0x5), (''WIDGET_TYPE_MIXER_NAMED_CTL'', 0x6), (''WIDGET_TYPE_PGA'', 0x7),
     (''WIDGET_TYPE_OUT_DRV'', 0x8), (''WIDGET_TYPE_ADC'', 0x9), (''WIDGET_TYPE_DAC'', 0xa),
     (''WIDGET_TYPE_MICBIAS'', 0xb), (''WIDGET_TYPE_MIC'', 0xc), (''WIDGET_TYPE_HP'', 0xd),
     (''WIDGET_TYPE_SPK'', 0xe), (''WIDGET_TYPE_LINE'', 0xf), (''WIDGET_TYPE_SWITCH'', 0x10),
     (''WIDGET_TYPE_VMID'', 0x11), (''WIDGET_TYPE_PRE'', 0x12), (''WIDGET_TYPE_POST'', 0x13),
     (''WIDGET_TYPE_SUPPLY'', 0x14), (''WIDGET_TYPE_REGULATOR_SUPPLY'', 0x15),
     (''WIDGET_TYPE_CLOCK_SUPPLY'', 0x16), (''WIDGET_TYPE_AIF_IN'', 0x17), (''WIDGET_TYPE_AIF_OUT'', 0x18),
     (''WIDGET_TYPE_SIGGEN'', 0x19), (''WIDGET_TYPE_DAI_IN'', 0x1a), (''WIDGET_TYPE_DAI_OUT'', 0x1b),
     (''WIDGET_TYPE_DAI_LINK'', 0x1c)]"

definition gb_audio_widget_states :: codes where
  [gb_codes]: "gb_audio_widget_states = [(''WIDGET_STATE_DISABLED'', 0x01), (''WIDGET_STATE_ENAABLED'', 0x02)]"

definition gb_audio_jack_events :: codes where
  [gb_codes]: "gb_audio_jack_events = [(''JACK_EVENT_INSERTION'', 0x1), (''JACK_EVENT_REMOVAL'', 0x2)]"

definition gb_audio_button_events :: codes where
  [gb_codes]: "gb_audio_button_events = [(''BUTTON_EVENT_PRESS'', 0x1), (''BUTTON_EVENT_RELEASE'', 0x2)]"

definition gb_audio_streaming_events :: codes where
  [gb_codes]: "gb_audio_streaming_events = [(''STREAMING_EVENT_UNSPECIFIED'', 0x1),
     (''STREAMING_EVENT_HALT'', 0x2), (''STREAMING_EVENT_INTERNAL_ERROR'', 0x3),
     (''STREAMING_EVENT_PROTOCOL_ERROR'', 0x4), (''STREAMING_EVENT_FAILURE'', 0x5),
     (''STREAMING_EVENT_UNDERRUN'', 0x6), (''STREAMING_EVENT_OVERRUN'', 0x7),
     (''STREAMING_EVENT_CLOCKING'', 0x8), (''STREAMING_EVENT_DATA_LEN'', 0x9)]"

definition gb_audio_jack_types :: codes where
  [gb_codes]: "gb_audio_jack_types = [(''JACK_HEADPHONE'', 0x0000001), (''JACK_MICROPHONE'', 0x0000002),
     (''JACK_HEADSET'', 0x0000001 OR 0x0000002), (''JACK_LINEOUT'', 0x0000004),
     (''JACK_MECHANICAL'', 0x0000008), (''JACK_VIDEOOUT'', 0x0000010), (''JACK_AVOUT'', 0x0000004 OR 0x0000010),
     (''JACK_LINEIN'', 0x0000020), (''JACK_OC_HPHL'', 0x0000040), (''JACK_OC_HPHR'', 0x0000080),
     (''JACK_MICROPHONE2'', 0x0000200), (''JACK_ANC_HEADPHONE'', 0x0000001 OR 0x0000002 OR 0x0000200)]"

definition gb_audio_jack_buttons :: codes where
  [gb_codes]: "gb_audio_jack_buttons = [(''JACK_BTN_0'', 0x4000000), (''JACK_BTN_1'', 0x2000000),
     (''JACK_BTN_2'', 0x1000000), (''JACK_BTN_3'', 0x0800000)]"

lemma code_tables_distinct:
  "distinct (map fst gb_svc_device_ids) \<and> distinct (map snd gb_svc_device_ids)"
  "distinct (map fst gb_control_bundle_pm_codes) \<and> distinct (map snd gb_control_bundle_pm_codes)"
  "distinct (map fst gb_control_intf_pm_codes) \<and> distinct (map snd gb_control_intf_pm_codes)"
  "distinct (map fst gb_apb_requests) \<and> distinct (map snd gb_apb_requests)"
  "distinct (map fst gb_fw_load_methods) \<and> distinct (map snd gb_fw_load_methods)"
  "distinct (map fst gb_fw_load_status_codes) \<and> distinct (map snd gb_fw_load_status_codes)"
  "distinct (map fst gb_fw_backend_fw_status_codes) \<and> distinct (map snd gb_fw_backend_fw_status_codes)"
  "distinct (map fst gb_fw_backend_version_status_codes) \<and> distinct (map snd gb_fw_backend_version_status_codes)"
  "distinct (map fst gb_bootrom_boot_stages) \<and> distinct (map snd gb_bootrom_boot_stages)"
  "distinct (map fst gb_bootrom_boot_status_codes) \<and> distinct (map snd gb_bootrom_boot_status_codes)"
  "distinct (map fst gb_svc_status_codes) \<and> distinct (map snd gb_svc_status_codes)"
  "distinct (map fst gb_init_status_codes) \<and> distinct (map snd gb_init_status_codes)"
  "distinct (map fst gb_svc_unipro_modes) \<and> distinct (map snd gb_svc_unipro_modes)"
  "distinct (map fst gb_svc_amplitudes) \<and> distinct (map snd gb_svc_amplitudes)"
  "distinct (map fst gb_svc_de_emphasis_codes) \<and> distinct (map snd gb_svc_de_emphasis_codes)"
  "distinct (map fst gb_svc_pwrm_flags) \<and> distinct (map snd gb_svc_pwrm_flags)"
  "distinct (map fst gb_svc_unipro_hs_series) \<and> distinct (map snd gb_svc_unipro_hs_series)"
  "distinct (map fst gb_svc_setpwrm_codes) \<and> distinct (map snd gb_svc_setpwrm_codes)"
  "distinct (map fst gb_svc_pwrmon_types) \<and> distinct (map snd gb_svc_pwrmon_types)"
  "distinct (map fst gb_svc_pwrmon_sample_codes) \<and> distinct (map snd gb_svc_pwrmon_sample_codes)"
  "distinct (map fst gb_svc_intf_types) \<and> distinct (map snd gb_svc_intf_types)"
  "distinct (map fst gb_svc_intf_mailbox_codes) \<and> distinct (map snd gb_svc_intf_mailbox_codes)"
  "distinct (map fst gb_power_supply_techs) \<and> distinct (map snd gb_power_supply_techs)"
  "distinct (map fst gb_power_supply_kinds) \<and> distinct (map snd gb_power_supply_kinds)"
  "distinct (map fst gb_power_supply_health_codes) \<and> distinct (map snd gb_power_supply_health_codes)"
  "distinct (map fst gb_power_supply_status_codes) \<and> distinct (map snd gb_power_supply_status_codes)"
  "distinct (map fst gb_power_supply_capacity_levels) \<and> distinct (map snd gb_power_supply_capacity_levels)"
  "distinct (map fst gb_power_supply_scopes) \<and> distinct (map snd gb_power_supply_scopes)"
  "distinct (map fst gb_hid_reports) \<and> distinct (map snd gb_hid_reports)"
  "distinct (map fst gb_gpio_irq_types) \<and> distinct (map snd gb_gpio_irq_types)"
  "distinct (map fst gb_spi_flags) \<and> distinct (map snd gb_spi_flags)"
  "distinct (map fst gb_uart_recv_flags) \<and> distinct (map snd gb_uart_recv_flags)"
  "distinct (map fst gb_uart_output_lines) \<and> distinct (map snd gb_uart_output_lines)"
  "distinct (map fst gb_uart_input_lines) \<and> distinct (map snd gb_uart_input_lines)"
  "distinct (map fst gb_channel_modes) \<and> distinct (map snd gb_channel_modes)"
  "distinct (map fst gb_light_channel_flags) \<and> distinct (map snd gb_light_channel_flags)"
  "distinct (map fst gb_audio_pcm_formats) \<and> distinct (map snd gb_audio_pcm_formats)"
  "distinct (map fst gb_audio_pcm_rates) \<and> distinct (map snd gb_audio_pcm_rates)"
  "distinct (map fst gb_audio_stream_types) \<and> distinct (map snd gb_audio_stream_types)"
  "distinct (map fst gb_audio_ctl_elem_accesses) \<and> distinct (map snd gb_audio_ctl_elem_accesses)"
  "distinct (map fst gb_audio_ctl_elem_types) \<and> distinct (map snd gb_audio_ctl_elem_types)"
  "distinct (map fst gb_audio_ctl_elem_ifaces) \<and> distinct (map snd gb_audio_ctl_elem_ifaces)"
  "distinct (map fst gb_audio_accesses) \<and> distinct (map snd gb_audio_accesses)"
  "distinct (map fst gb_audio_widget_types) \<and> distinct (map snd gb_audio_widget_types)"
  "distinct (map fst gb_audio_widget_states) \<and> distinct (map snd gb_audio_widget_states)"
  "distinct (map fst gb_audio_jack_events) \<and> distinct (map snd gb_audio_jack_events)"
  "distinct (map fst gb_audio_button_events) \<and> distinct (map snd gb_audio_button_events)"
  "distinct (map fst gb_audio_streaming_events) \<and> distinct (map snd gb_audio_streaming_events)"
  "distinct (map fst gb_audio_jack_buttons) \<and> distinct (map snd gb_audio_jack_buttons)"
  by (simp_all add: gb_codes gb_consts)

text \<open>
  The header asks that \<open>GB_CHANNEL_MODE_DEFINED_RANGE\<close> be kept in step with the light modes.  It has the bits of
  all of them but two: flash and torch.
\<close>

lemma channel_modes_outside_range:
  "[nm. (nm, v) \<leftarrow> gb_channel_modes, v AND GB_CHANNEL_MODE_DEFINED_RANGE \<noteq> v] = [''CHANNEL_MODE_FLASH'', ''CHANNEL_MODE_TORCH'']"
  by (simp add: gb_channel_modes_def GB_CHANNEL_MODE_DEFINED_RANGE_def)

end
