(* ===== verification/Packed_Layouts.thy ===== *)
theory Packed_Layouts
  imports Prelude
begin

text \<open>
  Packed little-endian structures as data.  A \<open>ctype\<close> is a structure declaration as the compiler reads
  it; \<open>sizeof\<close> and \<open>offsetof\<close> are the C operators on it, \<open>encode\<close> and \<open>decode\<close> the memory image of a
  value.  A coder that is exact composes: the lemmas go from one scalar to sequences, structures and
  structures that end in a flexible array.
\<close>

section \<open>Declarations and values\<close>

datatype ctype =
    UInt nat
  | Array ctype nat
  | Flex ctype
  | Struct "(string \<times> ctype) list"
  | Union "(string \<times> ctype) list"

abbreviation U8 :: ctype where "U8 \<equiv> UInt 1"
abbreviation LE16 :: ctype where "LE16 \<equiv> UInt 2"
abbreviation LE32 :: ctype where "LE32 \<equiv> UInt 4"
abbreviation LE64 :: ctype where "LE64 \<equiv> UInt 8"

text \<open>The value of a union is its bytes: which member they stand for is decided elsewhere in the message.\<close>

datatype cval = Num nat | Seq "cval list" | Raw "byte list"

lemma member_size [termination_simp]:
  "(n, t) \<in> set fs \<Longrightarrow> size t < Suc (size_list (size_prod (\<lambda>x. 0) size) fs)"
  by (induction fs) auto

lemma last_member_size [termination_simp]:
  "fs \<noteq> [] \<Longrightarrow> (n, t) = last fs \<Longrightarrow> size t < Suc (size_list (\<lambda>x. Suc (size (snd x))) fs)"
  using size_list_estimation [of "(n, t)" fs "size t" "\<lambda>x. Suc (size (snd x))"] last_in_set [of fs] by (cases "last fs") auto

fun sizeof :: "ctype \<Rightarrow> nat" where
  "sizeof (UInt k) = k"
| "sizeof (Array t n) = n * sizeof t"
| "sizeof (Flex t) = 0"
| "sizeof (Struct fs) = sum_list (map (\<lambda>(n, t). sizeof t) fs)"
| "sizeof (Union fs) = fold max (map (\<lambda>(n, t). sizeof t) fs) 0"

fun offset_in :: "(string \<times> ctype) list \<Rightarrow> string \<Rightarrow> nat option" where
  "offset_in [] f = None"
| "offset_in ((n, t) # fs) f = (if n = f then Some 0 else map_option (\<lambda>k. sizeof t + k) (offset_in fs f))"

fun offsetof :: "ctype \<Rightarrow> string \<Rightarrow> nat option" where
  "offsetof (Struct fs) f = offset_in fs f"
| "offsetof t f = None"

text \<open>A type of fixed size: no flexible array anywhere.\<close>

fun closed :: "ctype \<Rightarrow> bool" where
  "closed (UInt k) = True"
| "closed (Array t n) = closed t"
| "closed (Flex t) = False"
| "closed (Struct fs) = list_all (\<lambda>(n, t). closed t) fs"
| "closed (Union fs) = True"

text \<open>A declaration: different member names, and a flexible array only at the very end.\<close>

fun layout_ok :: "ctype \<Rightarrow> bool" where
  "layout_ok (Flex t) = (closed t \<and> 0 < sizeof t)"
| "layout_ok (Struct fs) = (distinct (map fst fs) \<and>
     (fs \<noteq> [] \<longrightarrow> list_all (\<lambda>(n, t). closed t) (butlast fs) \<and> (case last fs of (n, t) \<Rightarrow> layout_ok t)))"
| "layout_ok t = closed t"

section \<open>Images of values\<close>

fun le_bytes :: "nat \<Rightarrow> nat \<Rightarrow> byte list" where
  "le_bytes 0 n = []"
| "le_bytes (Suc k) n = of_nat (n mod 256) # le_bytes k (n div 256)"

fun le_value :: "byte list \<Rightarrow> nat" where
  "le_value [] = 0"
| "le_value (b # bs) = unat b + 256 * le_value bs"

fun encode_seq :: "(cval \<Rightarrow> byte list) list \<Rightarrow> cval list \<Rightarrow> byte list" where
  "encode_seq (e # es) (v # vs) = e v @ encode_seq es vs"
| "encode_seq es vs = []"

type_synonym decoder = "byte list \<Rightarrow> (cval \<times> byte list) option"

fun decode_seq :: "decoder list \<Rightarrow> byte list \<Rightarrow> (cval list \<times> byte list) option" where
  "decode_seq [] bs = Some ([], bs)"
| "decode_seq (d # ds) bs = (case d bs of None \<Rightarrow> None
     | Some (v, r) \<Rightarrow> map_option (\<lambda>(vs, r'). (v # vs, r')) (decode_seq ds r))"

fun has_type :: "ctype \<Rightarrow> cval \<Rightarrow> bool" where
  "has_type (UInt k) = (\<lambda>v. case v of Num n \<Rightarrow> n < 256 ^ k | _ \<Rightarrow> False)"
| "has_type (Array t n) = (\<lambda>v. case v of Seq vs \<Rightarrow> length vs = n \<and> list_all (has_type t) vs | _ \<Rightarrow> False)"
| "has_type (Flex t) = (\<lambda>v. case v of Seq vs \<Rightarrow> list_all (has_type t) vs | _ \<Rightarrow> False)"
| "has_type (Struct fs) = (\<lambda>v. case v of
     Seq vs \<Rightarrow> list_all2 (\<lambda>p v. p v) (map (\<lambda>(n, t). has_type t) fs) vs | _ \<Rightarrow> False)"
| "has_type (Union fs) = (\<lambda>v. case v of Raw bs \<Rightarrow> length bs = sizeof (Union fs) | _ \<Rightarrow> False)"

fun encode :: "ctype \<Rightarrow> cval \<Rightarrow> byte list" where
  "encode (UInt k) = (\<lambda>v. case v of Num n \<Rightarrow> le_bytes k n | _ \<Rightarrow> [])"
| "encode (Array t n) = (\<lambda>v. case v of Seq vs \<Rightarrow> encode_seq (replicate (length vs) (encode t)) vs | _ \<Rightarrow> [])"
| "encode (Flex t) = (\<lambda>v. case v of Seq vs \<Rightarrow> encode_seq (replicate (length vs) (encode t)) vs | _ \<Rightarrow> [])"
| "encode (Struct fs) = (\<lambda>v. case v of Seq vs \<Rightarrow> encode_seq (map (\<lambda>(n, t). encode t) fs) vs | _ \<Rightarrow> [])"
| "encode (Union fs) = (\<lambda>v. case v of Raw bs \<Rightarrow> bs | _ \<Rightarrow> [])"

definition seq_of :: "(cval list \<times> byte list) option \<Rightarrow> (cval \<times> byte list) option" where
  "seq_of = map_option (\<lambda>(vs, r). (Seq vs, r))"

fun decode :: "ctype \<Rightarrow> decoder" where
  "decode (UInt k) = (\<lambda>bs. if k \<le> length bs then Some (Num (le_value (take k bs)), drop k bs) else None)"
| "decode (Array t n) = (\<lambda>bs. seq_of (decode_seq (replicate n (decode t)) bs))"
| "decode (Flex t) = (\<lambda>bs. if sizeof t = 0 \<or> length bs mod sizeof t \<noteq> 0 then None
     else seq_of (decode_seq (replicate (length bs div sizeof t) (decode t)) bs))"
| "decode (Struct fs) = (\<lambda>bs. seq_of (decode_seq (map (\<lambda>(n, t). decode t) fs) bs))"
| "decode (Union fs) = (\<lambda>bs. if sizeof (Union fs) \<le> length bs
     then Some (Raw (take (sizeof (Union fs)) bs), drop (sizeof (Union fs)) bs) else None)"

lemma ctype_induct [case_names UInt Array Flex Struct Union]:
  assumes "\<And>k. P (UInt k)" "\<And>t n. P t \<Longrightarrow> P (Array t n)" "\<And>t. P t \<Longrightarrow> P (Flex t)"
    "\<And>fs. (\<And>n t. (n, t) \<in> set fs \<Longrightarrow> P t) \<Longrightarrow> P (Struct fs)" "\<And>fs. P (Union fs)"
  shows "P t"
  using assms by (induction t rule: encode.induct) auto

section \<open>Exact coders\<close>

text \<open>
  A declaration is exact when \<open>encode\<close> maps its values to byte strings of the declared size, \<open>decode\<close> takes
  the value off the front of an input, and fails only on an input that is too short.
\<close>

definition exact :: "ctype \<Rightarrow> bool" where
  "exact t \<longleftrightarrow>
     (\<forall>v r. has_type t v \<longrightarrow> length (encode t v) = sizeof t \<and> decode t (encode t v @ r) = Some (v, r)) \<and>
     (\<forall>bs. sizeof t \<le> length bs \<longrightarrow>
        (\<exists>v. has_type t v \<and> encode t v = take (sizeof t) bs \<and> decode t bs = Some (v, drop (sizeof t) bs))) \<and>
     (\<forall>bs. length bs < sizeof t \<longrightarrow> decode t bs = None)"

lemma exactI:
  assumes "\<And>v r. has_type t v \<Longrightarrow> length (encode t v) = sizeof t \<and> decode t (encode t v @ r) = Some (v, r)"
    and "\<And>bs. sizeof t \<le> length bs \<Longrightarrow>
      \<exists>v. has_type t v \<and> encode t v = take (sizeof t) bs \<and> decode t bs = Some (v, drop (sizeof t) bs)"
    and "\<And>bs. length bs < sizeof t \<Longrightarrow> decode t bs = None"
  shows "exact t"
  using assms by (simp add: exact_def)

lemma exactD:
  assumes "exact t"
  shows "has_type t v \<Longrightarrow> length (encode t v) = sizeof t" "has_type t v \<Longrightarrow> decode t (encode t v @ r) = Some (v, r)"
    "length bs < sizeof t \<Longrightarrow> decode t bs = None"
  using assms by (auto simp: exact_def)

lemma exactE:
  assumes "exact t" "sizeof t \<le> length bs"
  obtains v where "has_type t v" "encode t v = take (sizeof t) bs" "decode t bs = Some (v, drop (sizeof t) bs)"
  using assms unfolding exact_def by blast

lemma length_le_bytes [simp]: "length (le_bytes k n) = k"
  by (induction k arbitrary: n) auto

lemma le_bytes_add: "le_bytes (a + b) n = le_bytes a n @ le_bytes b (n div 256 ^ a)"
  by (induction a arbitrary: n) (simp_all add: div_mult2_eq)

lemma le_bytes_2: "le_bytes 2 n = [of_nat (n mod 256), of_nat (n div 256 mod 256)]"
  by (simp add: numeral_2_eq_2)

lemma le_bytes_4: "le_bytes 4 n = le_bytes 2 n @ le_bytes 2 (n div 65536)"
  using le_bytes_add [of 2 2 n] by simp

lemma le_bytes_8: "le_bytes 8 n = le_bytes 4 n @ le_bytes 4 (n div 4294967296)"
  using le_bytes_add [of 4 4 n] by simp

lemmas le_bytes_width = le_bytes_2 le_bytes_4 le_bytes_8

lemma le_value_bytes [simp]: "n < 256 ^ k \<Longrightarrow> le_value (le_bytes k n) = n"
proof (induction k arbitrary: n)
  case (Suc k)
  then have "n div 256 < 256 ^ k" by (simp add: less_mult_imp_div_less mult.commute)
  with Suc.IH show ?case by (simp add: unat_of_nat take_bit_nat_eq_self_iff)
qed simp

lemma le_bytes_value [simp]: "le_bytes (length bs) (le_value bs) = bs"
proof (induction bs)
  case (Cons b bs)
  have "unat b < 256" using unsigned_less [of b] by simp
  with Cons show ?case by (simp add: div_add1_eq)
qed simp

lemma le_value_less: "le_value bs < 256 ^ length bs"
proof (induction bs)
  case (Cons b bs)
  have "unat b < 256" using unsigned_less [of b] by simp
  moreover have "Suc (le_value bs) * 256 \<le> 256 ^ length bs * 256" using Cons by (intro mult_le_mono1) simp
  ultimately show ?case by (simp only: le_value.simps list.size power_Suc power_add power_0 mult_Suc mult_1_right)
qed simp

lemma exact_UInt: "exact (UInt k)"
proof (rule exactI)
  fix bs :: "byte list" assume "sizeof (UInt k) \<le> length bs"
  then have "length (take k bs) = k" by simp
  then show "\<exists>v. has_type (UInt k) v \<and> encode (UInt k) v = take (sizeof (UInt k)) bs \<and>
      decode (UInt k) bs = Some (v, drop (sizeof (UInt k)) bs)"
    using le_value_less [of "take k bs"] le_bytes_value [of "take k bs"] by (intro exI [of _ "Num (le_value (take k bs))"]) simp
qed (auto split: cval.splits)

lemma exact_Union: "exact (Union fs)"
  by (rule exactI) (auto split: cval.splits intro!: exI [of _ "Raw (take k bs)" for k bs])

section \<open>Sequences of members\<close>

abbreviation seq_type :: "ctype list \<Rightarrow> cval list \<Rightarrow> bool" where "seq_type \<equiv> list_all2 has_type"
abbreviation seq_size :: "ctype list \<Rightarrow> nat" where "seq_size ts \<equiv> sum_list (map sizeof ts)"
abbreviation seq_enc :: "ctype list \<Rightarrow> cval list \<Rightarrow> byte list" where "seq_enc ts \<equiv> encode_seq (map encode ts)"
abbreviation seq_dec :: "ctype list \<Rightarrow> byte list \<Rightarrow> (cval list \<times> byte list) option" where
  "seq_dec ts \<equiv> decode_seq (map decode ts)"

lemma seq_roundtrip:
  assumes "\<forall>t \<in> set ts. exact t" "seq_type ts vs"
  shows "length (seq_enc ts vs) = seq_size ts \<and> seq_dec ts (seq_enc ts vs @ r) = Some (vs, r)"
  using assms(2,1) by (induction rule: list_all2_induct) (simp_all add: exactD)

lemma seq_total:
  assumes "\<forall>t \<in> set ts. exact t" "seq_size ts \<le> length bs"
  shows "\<exists>vs. seq_type ts vs \<and> seq_enc ts vs = take (seq_size ts) bs \<and> seq_dec ts bs = Some (vs, drop (seq_size ts) bs)"
  using assms
proof (induction ts arbitrary: bs)
  case (Cons t ts)
  then have t: "exact t" and len: "sizeof t \<le> length bs" "seq_size ts \<le> length (drop (sizeof t) bs)" by auto
  obtain v where v: "has_type t v" "encode t v = take (sizeof t) bs" "decode t bs = Some (v, drop (sizeof t) bs)"
    by (rule exactE [OF t len(1)])
  obtain vs where vs: "seq_type ts vs" "seq_enc ts vs = take (seq_size ts) (drop (sizeof t) bs)"
      "seq_dec ts (drop (sizeof t) bs) = Some (vs, drop (seq_size ts) (drop (sizeof t) bs))"
    using Cons.IH [OF _ len(2)] Cons.prems(1) by auto
  show ?case using v vs by (intro exI [of _ "v # vs"]) (simp add: take_add add.commute)
qed simp

lemma seq_short: "\<forall>t \<in> set ts. exact t \<Longrightarrow> length bs < seq_size ts \<Longrightarrow> seq_dec ts bs = None"
proof (induction ts arbitrary: bs)
  case (Cons t ts)
  then have t: "exact t" by simp
  show ?case
  proof (cases "sizeof t \<le> length bs")
    case True
    obtain v where "decode t bs = Some (v, drop (sizeof t) bs)" by (rule exactE [OF t True])
    moreover have "length (drop (sizeof t) bs) < seq_size ts" using Cons.prems(2) True by simp
    then have "seq_dec ts (drop (sizeof t) bs) = None" using Cons.IH Cons.prems(1) by simp
    ultimately show ?thesis by simp
  qed (simp add: exactD(3) [OF t])
qed simp

lemma list_all2_apply: "list_all2 (\<lambda>p v. p v) (map P ts) vs = list_all2 P ts vs"
  by (simp add: list_all2_map1)

lemma members_eq:
  "map (\<lambda>(n, t). f t) fs = map f (map snd fs)" "list_all (\<lambda>(n, t). g t) fs \<longleftrightarrow> (\<forall>t \<in> set (map snd fs). g t)"
  by (auto simp: list_all_iff)

lemma list_all2_replicate: "list_all2 P (replicate n t) vs \<longleftrightarrow> length vs = n \<and> list_all (P t) vs"
  by (auto simp: list_all2_conv_all_nth list_all_length)

text \<open>Arrays and structures of exact types are exact: both are the sequence of their elements.\<close>

lemma exact_as_seq:
  assumes "\<forall>u \<in> set ts. exact u" and "sizeof t = seq_size ts"
    and "\<And>v. has_type t v \<longleftrightarrow> (\<exists>vs. v = Seq vs \<and> seq_type ts vs)"
    and "\<And>vs. seq_type ts vs \<Longrightarrow> encode t (Seq vs) = seq_enc ts vs"
    and "\<And>bs. decode t bs = seq_of (seq_dec ts bs)"
  shows "exact t"
proof (rule exactI)
  fix v r assume "has_type t v"
  then obtain vs where "v = Seq vs" "seq_type ts vs" using assms(3) by blast
  then show "length (encode t v) = sizeof t \<and> decode t (encode t v @ r) = Some (v, r)"
    using seq_roundtrip [OF assms(1)] assms(2,4,5) by (simp add: seq_of_def)
next
  fix bs :: "byte list" assume "sizeof t \<le> length bs"
  then obtain vs where "seq_type ts vs" "seq_enc ts vs = take (seq_size ts) bs" "seq_dec ts bs = Some (vs, drop (seq_size ts) bs)"
    using seq_total [OF assms(1)] assms(2) by auto
  then show "\<exists>v. has_type t v \<and> encode t v = take (sizeof t) bs \<and> decode t bs = Some (v, drop (sizeof t) bs)"
    using assms(2-5) by (intro exI [of _ "Seq vs"]) (simp add: seq_of_def)
next
  fix bs :: "byte list" assume "length bs < sizeof t"
  then show "decode t bs = None" using seq_short [OF assms(1)] assms(2,5) by (simp add: seq_of_def)
qed

lemma exact_Array: "exact t \<Longrightarrow> exact (Array t n)"
  by (rule exact_as_seq [of "replicate n t"])
    (auto simp: sum_list_replicate list_all2_replicate split: cval.splits)

lemma exact_Struct: "(\<And>n t. (n, t) \<in> set fs \<Longrightarrow> exact t) \<Longrightarrow> exact (Struct fs)"
  by (rule exact_as_seq [of "map snd fs"])
    (auto simp: members_eq list_all2_apply split: cval.splits simp del: map_map)

lemma closed_exact: "closed t \<Longrightarrow> exact t"
proof (induction t rule: ctype_induct)
  case (Struct fs)
  then show ?case by (intro exact_Struct) (auto simp: list_all_iff)
qed (simp_all add: exact_UInt exact_Union exact_Array)

section \<open>Declarations that end in a flexible array\<close>

text \<open>What holds of every declaration: reading a whole message and writing it are inverse.\<close>

definition whole :: "ctype \<Rightarrow> bool" where
  "whole t \<longleftrightarrow> (\<forall>v. has_type t v \<longrightarrow> sizeof t \<le> length (encode t v) \<and> decode t (encode t v) = Some (v, [])) \<and>
     (\<forall>bs v. decode t bs = Some (v, []) \<longrightarrow> has_type t v \<and> encode t v = bs)"

lemma whole_exact: "exact t \<Longrightarrow> whole t"
proof -
  assume t: "exact t"
  have "has_type t v \<and> encode t v = bs" if d: "decode t bs = Some (v, [])" for bs v
  proof -
    have "sizeof t \<le> length bs" using exactD(3) [OF t, of bs] d by fastforce
    then show ?thesis by (rule exactE [OF t]) (use d in auto)
  qed
  then show ?thesis using exactD(1) [OF t] exactD(2) [OF t, where r = "[]"] by (simp add: whole_def)
qed

lemma whole_Flex: assumes "exact t" "0 < sizeof t" shows "whole (Flex t)"
proof -
  have rt: "decode (Flex t) (encode (Flex t) (Seq vs)) = Some (Seq vs, [])" if "list_all (has_type t) vs" for vs
    using seq_roundtrip [of "replicate (length vs) t" vs "[]"] that assms
    by (simp add: sum_list_replicate list_all2_replicate seq_of_def)
  have "has_type (Flex t) v \<and> encode (Flex t) v = bs" if d: "decode (Flex t) bs = Some (v, [])" for bs v
  proof -
    let ?ts = "replicate (length bs div sizeof t) t"
    have sz: "seq_size ?ts = length bs" using d by (auto simp: sum_list_replicate split: if_splits)
    obtain vs where "seq_type ?ts vs" "seq_enc ?ts vs = bs" "seq_dec ?ts bs = Some (vs, [])"
      using seq_total [of ?ts bs] assms(1) sz by auto
    then show ?thesis using d by (auto simp: seq_of_def list_all2_replicate split: if_splits)
  qed
  moreover have "decode (Flex t) (encode (Flex t) v) = Some (v, [])" if "has_type (Flex t) v" for v
    using rt that by (cases v) (simp_all del: decode.simps encode.simps)
  ultimately show ?thesis by (simp add: whole_def del: decode.simps encode.simps)
qed

lemma encode_seq_snoc: "length es = length vs \<Longrightarrow> encode_seq (es @ [e]) (vs @ [v]) = encode_seq es vs @ e v"
  by (induction es vs rule: list_induct2) simp_all

lemma decode_seq_snoc:
  "decode_seq (ds @ [d]) bs = (case decode_seq ds bs of None \<Rightarrow> None
     | Some (vs, r) \<Rightarrow> map_option (\<lambda>(v, r'). (vs @ [v], r')) (d r))"
  by (induction ds arbitrary: bs) (auto simp: option.map_comp comp_def split_def split: option.splits prod.splits)

lemma whole_seq_snoc:
  assumes ts: "\<forall>t \<in> set ts. exact t" and t: "whole t"
  shows "seq_type (ts @ [t]) ws \<Longrightarrow>
      seq_size (ts @ [t]) \<le> length (seq_enc (ts @ [t]) ws) \<and> seq_dec (ts @ [t]) (seq_enc (ts @ [t]) ws) = Some (ws, [])"
    and "seq_dec (ts @ [t]) bs = Some (ws, []) \<Longrightarrow> seq_type (ts @ [t]) ws \<and> seq_enc (ts @ [t]) ws = bs"
proof -
  assume "seq_type (ts @ [t]) ws"
  then obtain vs v where w: "ws = vs @ [v]" "seq_type ts vs" "has_type t v"
    by (auto simp: list_all2_append1 list_all2_Cons1)
  have len: "length ts = length vs" using w(2) by (rule list_all2_lengthD)
  show "seq_size (ts @ [t]) \<le> length (seq_enc (ts @ [t]) ws) \<and> seq_dec (ts @ [t]) (seq_enc (ts @ [t]) ws) = Some (ws, [])"
    using seq_roundtrip [OF ts w(2), of "encode t v"] t w(3) len
    by (simp add: w(1) encode_seq_snoc decode_seq_snoc whole_def)
next
  assume "seq_dec (ts @ [t]) bs = Some (ws, [])"
  then obtain vs r v where d: "seq_dec ts bs = Some (vs, r)" "decode t r = Some (v, [])" "ws = vs @ [v]"
    by (auto simp: decode_seq_snoc split: option.splits)
  have "seq_size ts \<le> length bs" using seq_short [OF ts, of bs] d(1) by fastforce
  then have "seq_type ts vs" "seq_enc ts vs @ r = bs"
    using seq_total [OF ts, of bs] d(1) by auto
  moreover have "has_type t v" "encode t v = r" using t d(2) by (auto simp: whole_def)
  ultimately show "seq_type (ts @ [t]) ws \<and> seq_enc (ts @ [t]) ws = bs"
    by (auto simp: d(3) encode_seq_snoc list_all2_appendI dest: list_all2_lengthD)
qed

lemma whole_Struct:
  assumes "\<forall>t \<in> set ts. exact t" "whole t" "map snd fs = ts @ [t]"
  shows "whole (Struct fs)"
  using whole_seq_snoc [OF assms(1,2)]
  by (auto simp: whole_def members_eq list_all2_apply assms(3) seq_of_def split: cval.splits simp del: map_map map_append)

lemma layout_whole: "layout_ok t \<Longrightarrow> whole t"
proof (induction t rule: ctype_induct)
  case (Flex t)
  then show ?case by (intro whole_Flex closed_exact) simp_all
next
  case (Struct fs)
  show ?case
  proof (cases fs rule: rev_cases)
    case Nil
    then show ?thesis by (intro whole_exact closed_exact) simp
  next
    case (snoc gs m)
    obtain n t where m: "m = (n, t)" by (cases m)
    have "\<forall>u \<in> set (map snd gs). exact u" using Struct.prems by (force simp: snoc list_all_iff intro: closed_exact)
    moreover have "whole t" using Struct.IH [of n t] Struct.prems by (simp add: snoc m)
    ultimately show ?thesis by (rule whole_Struct) (simp add: snoc m)
  qed
qed (simp_all add: whole_exact closed_exact)

lemmas layout_roundtrip = layout_whole [unfolded whole_def]

section \<open>Tables of constants\<close>

text \<open>
  The request types of a protocol with their names, and the named values of the members of a structure.
\<close>

named_theorems gb_tables \<open>declarations and constants of the protocol header\<close>
named_theorems gb_layouts_ok \<open>the declarations of one protocol are well-formed\<close>

type_synonym request_types = "(string \<times> u8) list"
type_synonym named_values = "(string \<times> string \<times> nat) list"

fun member_type :: "(string \<times> ctype) list \<Rightarrow> string \<Rightarrow> ctype option" where
  "member_type [] m = None"
| "member_type ((n, t) # fs) m = (if n = m then Some t else member_type fs m)"

definition value_fits :: "ctype \<Rightarrow> string \<Rightarrow> nat \<Rightarrow> bool" where
  "value_fits t m v = (case t of Struct fs \<Rightarrow> (case member_type fs m of Some u \<Rightarrow> has_type u (Num v) | None \<Rightarrow> False) | _ \<Rightarrow> False)"

definition values_ok :: "ctype \<Rightarrow> named_values \<Rightarrow> bool" where
  "values_ok t vs \<longleftrightarrow> distinct (map (\<lambda>(m, c, v). (m, v)) vs) \<and> list_all (\<lambda>(m, c, v). value_fits t m v) vs"

section \<open>Members in place\<close>

text \<open>A member lies at its offset: this is what makes a cast of the payload pointer read the right bytes.\<close>

lemma member_at_offset:
  assumes "closed (Struct (gs @ (f, t) # hs))" "f \<notin> fst ` set gs" "has_type (Struct (gs @ (f, t) # hs)) (Seq vs)"
  shows "\<exists>k. offsetof (Struct (gs @ (f, t) # hs)) f = Some k \<and>
    take (sizeof t) (drop k (encode (Struct (gs @ (f, t) # hs)) (Seq vs))) = encode t (vs ! length gs)"
  using assms
proof (induction gs arbitrary: vs)
  case Nil
  then have "exact t" by (auto intro: closed_exact)
  with Nil show ?case by (auto simp: list_all2_Cons1 exactD)
next
  case (Cons g gs)
  obtain n u where g: "g = (n, u)" by (cases g)
  obtain v us where vs: "vs = v # us" "has_type u v" "has_type (Struct (gs @ (f, t) # hs)) (Seq us)"
    using Cons.prems(3) by (auto simp: g list_all2_Cons1)
  obtain k where k: "offsetof (Struct (gs @ (f, t) # hs)) f = Some k"
    "take (sizeof t) (drop k (encode (Struct (gs @ (f, t) # hs)) (Seq us))) = encode t (us ! length gs)"
    using Cons.IH [OF _ _ vs(3)] Cons.prems(1,2) by auto
  have "length (encode u v) = sizeof u" using Cons.prems(1) vs(2) by (simp add: g exactD(1) [OF closed_exact])
  moreover have "n \<noteq> f" using Cons.prems(2) by (auto simp: g)
  ultimately show ?case using k by (simp add: g vs(1))
qed

end
