(* ===== verification/Control_Layouts.thy ===== *)
theory Control_Layouts
  imports Packed_Layouts Greybus_Protocols
begin

text \<open>
  The structures and request types of the protocols between AP, SVC and modules, transcribed from
  include/greybus_protocols.h: operation header, control, AP bridge, firmware download and management,
  authentication, bootrom and SVC.
\<close>

section \<open>Operation messages\<close>

definition gb_operation_msg_hdr_layout :: ctype where
  [gb_tables]: "gb_operation_msg_hdr_layout = Struct [(''size'', LE16), (''operation_id'', LE16),
     (''type'', U8), (''result'', U8), (''pad'', Array U8 2)]"

definition gb_cport_shutdown_request_layout :: ctype where
  [gb_tables]: "gb_cport_shutdown_request_layout = Struct [(''phase'', U8)]"

definition gb_op_layouts :: "ctype list" where
  "gb_op_layouts = [gb_operation_msg_hdr_layout, gb_cport_shutdown_request_layout]"

lemma gb_op_layouts_ok [gb_layouts_ok]: "list_all layout_ok gb_op_layouts"
  by (simp add: gb_op_layouts_def gb_tables)

section \<open>Control protocol\<close>

definition gb_control_types :: request_types where
  [gb_tables]: "gb_control_types = [(''VERSION'', GB_CONTROL_TYPE_VERSION), (''PROBE_AP'', 0x02),
     (''GET_MANIFEST_SIZE'', GB_CONTROL_TYPE_GET_MANIFEST_SIZE),
     (''GET_MANIFEST'', GB_CONTROL_TYPE_GET_MANIFEST), (''CONNECTED'', GB_CONTROL_TYPE_CONNECTED),
     (''DISCONNECTED'', GB_CONTROL_TYPE_DISCONNECTED), (''TIMESYNC_ENABLE'', GB_CONTROL_TYPE_TIMESYNC_ENABLE),
     (''TIMESYNC_DISABLE'', GB_CONTROL_TYPE_TIMESYNC_DISABLE),
     (''TIMESYNC_AUTHORITATIVE'', GB_CONTROL_TYPE_TIMESYNC_AUTHORITATIVE), (''BUNDLE_VERSION'', 0x0b),
     (''DISCONNECTING'', GB_CONTROL_TYPE_DISCONNECTING), (''TIMESYNC_GET_LAST_EVENT'', 0x0d),
     (''MODE_SWITCH'', 0x0e), (''BUNDLE_SUSPEND'', 0x0f), (''BUNDLE_RESUME'', 0x10),
     (''BUNDLE_DEACTIVATE'', 0x11), (''BUNDLE_ACTIVATE'', 0x12), (''INTF_SUSPEND_PREPARE'', 0x13),
     (''INTF_DEACTIVATE_PREPARE'', 0x14), (''INTF_HIBERNATE_ABORT'', GB_CONTROL_TYPE_INTF_HIBERNATE_ABORT)]"

definition gb_control_version_request_layout :: ctype where
  [gb_tables]: "gb_control_version_request_layout = Struct [(''major'', U8), (''minor'', U8)]"

definition gb_control_version_response_layout :: ctype where
  [gb_tables]: "gb_control_version_response_layout = Struct [(''major'', U8), (''minor'', U8)]"

definition gb_control_bundle_version_request_layout :: ctype where
  [gb_tables]: "gb_control_bundle_version_request_layout = Struct [(''bundle_id'', U8)]"

definition gb_control_bundle_version_response_layout :: ctype where
  [gb_tables]: "gb_control_bundle_version_response_layout = Struct [(''major'', U8), (''minor'', U8)]"

definition gb_control_get_manifest_size_response_layout :: ctype where
  [gb_tables]: "gb_control_get_manifest_size_response_layout = Struct [(''size'', LE16)]"

definition gb_control_get_manifest_response_layout :: ctype where
  [gb_tables]: "gb_control_get_manifest_response_layout = Struct [(''data'', Flex U8)]"

definition gb_control_connected_request_layout :: ctype where
  [gb_tables]: "gb_control_connected_request_layout = Struct [(''cport_id'', LE16)]"

definition gb_control_disconnecting_request_layout :: ctype where
  [gb_tables]: "gb_control_disconnecting_request_layout = Struct [(''cport_id'', LE16)]"

definition gb_control_disconnected_request_layout :: ctype where
  [gb_tables]: "gb_control_disconnected_request_layout = Struct [(''cport_id'', LE16)]"

definition gb_control_bundle_pm_request_layout :: ctype where
  [gb_tables]: "gb_control_bundle_pm_request_layout = Struct [(''bundle_id'', U8)]"

definition gb_control_bundle_pm_response_layout :: ctype where
  [gb_tables]: "gb_control_bundle_pm_response_layout = Struct [(''status'', U8)]"

definition gb_control_intf_pm_response_layout :: ctype where
  [gb_tables]: "gb_control_intf_pm_response_layout = Struct [(''status'', U8)]"

definition gb_control_layouts :: "ctype list" where
  "gb_control_layouts = [gb_control_version_request_layout, gb_control_version_response_layout,
     gb_control_bundle_version_request_layout, gb_control_bundle_version_response_layout,
     gb_control_get_manifest_size_response_layout, gb_control_get_manifest_response_layout,
     gb_control_connected_request_layout, gb_control_disconnecting_request_layout,
     gb_control_disconnected_request_layout, gb_control_bundle_pm_request_layout,
     gb_control_bundle_pm_response_layout, gb_control_intf_pm_response_layout]"

lemma gb_control_layouts_ok [gb_layouts_ok]: "list_all layout_ok gb_control_layouts"
  by (simp add: gb_control_layouts_def gb_tables)

section \<open>AP bridge protocol\<close>

definition gb_apb_request_cport_flags_layout :: ctype where
  [gb_tables]: "gb_apb_request_cport_flags_layout = Struct [(''flags'', LE32)]"

definition gb_apb_request_cport_flags_values :: named_values where
  [gb_tables]: "gb_apb_request_cport_flags_values = [(''flags'', ''GB_APB_CPORT_FLAG_CONTROL'', 0x01),
     (''flags'', ''GB_APB_CPORT_FLAG_HIGH_PRIO'', 0x02)]"

definition gb_apb_layouts :: "ctype list" where
  "gb_apb_layouts = [gb_apb_request_cport_flags_layout]"

lemma gb_apb_layouts_ok [gb_layouts_ok]: "list_all layout_ok gb_apb_layouts"
  by (simp add: gb_apb_layouts_def gb_tables)

section \<open>Firmware download protocol\<close>

definition gb_fw_download_types :: request_types where
  [gb_tables]: "gb_fw_download_types = [(''FIND_FIRMWARE'', 0x01), (''FETCH_FIRMWARE'', 0x02),
     (''RELEASE_FIRMWARE'', 0x03)]"

definition GB_FIRMWARE_TAG_MAX_SIZE :: nat where [gb_tables]: "GB_FIRMWARE_TAG_MAX_SIZE = 10"

definition gb_fw_download_find_firmware_request_layout :: ctype where
  [gb_tables]: "gb_fw_download_find_firmware_request_layout = Struct [
     (''firmware_tag'', Array U8 GB_FIRMWARE_TAG_MAX_SIZE)]"

definition gb_fw_download_find_firmware_response_layout :: ctype where
  [gb_tables]: "gb_fw_download_find_firmware_response_layout = Struct [(''firmware_id'', U8), (''size'', LE32)]"

definition gb_fw_download_fetch_firmware_request_layout :: ctype where
  [gb_tables]: "gb_fw_download_fetch_firmware_request_layout = Struct [(''firmware_id'', U8),
     (''offset'', LE32), (''size'', LE32)]"

definition gb_fw_download_release_firmware_request_layout :: ctype where
  [gb_tables]: "gb_fw_download_release_firmware_request_layout = Struct [(''firmware_id'', U8)]"

definition gb_fw_download_layouts :: "ctype list" where
  "gb_fw_download_layouts = [gb_fw_download_find_firmware_request_layout,
     gb_fw_download_find_firmware_response_layout, gb_fw_download_fetch_firmware_request_layout,
     gb_fw_download_release_firmware_request_layout]"

lemma gb_fw_download_layouts_ok [gb_layouts_ok]: "list_all layout_ok gb_fw_download_layouts"
  by (simp add: gb_fw_download_layouts_def gb_tables)

section \<open>Firmware management protocol\<close>

definition gb_fw_mgmt_types :: request_types where
  [gb_tables]: "gb_fw_mgmt_types = [(''INTERFACE_FW_VERSION'', 0x01), (''LOAD_AND_VALIDATE_FW'', 0x02),
     (''LOADED_FW'', 0x03), (''BACKEND_FW_VERSION'', 0x04), (''BACKEND_FW_UPDATE'', 0x05),
     (''BACKEND_FW_UPDATED'', 0x06)]"

definition gb_fw_mgmt_interface_fw_version_response_layout :: ctype where
  [gb_tables]: "gb_fw_mgmt_interface_fw_version_response_layout = Struct [
     (''firmware_tag'', Array U8 GB_FIRMWARE_TAG_MAX_SIZE), (''major'', LE16), (''minor'', LE16)]"

definition gb_fw_mgmt_load_and_validate_fw_request_layout :: ctype where
  [gb_tables]: "gb_fw_mgmt_load_and_validate_fw_request_layout = Struct [(''request_id'', U8),
     (''load_method'', U8), (''firmware_tag'', Array U8 GB_FIRMWARE_TAG_MAX_SIZE)]"

definition gb_fw_mgmt_loaded_fw_request_layout :: ctype where
  [gb_tables]: "gb_fw_mgmt_loaded_fw_request_layout = Struct [(''request_id'', U8), (''status'', U8),
     (''major'', LE16), (''minor'', LE16)]"

definition gb_fw_mgmt_backend_fw_version_request_layout :: ctype where
  [gb_tables]: "gb_fw_mgmt_backend_fw_version_request_layout = Struct [
     (''firmware_tag'', Array U8 GB_FIRMWARE_TAG_MAX_SIZE)]"

definition gb_fw_mgmt_backend_fw_version_response_layout :: ctype where
  [gb_tables]: "gb_fw_mgmt_backend_fw_version_response_layout = Struct [(''major'', LE16), (''minor'', LE16),
     (''status'', U8)]"

definition gb_fw_mgmt_backend_fw_update_request_layout :: ctype where
  [gb_tables]: "gb_fw_mgmt_backend_fw_update_request_layout = Struct [(''request_id'', U8),
     (''firmware_tag'', Array U8 GB_FIRMWARE_TAG_MAX_SIZE)]"

definition gb_fw_mgmt_backend_fw_updated_request_layout :: ctype where
  [gb_tables]: "gb_fw_mgmt_backend_fw_updated_request_layout = Struct [(''request_id'', U8), (''status'', U8)]"

definition gb_fw_mgmt_layouts :: "ctype list" where
  "gb_fw_mgmt_layouts = [gb_fw_mgmt_interface_fw_version_response_layout,
     gb_fw_mgmt_load_and_validate_fw_request_layout, gb_fw_mgmt_loaded_fw_request_layout,
     gb_fw_mgmt_backend_fw_version_request_layout, gb_fw_mgmt_backend_fw_version_response_layout,
     gb_fw_mgmt_backend_fw_update_request_layout, gb_fw_mgmt_backend_fw_updated_request_layout]"

lemma gb_fw_mgmt_layouts_ok [gb_layouts_ok]: "list_all layout_ok gb_fw_mgmt_layouts"
  by (simp add: gb_fw_mgmt_layouts_def gb_tables)

section \<open>Component authentication protocol\<close>

definition gb_cap_types :: request_types where
  [gb_tables]: "gb_cap_types = [(''GET_ENDPOINT_UID'', 0x01), (''GET_IMS_CERTIFICATE'', 0x02),
     (''AUTHENTICATE'', 0x03)]"

definition gb_cap_get_endpoint_uid_response_layout :: ctype where
  [gb_tables]: "gb_cap_get_endpoint_uid_response_layout = Struct [(''uid'', Array U8 8)]"

definition gb_cap_get_ims_certificate_request_layout :: ctype where
  [gb_tables]: "gb_cap_get_ims_certificate_request_layout = Struct [(''certificate_class'', LE32),
     (''certificate_id'', LE32)]"

definition gb_cap_get_ims_certificate_response_layout :: ctype where
  [gb_tables]: "gb_cap_get_ims_certificate_response_layout = Struct [(''result_code'', U8),
     (''certificate'', Flex U8)]"

definition gb_cap_authenticate_request_layout :: ctype where
  [gb_tables]: "gb_cap_authenticate_request_layout = Struct [(''auth_type'', LE32), (''uid'', Array U8 8),
     (''challenge'', Array U8 32)]"

definition gb_cap_authenticate_response_layout :: ctype where
  [gb_tables]: "gb_cap_authenticate_response_layout = Struct [(''result_code'', U8),
     (''response'', Array U8 64), (''signature'', Flex U8)]"

definition gb_cap_layouts :: "ctype list" where
  "gb_cap_layouts = [gb_cap_get_endpoint_uid_response_layout, gb_cap_get_ims_certificate_request_layout,
     gb_cap_get_ims_certificate_response_layout, gb_cap_authenticate_request_layout,
     gb_cap_authenticate_response_layout]"

lemma gb_cap_layouts_ok [gb_layouts_ok]: "list_all layout_ok gb_cap_layouts"
  by (simp add: gb_cap_layouts_def gb_tables)

section \<open>Bootrom protocol\<close>

definition gb_bootrom_types :: request_types where
  [gb_tables]: "gb_bootrom_types = [(''VERSION'', 0x01), (''FIRMWARE_SIZE'', 0x02), (''GET_FIRMWARE'', 0x03),
     (''READY_TO_BOOT'', 0x04), (''AP_READY'', 0x05), (''GET_VID_PID'', 0x06)]"

definition gb_bootrom_version_request_layout :: ctype where
  [gb_tables]: "gb_bootrom_version_request_layout = Struct [(''major'', U8), (''minor'', U8)]"

definition gb_bootrom_version_response_layout :: ctype where
  [gb_tables]: "gb_bootrom_version_response_layout = Struct [(''major'', U8), (''minor'', U8)]"

definition gb_bootrom_firmware_size_request_layout :: ctype where
  [gb_tables]: "gb_bootrom_firmware_size_request_layout = Struct [(''stage'', U8)]"

definition gb_bootrom_firmware_size_response_layout :: ctype where
  [gb_tables]: "gb_bootrom_firmware_size_response_layout = Struct [(''size'', LE32)]"

definition gb_bootrom_get_firmware_request_layout :: ctype where
  [gb_tables]: "gb_bootrom_get_firmware_request_layout = Struct [(''offset'', LE32), (''size'', LE32)]"

definition gb_bootrom_ready_to_boot_request_layout :: ctype where
  [gb_tables]: "gb_bootrom_ready_to_boot_request_layout = Struct [(''status'', U8)]"

definition gb_bootrom_get_vid_pid_response_layout :: ctype where
  [gb_tables]: "gb_bootrom_get_vid_pid_response_layout = Struct [(''vendor_id'', LE32), (''product_id'', LE32)]"

definition gb_bootrom_layouts :: "ctype list" where
  "gb_bootrom_layouts = [gb_bootrom_version_request_layout, gb_bootrom_version_response_layout,
     gb_bootrom_firmware_size_request_layout, gb_bootrom_firmware_size_response_layout,
     gb_bootrom_get_firmware_request_layout, gb_bootrom_ready_to_boot_request_layout,
     gb_bootrom_get_vid_pid_response_layout]"

lemma gb_bootrom_layouts_ok [gb_layouts_ok]: "list_all layout_ok gb_bootrom_layouts"
  by (simp add: gb_bootrom_layouts_def gb_tables)

section \<open>SVC protocol\<close>

definition gb_svc_types :: request_types where
  [gb_tables]: "gb_svc_types = [(''PROTOCOL_VERSION'', GB_SVC_TYPE_PROTOCOL_VERSION),
     (''SVC_HELLO'', GB_SVC_TYPE_SVC_HELLO), (''INTF_DEVICE_ID'', GB_SVC_TYPE_INTF_DEVICE_ID),
     (''INTF_RESET'', 0x06), (''CONN_CREATE'', GB_SVC_TYPE_CONN_CREATE),
     (''CONN_DESTROY'', GB_SVC_TYPE_CONN_DESTROY), (''DME_PEER_GET'', GB_SVC_TYPE_DME_PEER_GET),
     (''DME_PEER_SET'', GB_SVC_TYPE_DME_PEER_SET), (''ROUTE_CREATE'', GB_SVC_TYPE_ROUTE_CREATE),
     (''ROUTE_DESTROY'', GB_SVC_TYPE_ROUTE_DESTROY), (''TIMESYNC_ENABLE'', 0x0d), (''TIMESYNC_DISABLE'', 0x0e),
     (''TIMESYNC_AUTHORITATIVE'', 0x0f), (''INTF_SET_PWRM'', GB_SVC_TYPE_INTF_SET_PWRM), (''INTF_EJECT'', 0x11),
     (''PING'', GB_SVC_TYPE_PING), (''PWRMON_RAIL_COUNT_GET'', GB_SVC_TYPE_PWRMON_RAIL_COUNT_GET),
     (''PWRMON_RAIL_NAMES_GET'', 0x15), (''PWRMON_SAMPLE_GET'', 0x16), (''PWRMON_INTF_SAMPLE_GET'', 0x17),
     (''TIMESYNC_WAKE_PINS_ACQUIRE'', 0x18), (''TIMESYNC_WAKE_PINS_RELEASE'', 0x19), (''TIMESYNC_PING'', 0x1a),
     (''MODULE_INSERTED'', GB_SVC_TYPE_MODULE_INSERTED), (''MODULE_REMOVED'', GB_SVC_TYPE_MODULE_REMOVED),
     (''INTF_VSYS_ENABLE'', GB_SVC_TYPE_INTF_VSYS_ENABLE),
     (''INTF_VSYS_DISABLE'', GB_SVC_TYPE_INTF_VSYS_DISABLE),
     (''INTF_REFCLK_ENABLE'', GB_SVC_TYPE_INTF_REFCLK_ENABLE),
     (''INTF_REFCLK_DISABLE'', GB_SVC_TYPE_INTF_REFCLK_DISABLE),
     (''INTF_UNIPRO_ENABLE'', GB_SVC_TYPE_INTF_UNIPRO_ENABLE),
     (''INTF_UNIPRO_DISABLE'', GB_SVC_TYPE_INTF_UNIPRO_DISABLE), (''INTF_ACTIVATE'', GB_SVC_TYPE_INTF_ACTIVATE),
     (''INTF_RESUME'', GB_SVC_TYPE_INTF_RESUME), (''INTF_MAILBOX_EVENT'', 0x29), (''INTF_OOPS'', 0x2a)]"

definition gb_svc_version_request_layout :: ctype where
  [gb_tables]: "gb_svc_version_request_layout = Struct [(''major'', U8), (''minor'', U8)]"

definition gb_svc_version_response_layout :: ctype where
  [gb_tables]: "gb_svc_version_response_layout = Struct [(''major'', U8), (''minor'', U8)]"

definition gb_svc_hello_request_layout :: ctype where
  [gb_tables]: "gb_svc_hello_request_layout = Struct [(''endo_id'', LE16), (''interface_id'', U8)]"

definition gb_svc_intf_device_id_request_layout :: ctype where
  [gb_tables]: "gb_svc_intf_device_id_request_layout = Struct [(''intf_id'', U8), (''device_id'', U8)]"

definition gb_svc_intf_reset_request_layout :: ctype where
  [gb_tables]: "gb_svc_intf_reset_request_layout = Struct [(''intf_id'', U8)]"

definition gb_svc_intf_eject_request_layout :: ctype where
  [gb_tables]: "gb_svc_intf_eject_request_layout = Struct [(''intf_id'', U8)]"

definition gb_svc_conn_create_request_layout :: ctype where
  [gb_tables]: "gb_svc_conn_create_request_layout = Struct [(''intf1_id'', U8), (''cport1_id'', LE16),
     (''intf2_id'', U8), (''cport2_id'', LE16), (''tc'', U8), (''flags'', U8)]"

definition gb_svc_conn_destroy_request_layout :: ctype where
  [gb_tables]: "gb_svc_conn_destroy_request_layout = Struct [(''intf1_id'', U8), (''cport1_id'', LE16),
     (''intf2_id'', U8), (''cport2_id'', LE16)]"

definition gb_svc_dme_peer_get_request_layout :: ctype where
  [gb_tables]: "gb_svc_dme_peer_get_request_layout = Struct [(''intf_id'', U8), (''attr'', LE16),
     (''selector'', LE16)]"

definition gb_svc_dme_peer_get_response_layout :: ctype where
  [gb_tables]: "gb_svc_dme_peer_get_response_layout = Struct [(''result_code'', LE16), (''attr_value'', LE32)]"

definition gb_svc_dme_peer_set_request_layout :: ctype where
  [gb_tables]: "gb_svc_dme_peer_set_request_layout = Struct [(''intf_id'', U8), (''attr'', LE16),
     (''selector'', LE16), (''value'', LE32)]"

definition gb_svc_dme_peer_set_response_layout :: ctype where
  [gb_tables]: "gb_svc_dme_peer_set_response_layout = Struct [(''result_code'', LE16)]"

definition gb_svc_route_create_request_layout :: ctype where
  [gb_tables]: "gb_svc_route_create_request_layout = Struct [(''intf1_id'', U8), (''dev1_id'', U8),
     (''intf2_id'', U8), (''dev2_id'', U8)]"

definition gb_svc_route_destroy_request_layout :: ctype where
  [gb_tables]: "gb_svc_route_destroy_request_layout = Struct [(''intf1_id'', U8), (''intf2_id'', U8)]"

definition gb_svc_intf_vsys_request_layout :: ctype where
  [gb_tables]: "gb_svc_intf_vsys_request_layout = Struct [(''intf_id'', U8)]"

definition gb_svc_intf_vsys_response_layout :: ctype where
  [gb_tables]: "gb_svc_intf_vsys_response_layout = Struct [(''result_code'', U8)]"

definition gb_svc_intf_vsys_response_values :: named_values where
  [gb_tables]: "gb_svc_intf_vsys_response_values = [(''result_code'', ''GB_SVC_INTF_VSYS_OK'', 0x00),
     (''result_code'', ''GB_SVC_INTF_VSYS_FAIL'', 0x02)]"

definition gb_svc_intf_refclk_request_layout :: ctype where
  [gb_tables]: "gb_svc_intf_refclk_request_layout = Struct [(''intf_id'', U8)]"

definition gb_svc_intf_refclk_response_layout :: ctype where
  [gb_tables]: "gb_svc_intf_refclk_response_layout = Struct [(''result_code'', U8)]"

definition gb_svc_intf_refclk_response_values :: named_values where
  [gb_tables]: "gb_svc_intf_refclk_response_values = [(''result_code'', ''GB_SVC_INTF_REFCLK_OK'', 0x00),
     (''result_code'', ''GB_SVC_INTF_REFCLK_FAIL'', 0x02)]"

definition gb_svc_intf_unipro_request_layout :: ctype where
  [gb_tables]: "gb_svc_intf_unipro_request_layout = Struct [(''intf_id'', U8)]"

definition gb_svc_intf_unipro_response_layout :: ctype where
  [gb_tables]: "gb_svc_intf_unipro_response_layout = Struct [(''result_code'', U8)]"

definition gb_svc_intf_unipro_response_values :: named_values where
  [gb_tables]: "gb_svc_intf_unipro_response_values = [(''result_code'', ''GB_SVC_INTF_UNIPRO_OK'', 0x00),
     (''result_code'', ''GB_SVC_INTF_UNIPRO_FAIL'', 0x02),
     (''result_code'', ''GB_SVC_INTF_UNIPRO_NOT_OFF'', 0x03)]"

definition gb_svc_l2_timer_cfg_layout :: ctype where
  [gb_tables]: "gb_svc_l2_timer_cfg_layout = Struct [(''tsb_fc0_protection_timeout'', LE16),
     (''tsb_tc0_replay_timeout'', LE16), (''tsb_afc0_req_timeout'', LE16),
     (''tsb_fc1_protection_timeout'', LE16), (''tsb_tc1_replay_timeout'', LE16),
     (''tsb_afc1_req_timeout'', LE16), (''reserved_for_tc2'', Array LE16 3),
     (''reserved_for_tc3'', Array LE16 3)]"

definition gb_svc_intf_set_pwrm_request_layout :: ctype where
  [gb_tables]: "gb_svc_intf_set_pwrm_request_layout = Struct [(''intf_id'', U8), (''hs_series'', U8),
     (''tx_mode'', U8), (''tx_gear'', U8), (''tx_nlanes'', U8), (''tx_amplitude'', U8),
     (''tx_hs_equalizer'', U8), (''rx_mode'', U8), (''rx_gear'', U8), (''rx_nlanes'', U8), (''flags'', U8),
     (''quirks'', LE32), (''local_l2timerdata'', gb_svc_l2_timer_cfg_layout),
     (''remote_l2timerdata'', gb_svc_l2_timer_cfg_layout)]"

definition gb_svc_intf_set_pwrm_response_layout :: ctype where
  [gb_tables]: "gb_svc_intf_set_pwrm_response_layout = Struct [(''result_code'', U8)]"

definition gb_svc_key_event_request_layout :: ctype where
  [gb_tables]: "gb_svc_key_event_request_layout = Struct [(''key_code'', LE16), (''key_event'', U8)]"

definition gb_svc_key_event_request_values :: named_values where
  [gb_tables]: "gb_svc_key_event_request_values = [(''key_code'', ''GB_KEYCODE_ARA'', 0x00),
     (''key_event'', ''GB_SVC_KEY_RELEASED'', 0x00), (''key_event'', ''GB_SVC_KEY_PRESSED'', 0x01)]"

definition gb_svc_pwrmon_rail_count_get_response_layout :: ctype where
  [gb_tables]: "gb_svc_pwrmon_rail_count_get_response_layout = Struct [(''rail_count'', U8)]"

definition GB_SVC_PWRMON_RAIL_NAME_BUFSIZE :: nat where [gb_tables]: "GB_SVC_PWRMON_RAIL_NAME_BUFSIZE = 32"

definition gb_svc_pwrmon_rail_names_get_response_layout :: ctype where
  [gb_tables]: "gb_svc_pwrmon_rail_names_get_response_layout = Struct [(''status'', U8),
     (''name'', Flex (Array U8 GB_SVC_PWRMON_RAIL_NAME_BUFSIZE))]"

definition gb_svc_pwrmon_sample_get_request_layout :: ctype where
  [gb_tables]: "gb_svc_pwrmon_sample_get_request_layout = Struct [(''rail_id'', U8),
     (''measurement_type'', U8)]"

definition gb_svc_pwrmon_sample_get_response_layout :: ctype where
  [gb_tables]: "gb_svc_pwrmon_sample_get_response_layout = Struct [(''result'', U8), (''measurement'', LE32)]"

definition gb_svc_pwrmon_intf_sample_get_request_layout :: ctype where
  [gb_tables]: "gb_svc_pwrmon_intf_sample_get_request_layout = Struct [(''intf_id'', U8),
     (''measurement_type'', U8)]"

definition gb_svc_pwrmon_intf_sample_get_response_layout :: ctype where
  [gb_tables]: "gb_svc_pwrmon_intf_sample_get_response_layout = Struct [(''result'', U8),
     (''measurement'', LE32)]"

definition gb_svc_module_inserted_request_layout :: ctype where
  [gb_tables]: "gb_svc_module_inserted_request_layout = Struct [(''primary_intf_id'', U8), (''intf_count'', U8),
     (''flags'', LE16)]"

definition gb_svc_module_removed_request_layout :: ctype where
  [gb_tables]: "gb_svc_module_removed_request_layout = Struct [(''primary_intf_id'', U8)]"

definition gb_svc_intf_activate_request_layout :: ctype where
  [gb_tables]: "gb_svc_intf_activate_request_layout = Struct [(''intf_id'', U8)]"

definition gb_svc_intf_activate_response_layout :: ctype where
  [gb_tables]: "gb_svc_intf_activate_response_layout = Struct [(''status'', U8), (''intf_type'', U8)]"

definition gb_svc_intf_resume_request_layout :: ctype where
  [gb_tables]: "gb_svc_intf_resume_request_layout = Struct [(''intf_id'', U8)]"

definition gb_svc_intf_resume_response_layout :: ctype where
  [gb_tables]: "gb_svc_intf_resume_response_layout = Struct [(''status'', U8)]"

definition gb_svc_intf_mailbox_event_request_layout :: ctype where
  [gb_tables]: "gb_svc_intf_mailbox_event_request_layout = Struct [(''intf_id'', U8), (''result_code'', LE16),
     (''mailbox'', LE32)]"

definition gb_svc_intf_oops_request_layout :: ctype where
  [gb_tables]: "gb_svc_intf_oops_request_layout = Struct [(''intf_id'', U8), (''reason'', U8)]"

definition gb_svc_layouts :: "ctype list" where
  "gb_svc_layouts = [gb_svc_version_request_layout, gb_svc_version_response_layout, gb_svc_hello_request_layout,
     gb_svc_intf_device_id_request_layout, gb_svc_intf_reset_request_layout, gb_svc_intf_eject_request_layout,
     gb_svc_conn_create_request_layout, gb_svc_conn_destroy_request_layout, gb_svc_dme_peer_get_request_layout,
     gb_svc_dme_peer_get_response_layout, gb_svc_dme_peer_set_request_layout,
     gb_svc_dme_peer_set_response_layout, gb_svc_route_create_request_layout,
     gb_svc_route_destroy_request_layout, gb_svc_intf_vsys_request_layout, gb_svc_intf_vsys_response_layout,
     gb_svc_intf_refclk_request_layout, gb_svc_intf_refclk_response_layout, gb_svc_intf_unipro_request_layout,
     gb_svc_intf_unipro_response_layout, gb_svc_l2_timer_cfg_layout, gb_svc_intf_set_pwrm_request_layout,
     gb_svc_intf_set_pwrm_response_layout, gb_svc_key_event_request_layout,
     gb_svc_pwrmon_rail_count_get_response_layout, gb_svc_pwrmon_rail_names_get_response_layout,
     gb_svc_pwrmon_sample_get_request_layout, gb_svc_pwrmon_sample_get_response_layout,
     gb_svc_pwrmon_intf_sample_get_request_layout, gb_svc_pwrmon_intf_sample_get_response_layout,
     gb_svc_module_inserted_request_layout, gb_svc_module_removed_request_layout,
     gb_svc_intf_activate_request_layout, gb_svc_intf_activate_response_layout,
     gb_svc_intf_resume_request_layout, gb_svc_intf_resume_response_layout,
     gb_svc_intf_mailbox_event_request_layout, gb_svc_intf_oops_request_layout]"

lemma gb_svc_layouts_ok [gb_layouts_ok]: "list_all layout_ok gb_svc_layouts"
  by (simp add: gb_svc_layouts_def gb_tables)

end
