(* ===== verification/Class_Layouts.thy ===== *)
theory Class_Layouts
  imports Control_Layouts
begin

text \<open>
  The structures and request types of the device class protocols of include/greybus_protocols.h.  The firmware
  carries their messages between a node and the AP without looking into them.
\<close>

section \<open>Power supply\<close>

definition gb_power_supply_types :: request_types where
  [gb_tables]: "gb_power_supply_types = [(''GET_SUPPLIES'', 0x02), (''GET_DESCRIPTION'', 0x03),
     (''GET_PROP_DESCRIPTORS'', 0x04), (''GET_PROPERTY'', 0x05), (''SET_PROPERTY'', 0x06), (''EVENT'', 0x07)]"

definition GB_FIRMWARE_TAG_MAX_SIZE :: nat where [gb_tables]: "GB_FIRMWARE_TAG_MAX_SIZE = 10"

definition GB_SVC_PWRMON_RAIL_NAME_BUFSIZE :: nat where [gb_tables]: "GB_SVC_PWRMON_RAIL_NAME_BUFSIZE = 32"

definition gb_power_supply_get_supplies_response_layout :: ctype where
  [gb_tables]: "gb_power_supply_get_supplies_response_layout = Struct [(''supplies_count'', U8)]"

definition gb_power_supply_get_description_request_layout :: ctype where
  [gb_tables]: "gb_power_supply_get_description_request_layout = Struct [(''psy_id'', U8)]"

definition gb_power_supply_get_description_response_layout :: ctype where
  [gb_tables]: "gb_power_supply_get_description_response_layout = Struct [(''manufacturer'', Array U8 32),
     (''model'', Array U8 32), (''serial_number'', Array U8 32), (''type'', LE16), (''properties_count'', U8)]"

definition gb_power_supply_props_desc_layout :: ctype where
  [gb_tables]: "gb_power_supply_props_desc_layout = Struct [(''property'', U8), (''is_writeable'', U8)]"

definition gb_power_supply_props_desc_values :: named_values where
  [gb_tables]: "gb_power_supply_props_desc_values = [(''property'', ''GB_POWER_SUPPLY_PROP_STATUS'', 0x00),
     (''property'', ''GB_POWER_SUPPLY_PROP_CHARGE_TYPE'', 0x01),
     (''property'', ''GB_POWER_SUPPLY_PROP_HEALTH'', 0x02),
     (''property'', ''GB_POWER_SUPPLY_PROP_PRESENT'', 0x03),
     (''property'', ''GB_POWER_SUPPLY_PROP_ONLINE'', 0x04),
     (''property'', ''GB_POWER_SUPPLY_PROP_AUTHENTIC'', 0x05),
     (''property'', ''GB_POWER_SUPPLY_PROP_TECHNOLOGY'', 0x06),
     (''property'', ''GB_POWER_SUPPLY_PROP_CYCLE_COUNT'', 0x07),
     (''property'', ''GB_POWER_SUPPLY_PROP_VOLTAGE_MAX'', 0x08),
     (''property'', ''GB_POWER_SUPPLY_PROP_VOLTAGE_MIN'', 0x09),
     (''property'', ''GB_POWER_SUPPLY_PROP_VOLTAGE_MAX_DESIGN'', 0x0a),
     (''property'', ''GB_POWER_SUPPLY_PROP_VOLTAGE_MIN_DESIGN'', 0x0b),
     (''property'', ''GB_POWER_SUPPLY_PROP_VOLTAGE_NOW'', 0x0c),
     (''property'', ''GB_POWER_SUPPLY_PROP_VOLTAGE_AVG'', 0x0d),
     (''property'', ''GB_POWER_SUPPLY_PROP_VOLTAGE_OCV'', 0x0e),
     (''property'', ''GB_POWER_SUPPLY_PROP_VOLTAGE_BOOT'', 0x0f),
     (''property'', ''GB_POWER_SUPPLY_PROP_CURRENT_MAX'', 0x10),
     (''property'', ''GB_POWER_SUPPLY_PROP_CURRENT_NOW'', 0x11),
     (''property'', ''GB_POWER_SUPPLY_PROP_CURRENT_AVG'', 0x12),
     (''property'', ''GB_POWER_SUPPLY_PROP_CURRENT_BOOT'', 0x13),
     (''property'', ''GB_POWER_SUPPLY_PROP_POWER_NOW'', 0x14),
     (''property'', ''GB_POWER_SUPPLY_PROP_POWER_AVG'', 0x15),
     (''property'', ''GB_POWER_SUPPLY_PROP_CHARGE_FULL_DESIGN'', 0x16),
     (''property'', ''GB_POWER_SUPPLY_PROP_CHARGE_EMPTY_DESIGN'', 0x17),
     (''property'', ''GB_POWER_SUPPLY_PROP_CHARGE_FULL'', 0x18),
     (''property'', ''GB_POWER_SUPPLY_PROP_CHARGE_EMPTY'', 0x19),
     (''property'', ''GB_POWER_SUPPLY_PROP_CHARGE_NOW'', 0x1a),
     (''property'', ''GB_POWER_SUPPLY_PROP_CHARGE_AVG'', 0x1b),
     (''property'', ''GB_POWER_SUPPLY_PROP_CHARGE_COUNTER'', 0x1c),
     (''property'', ''GB_POWER_SUPPLY_PROP_CONSTANT_CHARGE_CURRENT'', 0x1d),
     (''property'', ''GB_POWER_SUPPLY_PROP_CONSTANT_CHARGE_CURRENT_MAX'', 0x1e),
     (''property'', ''GB_POWER_SUPPLY_PROP_CONSTANT_CHARGE_VOLTAGE'', 0x1f),
     (''property'', ''GB_POWER_SUPPLY_PROP_CONSTANT_CHARGE_VOLTAGE_MAX'', 0x20),
     (''property'', ''GB_POWER_SUPPLY_PROP_CHARGE_CONTROL_LIMIT'', 0x21),
     (''property'', ''GB_POWER_SUPPLY_PROP_CHARGE_CONTROL_LIMIT_MAX'', 0x22),
     (''property'', ''GB_POWER_SUPPLY_PROP_INPUT_CURRENT_LIMIT'', 0x23),
     (''property'', ''GB_POWER_SUPPLY_PROP_ENERGY_FULL_DESIGN'', 0x24),
     (''property'', ''GB_POWER_SUPPLY_PROP_ENERGY_EMPTY_DESIGN'', 0x25),
     (''property'', ''GB_POWER_SUPPLY_PROP_ENERGY_FULL'', 0x26),
     (''property'', ''GB_POWER_SUPPLY_PROP_ENERGY_EMPTY'', 0x27),
     (''property'', ''GB_POWER_SUPPLY_PROP_ENERGY_NOW'', 0x28),
     (''property'', ''GB_POWER_SUPPLY_PROP_ENERGY_AVG'', 0x29),
     (''property'', ''GB_POWER_SUPPLY_PROP_CAPACITY'', 0x2a),
     (''property'', ''GB_POWER_SUPPLY_PROP_CAPACITY_ALERT_MIN'', 0x2b),
     (''property'', ''GB_POWER_SUPPLY_PROP_CAPACITY_ALERT_MAX'', 0x2c),
     (''property'', ''GB_POWER_SUPPLY_PROP_CAPACITY_LEVEL'', 0x2d),
     (''property'', ''GB_POWER_SUPPLY_PROP_TEMP'', 0x2e),
     (''property'', ''GB_POWER_SUPPLY_PROP_TEMP_MAX'', 0x2f),
     (''property'', ''GB_POWER_SUPPLY_PROP_TEMP_MIN'', 0x30),
     (''property'', ''GB_POWER_SUPPLY_PROP_TEMP_ALERT_MIN'', 0x31),
     (''property'', ''GB_POWER_SUPPLY_PROP_TEMP_ALERT_MAX'', 0x32),
     (''property'', ''GB_POWER_SUPPLY_PROP_TEMP_AMBIENT'', 0x33),
     (''property'', ''GB_POWER_SUPPLY_PROP_TEMP_AMBIENT_ALERT_MIN'', 0x34),
     (''property'', ''GB_POWER_SUPPLY_PROP_TEMP_AMBIENT_ALERT_MAX'', 0x35),
     (''property'', ''GB_POWER_SUPPLY_PROP_TIME_TO_EMPTY_NOW'', 0x36),
     (''property'', ''GB_POWER_SUPPLY_PROP_TIME_TO_EMPTY_AVG'', 0x37),
     (''property'', ''GB_POWER_SUPPLY_PROP_TIME_TO_FULL_NOW'', 0x38),
     (''property'', ''GB_POWER_SUPPLY_PROP_TIME_TO_FULL_AVG'', 0x39),
     (''property'', ''GB_POWER_SUPPLY_PROP_TYPE'', 0x3a), (''property'', ''GB_POWER_SUPPLY_PROP_SCOPE'', 0x3b),
     (''property'', ''GB_POWER_SUPPLY_PROP_CHARGE_TERM_CURRENT'', 0x3c),
     (''property'', ''GB_POWER_SUPPLY_PROP_CALIBRATE'', 0x3d)]"

definition gb_power_supply_get_property_descriptors_request_layout :: ctype where
  [gb_tables]: "gb_power_supply_get_property_descriptors_request_layout = Struct [(''psy_id'', U8)]"

definition gb_power_supply_get_property_descriptors_response_layout :: ctype where
  [gb_tables]: "gb_power_supply_get_property_descriptors_response_layout = Struct [(''properties_count'', U8),
     (''props'', Flex gb_power_supply_props_desc_layout)]"

definition gb_power_supply_get_property_request_layout :: ctype where
  [gb_tables]: "gb_power_supply_get_property_request_layout = Struct [(''psy_id'', U8), (''property'', U8)]"

definition gb_power_supply_get_property_response_layout :: ctype where
  [gb_tables]: "gb_power_supply_get_property_response_layout = Struct [(''prop_val'', LE32)]"

definition gb_power_supply_set_property_request_layout :: ctype where
  [gb_tables]: "gb_power_supply_set_property_request_layout = Struct [(''psy_id'', U8), (''property'', U8),
     (''prop_val'', LE32)]"

definition gb_power_supply_event_request_layout :: ctype where
  [gb_tables]: "gb_power_supply_event_request_layout = Struct [(''psy_id'', U8), (''event'', U8)]"

definition gb_power_supply_event_request_values :: named_values where
  [gb_tables]: "gb_power_supply_event_request_values = [(''event'', ''GB_POWER_SUPPLY_UPDATE'', 0x01)]"

definition gb_power_supply_layouts :: "ctype list" where
  "gb_power_supply_layouts = [gb_power_supply_get_supplies_response_layout,
     gb_power_supply_get_description_request_layout, gb_power_supply_get_description_response_layout,
     gb_power_supply_props_desc_layout, gb_power_supply_get_property_descriptors_request_layout,
     gb_power_supply_get_property_descriptors_response_layout, gb_power_supply_get_property_request_layout,
     gb_power_supply_get_property_response_layout, gb_power_supply_set_property_request_layout,
     gb_power_supply_event_request_layout]"

lemma gb_power_supply_layouts_ok [gb_layouts_ok]: "list_all layout_ok gb_power_supply_layouts"
  by (simp add: gb_power_supply_layouts_def gb_tables)

section \<open>HID\<close>

definition gb_hid_types :: request_types where
  [gb_tables]: "gb_hid_types = [(''GET_DESC'', 0x02), (''GET_REPORT_DESC'', 0x03), (''PWR_ON'', 0x04),
     (''PWR_OFF'', 0x05), (''GET_REPORT'', 0x06), (''SET_REPORT'', 0x07), (''IRQ_EVENT'', 0x08)]"

definition gb_hid_desc_response_layout :: ctype where
  [gb_tables]: "gb_hid_desc_response_layout = Struct [(''bLength'', U8), (''wReportDescLength'', LE16),
     (''bcdHID'', LE16), (''wProductID'', LE16), (''wVendorID'', LE16), (''bCountryCode'', U8)]"

definition gb_hid_get_report_request_layout :: ctype where
  [gb_tables]: "gb_hid_get_report_request_layout = Struct [(''report_type'', U8), (''report_id'', U8)]"

definition gb_hid_set_report_request_layout :: ctype where
  [gb_tables]: "gb_hid_set_report_request_layout = Struct [(''report_type'', U8), (''report_id'', U8),
     (''report'', Flex U8)]"

definition gb_hid_input_report_request_layout :: ctype where
  [gb_tables]: "gb_hid_input_report_request_layout = Struct [(''report'', Flex U8)]"

definition gb_hid_layouts :: "ctype list" where
  "gb_hid_layouts = [gb_hid_desc_response_layout, gb_hid_get_report_request_layout,
     gb_hid_set_report_request_layout, gb_hid_input_report_request_layout]"

lemma gb_hid_layouts_ok [gb_layouts_ok]: "list_all layout_ok gb_hid_layouts"
  by (simp add: gb_hid_layouts_def gb_tables)

section \<open>I2C\<close>

definition gb_i2c_types :: request_types where
  [gb_tables]: "gb_i2c_types = [(''FUNCTIONALITY'', 0x02), (''TRANSFER'', 0x05)]"

definition gb_i2c_functionality_response_layout :: ctype where
  [gb_tables]: "gb_i2c_functionality_response_layout = Struct [(''functionality'', LE32)]"

definition gb_i2c_transfer_op_layout :: ctype where
  [gb_tables]: "gb_i2c_transfer_op_layout = Struct [(''addr'', LE16), (''flags'', LE16), (''size'', LE16)]"

definition gb_i2c_transfer_request_layout :: ctype where
  [gb_tables]: "gb_i2c_transfer_request_layout = Struct [(''op_count'', LE16),
     (''ops'', Flex gb_i2c_transfer_op_layout)]"

definition gb_i2c_transfer_response_layout :: ctype where
  [gb_tables]: "gb_i2c_transfer_response_layout = Struct [(''data'', Flex U8)]"

definition gb_i2c_layouts :: "ctype list" where
  "gb_i2c_layouts = [gb_i2c_functionality_response_layout, gb_i2c_transfer_op_layout,
     gb_i2c_transfer_request_layout, gb_i2c_transfer_response_layout]"

lemma gb_i2c_layouts_ok [gb_layouts_ok]: "list_all layout_ok gb_i2c_layouts"
  by (simp add: gb_i2c_layouts_def gb_tables)

section \<open>GPIO\<close>

definition gb_gpio_types :: request_types where
  [gb_tables]: "gb_gpio_types = [(''LINE_COUNT'', 0x02), (''ACTIVATE'', 0x03), (''DEACTIVATE'', 0x04),
     (''GET_DIRECTION'', 0x05), (''DIRECTION_IN'', 0x06), (''DIRECTION_OUT'', 0x07), (''GET_VALUE'', 0x08),
     (''SET_VALUE'', 0x09), (''SET_DEBOUNCE'', 0x0a), (''IRQ_TYPE'', 0x0b), (''IRQ_MASK'', 0x0c),
     (''IRQ_UNMASK'', 0x0d), (''IRQ_EVENT'', 0x0e)]"

definition gb_gpio_line_count_response_layout :: ctype where
  [gb_tables]: "gb_gpio_line_count_response_layout = Struct [(''count'', U8)]"

definition gb_gpio_activate_request_layout :: ctype where
  [gb_tables]: "gb_gpio_activate_request_layout = Struct [(''which'', U8)]"

definition gb_gpio_deactivate_request_layout :: ctype where
  [gb_tables]: "gb_gpio_deactivate_request_layout = Struct [(''which'', U8)]"

definition gb_gpio_get_direction_request_layout :: ctype where
  [gb_tables]: "gb_gpio_get_direction_request_layout = Struct [(''which'', U8)]"

definition gb_gpio_get_direction_response_layout :: ctype where
  [gb_tables]: "gb_gpio_get_direction_response_layout = Struct [(''direction'', U8)]"

definition gb_gpio_direction_in_request_layout :: ctype where
  [gb_tables]: "gb_gpio_direction_in_request_layout = Struct [(''which'', U8)]"

definition gb_gpio_direction_out_request_layout :: ctype where
  [gb_tables]: "gb_gpio_direction_out_request_layout = Struct [(''which'', U8), (''value'', U8)]"

definition gb_gpio_get_value_request_layout :: ctype where
  [gb_tables]: "gb_gpio_get_value_request_layout = Struct [(''which'', U8)]"

definition gb_gpio_get_value_response_layout :: ctype where
  [gb_tables]: "gb_gpio_get_value_response_layout = Struct [(''value'', U8)]"

definition gb_gpio_set_value_request_layout :: ctype where
  [gb_tables]: "gb_gpio_set_value_request_layout = Struct [(''which'', U8), (''value'', U8)]"

definition gb_gpio_set_debounce_request_layout :: ctype where
  [gb_tables]: "gb_gpio_set_debounce_request_layout = Struct [(''which'', U8), (''usec'', LE16)]"

definition gb_gpio_irq_type_request_layout :: ctype where
  [gb_tables]: "gb_gpio_irq_type_request_layout = Struct [(''which'', U8), (''type'', U8)]"

definition gb_gpio_irq_mask_request_layout :: ctype where
  [gb_tables]: "gb_gpio_irq_mask_request_layout = Struct [(''which'', U8)]"

definition gb_gpio_irq_unmask_request_layout :: ctype where
  [gb_tables]: "gb_gpio_irq_unmask_request_layout = Struct [(''which'', U8)]"

definition gb_gpio_irq_event_request_layout :: ctype where
  [gb_tables]: "gb_gpio_irq_event_request_layout = Struct [(''which'', U8)]"

definition gb_gpio_layouts :: "ctype list" where
  "gb_gpio_layouts = [gb_gpio_line_count_response_layout, gb_gpio_activate_request_layout,
     gb_gpio_deactivate_request_layout, gb_gpio_get_direction_request_layout,
     gb_gpio_get_direction_response_layout, gb_gpio_direction_in_request_layout,
     gb_gpio_direction_out_request_layout, gb_gpio_get_value_request_layout, gb_gpio_get_value_response_layout,
     gb_gpio_set_value_request_layout, gb_gpio_set_debounce_request_layout, gb_gpio_irq_type_request_layout,
     gb_gpio_irq_mask_request_layout, gb_gpio_irq_unmask_request_layout, gb_gpio_irq_event_request_layout]"

lemma gb_gpio_layouts_ok [gb_layouts_ok]: "list_all layout_ok gb_gpio_layouts"
  by (simp add: gb_gpio_layouts_def gb_tables)

section \<open>PWM\<close>

definition gb_pwm_types :: request_types where
  [gb_tables]: "gb_pwm_types = [(''PWM_COUNT'', 0x02), (''ACTIVATE'', 0x03), (''DEACTIVATE'', 0x04),
     (''CONFIG'', 0x05), (''POLARITY'', 0x06), (''ENABLE'', 0x07), (''DISABLE'', 0x08)]"

definition gb_pwm_count_response_layout :: ctype where
  [gb_tables]: "gb_pwm_count_response_layout = Struct [(''count'', U8)]"

definition gb_pwm_activate_request_layout :: ctype where
  [gb_tables]: "gb_pwm_activate_request_layout = Struct [(''which'', U8)]"

definition gb_pwm_deactivate_request_layout :: ctype where
  [gb_tables]: "gb_pwm_deactivate_request_layout = Struct [(''which'', U8)]"

definition gb_pwm_config_request_layout :: ctype where
  [gb_tables]: "gb_pwm_config_request_layout = Struct [(''which'', U8), (''duty'', LE32), (''period'', LE32)]"

definition gb_pwm_polarity_request_layout :: ctype where
  [gb_tables]: "gb_pwm_polarity_request_layout = Struct [(''which'', U8), (''polarity'', U8)]"

definition gb_pwm_enable_request_layout :: ctype where
  [gb_tables]: "gb_pwm_enable_request_layout = Struct [(''which'', U8)]"

definition gb_pwm_disable_request_layout :: ctype where
  [gb_tables]: "gb_pwm_disable_request_layout = Struct [(''which'', U8)]"

definition gb_pwm_layouts :: "ctype list" where
  "gb_pwm_layouts = [gb_pwm_count_response_layout, gb_pwm_activate_request_layout,
     gb_pwm_deactivate_request_layout, gb_pwm_config_request_layout, gb_pwm_polarity_request_layout,
     gb_pwm_enable_request_layout, gb_pwm_disable_request_layout]"

lemma gb_pwm_layouts_ok [gb_layouts_ok]: "list_all layout_ok gb_pwm_layouts"
  by (simp add: gb_pwm_layouts_def gb_tables)

section \<open>SPI\<close>

definition gb_spi_types :: request_types where
  [gb_tables]: "gb_spi_types = [(''MASTER_CONFIG'', 0x02), (''DEVICE_CONFIG'', 0x03), (''TRANSFER'', 0x04)]"

definition gb_spi_master_config_response_layout :: ctype where
  [gb_tables]: "gb_spi_master_config_response_layout = Struct [(''bits_per_word_mask'', LE32),
     (''min_speed_hz'', LE32), (''max_speed_hz'', LE32), (''mode'', LE16), (''flags'', LE16),
     (''num_chipselect'', U8)]"

definition gb_spi_device_config_request_layout :: ctype where
  [gb_tables]: "gb_spi_device_config_request_layout = Struct [(''chip_select'', U8)]"

definition gb_spi_device_config_response_layout :: ctype where
  [gb_tables]: "gb_spi_device_config_response_layout = Struct [(''mode'', LE16), (''bits_per_word'', U8),
     (''max_speed_hz'', LE32), (''device_type'', U8), (''name'', Array U8 32)]"

definition gb_spi_device_config_response_values :: named_values where
  [gb_tables]: "gb_spi_device_config_response_values = [(''device_type'', ''GB_SPI_SPI_DEV'', 0x00),
     (''device_type'', ''GB_SPI_SPI_NOR'', 0x01), (''device_type'', ''GB_SPI_SPI_MODALIAS'', 0x02)]"

definition gb_spi_transfer_layout :: ctype where
  [gb_tables]: "gb_spi_transfer_layout = Struct [(''speed_hz'', LE32), (''len'', LE32), (''delay_usecs'', LE16),
     (''cs_change'', U8), (''bits_per_word'', U8), (''xfer_flags'', U8)]"

definition gb_spi_transfer_values :: named_values where
  [gb_tables]: "gb_spi_transfer_values = [(''xfer_flags'', ''GB_SPI_XFER_READ'', 0x01),
     (''xfer_flags'', ''GB_SPI_XFER_WRITE'', 0x02), (''xfer_flags'', ''GB_SPI_XFER_INPROGRESS'', 0x04)]"

definition gb_spi_transfer_request_layout :: ctype where
  [gb_tables]: "gb_spi_transfer_request_layout = Struct [(''chip_select'', U8), (''mode'', U8),
     (''count'', LE16), (''transfers'', Flex gb_spi_transfer_layout)]"

definition gb_spi_transfer_response_layout :: ctype where
  [gb_tables]: "gb_spi_transfer_response_layout = Struct [(''data'', Flex U8)]"

definition gb_spi_layouts :: "ctype list" where
  "gb_spi_layouts = [gb_spi_master_config_response_layout, gb_spi_device_config_request_layout,
     gb_spi_device_config_response_layout, gb_spi_transfer_layout, gb_spi_transfer_request_layout,
     gb_spi_transfer_response_layout]"

lemma gb_spi_layouts_ok [gb_layouts_ok]: "list_all layout_ok gb_spi_layouts"
  by (simp add: gb_spi_layouts_def gb_tables)

section \<open>Raw\<close>

definition gb_raw_types :: request_types where
  [gb_tables]: "gb_raw_types = [(''SEND'', 0x02)]"

definition gb_raw_send_request_layout :: ctype where
  [gb_tables]: "gb_raw_send_request_layout = Struct [(''len'', LE32), (''data'', Flex U8)]"

definition gb_raw_layouts :: "ctype list" where
  "gb_raw_layouts = [gb_raw_send_request_layout]"

lemma gb_raw_layouts_ok [gb_layouts_ok]: "list_all layout_ok gb_raw_layouts"
  by (simp add: gb_raw_layouts_def gb_tables)

section \<open>UART\<close>

definition gb_uart_types :: request_types where
  [gb_tables]: "gb_uart_types = [(''SEND_DATA'', 0x02), (''RECEIVE_DATA'', 0x03), (''SET_LINE_CODING'', 0x04),
     (''SET_CONTROL_LINE_STATE'', 0x05), (''SEND_BREAK'', 0x06), (''SERIAL_STATE'', 0x07),
     (''RECEIVE_CREDITS'', 0x08), (''FLUSH_FIFOS'', 0x09)]"

definition gb_uart_send_data_request_layout :: ctype where
  [gb_tables]: "gb_uart_send_data_request_layout = Struct [(''size'', LE16), (''data'', Flex U8)]"

definition gb_uart_recv_data_request_layout :: ctype where
  [gb_tables]: "gb_uart_recv_data_request_layout = Struct [(''size'', LE16), (''flags'', U8),
     (''data'', Flex U8)]"

definition gb_uart_receive_credits_request_layout :: ctype where
  [gb_tables]: "gb_uart_receive_credits_request_layout = Struct [(''count'', LE16)]"

definition gb_uart_set_line_coding_request_layout :: ctype where
  [gb_tables]: "gb_uart_set_line_coding_request_layout = Struct [(''rate'', LE32), (''format'', U8),
     (''parity'', U8), (''data_bits'', U8), (''flow_control'', U8)]"

definition gb_uart_set_line_coding_request_values :: named_values where
  [gb_tables]: "gb_uart_set_line_coding_request_values = [(''format'', ''GB_SERIAL_1_STOP_BITS'', 0),
     (''format'', ''GB_SERIAL_1_5_STOP_BITS'', 1), (''format'', ''GB_SERIAL_2_STOP_BITS'', 2),
     (''parity'', ''GB_SERIAL_NO_PARITY'', 0), (''parity'', ''GB_SERIAL_ODD_PARITY'', 1),
     (''parity'', ''GB_SERIAL_EVEN_PARITY'', 2), (''parity'', ''GB_SERIAL_MARK_PARITY'', 3),
     (''parity'', ''GB_SERIAL_SPACE_PARITY'', 4), (''flow_control'', ''GB_SERIAL_AUTO_RTSCTS_EN'', 0x1)]"

definition gb_uart_set_control_line_state_request_layout :: ctype where
  [gb_tables]: "gb_uart_set_control_line_state_request_layout = Struct [(''control'', U8)]"

definition gb_uart_set_break_request_layout :: ctype where
  [gb_tables]: "gb_uart_set_break_request_layout = Struct [(''state'', U8)]"

definition gb_uart_serial_state_request_layout :: ctype where
  [gb_tables]: "gb_uart_serial_state_request_layout = Struct [(''control'', U8)]"

definition gb_uart_serial_flush_request_layout :: ctype where
  [gb_tables]: "gb_uart_serial_flush_request_layout = Struct [(''flags'', U8)]"

definition gb_uart_serial_flush_request_values :: named_values where
  [gb_tables]: "gb_uart_serial_flush_request_values = [(''flags'', ''GB_SERIAL_FLAG_FLUSH_TRANSMITTER'', 0x01),
     (''flags'', ''GB_SERIAL_FLAG_FLUSH_RECEIVER'', 0x02)]"

definition gb_uart_layouts :: "ctype list" where
  "gb_uart_layouts = [gb_uart_send_data_request_layout, gb_uart_recv_data_request_layout,
     gb_uart_receive_credits_request_layout, gb_uart_set_line_coding_request_layout,
     gb_uart_set_control_line_state_request_layout, gb_uart_set_break_request_layout,
     gb_uart_serial_state_request_layout, gb_uart_serial_flush_request_layout]"

lemma gb_uart_layouts_ok [gb_layouts_ok]: "list_all layout_ok gb_uart_layouts"
  by (simp add: gb_uart_layouts_def gb_tables)

section \<open>Loopback\<close>

definition gb_loopback_types :: request_types where
  [gb_tables]: "gb_loopback_types = [(''PING'', 0x02), (''TRANSFER'', 0x03), (''SINK'', 0x04)]"

definition gb_loopback_transfer_request_layout :: ctype where
  [gb_tables]: "gb_loopback_transfer_request_layout = Struct [(''len'', LE32), (''reserved0'', LE32),
     (''reserved1'', LE32), (''data'', Flex U8)]"

definition gb_loopback_transfer_response_layout :: ctype where
  [gb_tables]: "gb_loopback_transfer_response_layout = Struct [(''len'', LE32), (''reserved0'', LE32),
     (''reserved1'', LE32), (''data'', Flex U8)]"

definition gb_loopback_layouts :: "ctype list" where
  "gb_loopback_layouts = [gb_loopback_transfer_request_layout, gb_loopback_transfer_response_layout]"

lemma gb_loopback_layouts_ok [gb_layouts_ok]: "list_all layout_ok gb_loopback_layouts"
  by (simp add: gb_loopback_layouts_def gb_tables)

section \<open>SDIO\<close>

definition gb_sdio_types :: request_types where
  [gb_tables]: "gb_sdio_types = [(''GET_CAPABILITIES'', 0x02), (''SET_IOS'', 0x03), (''COMMAND'', 0x04),
     (''TRANSFER'', 0x05), (''EVENT'', 0x06)]"

definition gb_sdio_get_caps_response_layout :: ctype where
  [gb_tables]: "gb_sdio_get_caps_response_layout = Struct [(''caps'', LE32), (''ocr'', LE32), (''f_min'', LE32),
     (''f_max'', LE32), (''max_blk_count'', LE16), (''max_blk_size'', LE16)]"

definition gb_sdio_get_caps_response_values :: named_values where
  [gb_tables]: "gb_sdio_get_caps_response_values = [(''caps'', ''GB_SDIO_CAP_NONREMOVABLE'', 0x00000001),
     (''caps'', ''GB_SDIO_CAP_4_BIT_DATA'', 0x00000002), (''caps'', ''GB_SDIO_CAP_8_BIT_DATA'', 0x00000004),
     (''caps'', ''GB_SDIO_CAP_MMC_HS'', 0x00000008), (''caps'', ''GB_SDIO_CAP_SD_HS'', 0x00000010),
     (''caps'', ''GB_SDIO_CAP_ERASE'', 0x00000020), (''caps'', ''GB_SDIO_CAP_1_2V_DDR'', 0x00000040),
     (''caps'', ''GB_SDIO_CAP_1_8V_DDR'', 0x00000080), (''caps'', ''GB_SDIO_CAP_POWER_OFF_CARD'', 0x00000100),
     (''caps'', ''GB_SDIO_CAP_UHS_SDR12'', 0x00000200), (''caps'', ''GB_SDIO_CAP_UHS_SDR25'', 0x00000400),
     (''caps'', ''GB_SDIO_CAP_UHS_SDR50'', 0x00000800), (''caps'', ''GB_SDIO_CAP_UHS_SDR104'', 0x00001000),
     (''caps'', ''GB_SDIO_CAP_UHS_DDR50'', 0x00002000), (''caps'', ''GB_SDIO_CAP_DRIVER_TYPE_A'', 0x00004000),
     (''caps'', ''GB_SDIO_CAP_DRIVER_TYPE_C'', 0x00008000),
     (''caps'', ''GB_SDIO_CAP_DRIVER_TYPE_D'', 0x00010000), (''caps'', ''GB_SDIO_CAP_HS200_1_2V'', 0x00020000),
     (''caps'', ''GB_SDIO_CAP_HS200_1_8V'', 0x00040000), (''caps'', ''GB_SDIO_CAP_HS400_1_2V'', 0x00080000),
     (''caps'', ''GB_SDIO_CAP_HS400_1_8V'', 0x00100000)]"

definition gb_sdio_set_ios_request_layout :: ctype where
  [gb_tables]: "gb_sdio_set_ios_request_layout = Struct [(''clock'', LE32), (''vdd'', LE32), (''bus_mode'', U8),
     (''power_mode'', U8), (''bus_width'', U8), (''timing'', U8), (''signal_voltage'', U8), (''drv_type'', U8)]"

definition gb_sdio_set_ios_request_values :: named_values where
  [gb_tables]: "gb_sdio_set_ios_request_values = [(''vdd'', ''GB_SDIO_VDD_165_195'', 0x00000001),
     (''vdd'', ''GB_SDIO_VDD_20_21'', 0x00000002), (''vdd'', ''GB_SDIO_VDD_21_22'', 0x00000004),
     (''vdd'', ''GB_SDIO_VDD_22_23'', 0x00000008), (''vdd'', ''GB_SDIO_VDD_23_24'', 0x00000010),
     (''vdd'', ''GB_SDIO_VDD_24_25'', 0x00000020), (''vdd'', ''GB_SDIO_VDD_25_26'', 0x00000040),
     (''vdd'', ''GB_SDIO_VDD_26_27'', 0x00000080), (''vdd'', ''GB_SDIO_VDD_27_28'', 0x00000100),
     (''vdd'', ''GB_SDIO_VDD_28_29'', 0x00000200), (''vdd'', ''GB_SDIO_VDD_29_30'', 0x00000400),
     (''vdd'', ''GB_SDIO_VDD_30_31'', 0x00000800), (''vdd'', ''GB_SDIO_VDD_31_32'', 0x00001000),
     (''vdd'', ''GB_SDIO_VDD_32_33'', 0x00002000), (''vdd'', ''GB_SDIO_VDD_33_34'', 0x00004000),
     (''vdd'', ''GB_SDIO_VDD_34_35'', 0x00008000), (''vdd'', ''GB_SDIO_VDD_35_36'', 0x00010000),
     (''bus_mode'', ''GB_SDIO_BUSMODE_OPENDRAIN'', 0x00), (''bus_mode'', ''GB_SDIO_BUSMODE_PUSHPULL'', 0x01),
     (''power_mode'', ''GB_SDIO_POWER_OFF'', 0x00), (''power_mode'', ''GB_SDIO_POWER_UP'', 0x01),
     (''power_mode'', ''GB_SDIO_POWER_ON'', 0x02), (''power_mode'', ''GB_SDIO_POWER_UNDEFINED'', 0x03),
     (''bus_width'', ''GB_SDIO_BUS_WIDTH_1'', 0x00), (''bus_width'', ''GB_SDIO_BUS_WIDTH_4'', 0x02),
     (''bus_width'', ''GB_SDIO_BUS_WIDTH_8'', 0x03), (''timing'', ''GB_SDIO_TIMING_LEGACY'', 0x00),
     (''timing'', ''GB_SDIO_TIMING_MMC_HS'', 0x01), (''timing'', ''GB_SDIO_TIMING_SD_HS'', 0x02),
     (''timing'', ''GB_SDIO_TIMING_UHS_SDR12'', 0x03), (''timing'', ''GB_SDIO_TIMING_UHS_SDR25'', 0x04),
     (''timing'', ''GB_SDIO_TIMING_UHS_SDR50'', 0x05), (''timing'', ''GB_SDIO_TIMING_UHS_SDR104'', 0x06),
     (''timing'', ''GB_SDIO_TIMING_UHS_DDR50'', 0x07), (''timing'', ''GB_SDIO_TIMING_MMC_DDR52'', 0x08),
     (''timing'', ''GB_SDIO_TIMING_MMC_HS200'', 0x09), (''timing'', ''GB_SDIO_TIMING_MMC_HS400'', 0x0a),
     (''signal_voltage'', ''GB_SDIO_SIGNAL_VOLTAGE_330'', 0x00),
     (''signal_voltage'', ''GB_SDIO_SIGNAL_VOLTAGE_180'', 0x01),
     (''signal_voltage'', ''GB_SDIO_SIGNAL_VOLTAGE_120'', 0x02),
     (''drv_type'', ''GB_SDIO_SET_DRIVER_TYPE_B'', 0x00), (''drv_type'', ''GB_SDIO_SET_DRIVER_TYPE_A'', 0x01),
     (''drv_type'', ''GB_SDIO_SET_DRIVER_TYPE_C'', 0x02), (''drv_type'', ''GB_SDIO_SET_DRIVER_TYPE_D'', 0x03)]"

definition gb_sdio_command_request_layout :: ctype where
  [gb_tables]: "gb_sdio_command_request_layout = Struct [(''cmd'', U8), (''cmd_flags'', U8), (''cmd_type'', U8),
     (''cmd_arg'', LE32), (''data_blocks'', LE16), (''data_blksz'', LE16)]"

definition gb_sdio_command_request_values :: named_values where
  [gb_tables]: "gb_sdio_command_request_values = [(''cmd_flags'', ''GB_SDIO_RSP_NONE'', 0x00),
     (''cmd_flags'', ''GB_SDIO_RSP_PRESENT'', 0x01), (''cmd_flags'', ''GB_SDIO_RSP_136'', 0x02),
     (''cmd_flags'', ''GB_SDIO_RSP_CRC'', 0x04), (''cmd_flags'', ''GB_SDIO_RSP_BUSY'', 0x08),
     (''cmd_flags'', ''GB_SDIO_RSP_OPCODE'', 0x10), (''cmd_type'', ''GB_SDIO_CMD_AC'', 0x00),
     (''cmd_type'', ''GB_SDIO_CMD_ADTC'', 0x01), (''cmd_type'', ''GB_SDIO_CMD_BC'', 0x02),
     (''cmd_type'', ''GB_SDIO_CMD_BCR'', 0x03)]"

definition gb_sdio_command_response_layout :: ctype where
  [gb_tables]: "gb_sdio_command_response_layout = Struct [(''resp'', Array LE32 4)]"

definition gb_sdio_transfer_request_layout :: ctype where
  [gb_tables]: "gb_sdio_transfer_request_layout = Struct [(''data_flags'', U8), (''data_blocks'', LE16),
     (''data_blksz'', LE16), (''data'', Flex U8)]"

definition gb_sdio_transfer_request_values :: named_values where
  [gb_tables]: "gb_sdio_transfer_request_values = [(''data_flags'', ''GB_SDIO_DATA_WRITE'', 0x01),
     (''data_flags'', ''GB_SDIO_DATA_READ'', 0x02), (''data_flags'', ''GB_SDIO_DATA_STREAM'', 0x04)]"

definition gb_sdio_transfer_response_layout :: ctype where
  [gb_tables]: "gb_sdio_transfer_response_layout = Struct [(''data_blocks'', LE16), (''data_blksz'', LE16),
     (''data'', Flex U8)]"

definition gb_sdio_event_request_layout :: ctype where
  [gb_tables]: "gb_sdio_event_request_layout = Struct [(''event'', U8)]"

definition gb_sdio_event_request_values :: named_values where
  [gb_tables]: "gb_sdio_event_request_values = [(''event'', ''GB_SDIO_CARD_INSERTED'', 0x01),
     (''event'', ''GB_SDIO_CARD_REMOVED'', 0x02), (''event'', ''GB_SDIO_WP'', 0x04)]"

definition gb_sdio_layouts :: "ctype list" where
  "gb_sdio_layouts = [gb_sdio_get_caps_response_layout, gb_sdio_set_ios_request_layout,
     gb_sdio_command_request_layout, gb_sdio_command_response_layout, gb_sdio_transfer_request_layout,
     gb_sdio_transfer_response_layout, gb_sdio_event_request_layout]"

lemma gb_sdio_layouts_ok [gb_layouts_ok]: "list_all layout_ok gb_sdio_layouts"
  by (simp add: gb_sdio_layouts_def gb_tables)

section \<open>Camera\<close>

definition gb_camera_types :: request_types where
  [gb_tables]: "gb_camera_types = [(''CAPABILITIES'', 0x02), (''CONFIGURE_STREAMS'', 0x03), (''CAPTURE'', 0x04),
     (''FLUSH'', 0x05), (''METADATA'', 0x06)]"

definition gb_camera_stream_config_request_layout :: ctype where
  [gb_tables]: "gb_camera_stream_config_request_layout = Struct [(''width'', LE16), (''height'', LE16),
     (''format'', LE16), (''padding'', LE16)]"

definition gb_camera_configure_streams_request_layout :: ctype where
  [gb_tables]: "gb_camera_configure_streams_request_layout = Struct [(''num_streams'', U8), (''flags'', U8),
     (''padding'', LE16), (''config'', Flex gb_camera_stream_config_request_layout)]"

definition gb_camera_configure_streams_request_values :: named_values where
  [gb_tables]: "gb_camera_configure_streams_request_values = [
     (''flags'', ''GB_CAMERA_CONFIGURE_STREAMS_TEST_ONLY'', 0x01)]"

definition gb_camera_stream_config_response_layout :: ctype where
  [gb_tables]: "gb_camera_stream_config_response_layout = Struct [(''width'', LE16), (''height'', LE16),
     (''format'', LE16), (''virtual_channel'', U8), (''data_type'', Array U8 2), (''max_pkt_size'', LE16),
     (''padding'', U8), (''max_size'', LE32)]"

definition gb_camera_configure_streams_response_layout :: ctype where
  [gb_tables]: "gb_camera_configure_streams_response_layout = Struct [(''num_streams'', U8), (''flags'', U8),
     (''padding'', Array U8 2), (''data_rate'', LE32),
     (''config'', Flex gb_camera_stream_config_response_layout)]"

definition gb_camera_configure_streams_response_values :: named_values where
  [gb_tables]: "gb_camera_configure_streams_response_values = [
     (''flags'', ''GB_CAMERA_CONFIGURE_STREAMS_ADJUSTED'', 0x01)]"

definition gb_camera_capture_request_layout :: ctype where
  [gb_tables]: "gb_camera_capture_request_layout = Struct [(''request_id'', LE32), (''streams'', U8),
     (''padding'', U8), (''num_frames'', LE16), (''settings'', Flex U8)]"

definition gb_camera_flush_response_layout :: ctype where
  [gb_tables]: "gb_camera_flush_response_layout = Struct [(''request_id'', LE32)]"

definition gb_camera_metadata_request_layout :: ctype where
  [gb_tables]: "gb_camera_metadata_request_layout = Struct [(''request_id'', LE32), (''frame_number'', LE16),
     (''stream'', U8), (''padding'', U8), (''metadata'', Flex U8)]"

definition gb_camera_layouts :: "ctype list" where
  "gb_camera_layouts = [gb_camera_stream_config_request_layout, gb_camera_configure_streams_request_layout,
     gb_camera_stream_config_response_layout, gb_camera_configure_streams_response_layout,
     gb_camera_capture_request_layout, gb_camera_flush_response_layout, gb_camera_metadata_request_layout]"

lemma gb_camera_layouts_ok [gb_layouts_ok]: "list_all layout_ok gb_camera_layouts"
  by (simp add: gb_camera_layouts_def gb_tables)

section \<open>Lights\<close>

definition gb_lights_types :: request_types where
  [gb_tables]: "gb_lights_types = [(''GET_LIGHTS'', 0x02), (''GET_LIGHT_CONFIG'', 0x03),
     (''GET_CHANNEL_CONFIG'', 0x04), (''GET_CHANNEL_FLASH_CONFIG'', 0x05), (''SET_BRIGHTNESS'', 0x06),
     (''SET_BLINK'', 0x07), (''SET_COLOR'', 0x08), (''SET_FADE'', 0x09), (''EVENT'', 0x0a),
     (''SET_FLASH_INTENSITY'', 0x0b), (''SET_FLASH_STROBE'', 0x0c), (''SET_FLASH_TIMEOUT'', 0x0d),
     (''GET_FLASH_FAULT'', 0x0e)]"

definition gb_lights_get_lights_response_layout :: ctype where
  [gb_tables]: "gb_lights_get_lights_response_layout = Struct [(''lights_count'', U8)]"

definition gb_lights_get_light_config_request_layout :: ctype where
  [gb_tables]: "gb_lights_get_light_config_request_layout = Struct [(''id'', U8)]"

definition gb_lights_get_light_config_response_layout :: ctype where
  [gb_tables]: "gb_lights_get_light_config_response_layout = Struct [(''channel_count'', U8),
     (''name'', Array U8 32)]"

definition gb_lights_get_channel_config_request_layout :: ctype where
  [gb_tables]: "gb_lights_get_channel_config_request_layout = Struct [(''light_id'', U8), (''channel_id'', U8)]"

definition gb_lights_get_channel_flash_config_request_layout :: ctype where
  [gb_tables]: "gb_lights_get_channel_flash_config_request_layout = Struct [(''light_id'', U8),
     (''channel_id'', U8)]"

definition gb_lights_get_channel_config_response_layout :: ctype where
  [gb_tables]: "gb_lights_get_channel_config_response_layout = Struct [(''max_brightness'', U8),
     (''flags'', LE32), (''color'', LE32), (''color_name'', Array U8 32), (''mode'', LE32),
     (''mode_name'', Array U8 32)]"

definition gb_lights_get_channel_flash_config_response_layout :: ctype where
  [gb_tables]: "gb_lights_get_channel_flash_config_response_layout = Struct [(''intensity_min_uA'', LE32),
     (''intensity_max_uA'', LE32), (''intensity_step_uA'', LE32), (''timeout_min_us'', LE32),
     (''timeout_max_us'', LE32), (''timeout_step_us'', LE32)]"

definition gb_lights_blink_request_layout :: ctype where
  [gb_tables]: "gb_lights_blink_request_layout = Struct [(''light_id'', U8), (''channel_id'', U8),
     (''time_on_ms'', LE16), (''time_off_ms'', LE16)]"

definition gb_lights_set_brightness_request_layout :: ctype where
  [gb_tables]: "gb_lights_set_brightness_request_layout = Struct [(''light_id'', U8), (''channel_id'', U8),
     (''brightness'', U8)]"

definition gb_lights_set_color_request_layout :: ctype where
  [gb_tables]: "gb_lights_set_color_request_layout = Struct [(''light_id'', U8), (''channel_id'', U8),
     (''color'', LE32)]"

definition gb_lights_set_fade_request_layout :: ctype where
  [gb_tables]: "gb_lights_set_fade_request_layout = Struct [(''light_id'', U8), (''channel_id'', U8),
     (''fade_in'', U8), (''fade_out'', U8)]"

definition gb_lights_event_request_layout :: ctype where
  [gb_tables]: "gb_lights_event_request_layout = Struct [(''light_id'', U8), (''event'', U8)]"

definition gb_lights_event_request_values :: named_values where
  [gb_tables]: "gb_lights_event_request_values = [(''event'', ''GB_LIGHTS_LIGHT_CONFIG'', 0x01)]"

definition gb_lights_set_flash_intensity_request_layout :: ctype where
  [gb_tables]: "gb_lights_set_flash_intensity_request_layout = Struct [(''light_id'', U8), (''channel_id'', U8),
     (''intensity_uA'', LE32)]"

definition gb_lights_set_flash_strobe_request_layout :: ctype where
  [gb_tables]: "gb_lights_set_flash_strobe_request_layout = Struct [(''light_id'', U8), (''channel_id'', U8),
     (''state'', U8)]"

definition gb_lights_set_flash_timeout_request_layout :: ctype where
  [gb_tables]: "gb_lights_set_flash_timeout_request_layout = Struct [(''light_id'', U8), (''channel_id'', U8),
     (''timeout_us'', LE32)]"

definition gb_lights_get_flash_fault_request_layout :: ctype where
  [gb_tables]: "gb_lights_get_flash_fault_request_layout = Struct [(''light_id'', U8), (''channel_id'', U8)]"

definition gb_lights_get_flash_fault_response_layout :: ctype where
  [gb_tables]: "gb_lights_get_flash_fault_response_layout = Struct [(''fault'', LE32)]"

definition gb_lights_get_flash_fault_response_values :: named_values where
  [gb_tables]: "gb_lights_get_flash_fault_response_values = [
     (''fault'', ''GB_LIGHTS_FLASH_FAULT_OVER_VOLTAGE'', 0x00000000),
     (''fault'', ''GB_LIGHTS_FLASH_FAULT_TIMEOUT'', 0x00000001),
     (''fault'', ''GB_LIGHTS_FLASH_FAULT_OVER_TEMPERATURE'', 0x00000002),
     (''fault'', ''GB_LIGHTS_FLASH_FAULT_SHORT_CIRCUIT'', 0x00000004),
     (''fault'', ''GB_LIGHTS_FLASH_FAULT_OVER_CURRENT'', 0x00000008),
     (''fault'', ''GB_LIGHTS_FLASH_FAULT_INDICATOR'', 0x00000010),
     (''fault'', ''GB_LIGHTS_FLASH_FAULT_UNDER_VOLTAGE'', 0x00000020),
     (''fault'', ''GB_LIGHTS_FLASH_FAULT_INPUT_VOLTAGE'', 0x00000040),
     (''fault'', ''GB_LIGHTS_FLASH_FAULT_LED_OVER_TEMPERATURE'', 0x00000080)]"

definition gb_lights_layouts :: "ctype list" where
  "gb_lights_layouts = [gb_lights_get_lights_response_layout, gb_lights_get_light_config_request_layout,
     gb_lights_get_light_config_response_layout, gb_lights_get_channel_config_request_layout,
     gb_lights_get_channel_flash_config_request_layout, gb_lights_get_channel_config_response_layout,
     gb_lights_get_channel_flash_config_response_layout, gb_lights_blink_request_layout,
     gb_lights_set_brightness_request_layout, gb_lights_set_color_request_layout,
     gb_lights_set_fade_request_layout, gb_lights_event_request_layout,
     gb_lights_set_flash_intensity_request_layout, gb_lights_set_flash_strobe_request_layout,
     gb_lights_set_flash_timeout_request_layout, gb_lights_get_flash_fault_request_layout,
     gb_lights_get_flash_fault_response_layout]"

lemma gb_lights_layouts_ok [gb_layouts_ok]: "list_all layout_ok gb_lights_layouts"
  by (simp add: gb_lights_layouts_def gb_tables)

section \<open>Audio\<close>

definition gb_audio_types :: request_types where
  [gb_tables]: "gb_audio_types = [(''GET_TOPOLOGY_SIZE'', 0x02), (''GET_TOPOLOGY'', 0x03),
     (''GET_CONTROL'', 0x04), (''SET_CONTROL'', 0x05), (''ENABLE_WIDGET'', 0x06), (''DISABLE_WIDGET'', 0x07),
     (''GET_PCM'', 0x08), (''SET_PCM'', 0x09), (''SET_TX_DATA_SIZE'', 0x0a), (''ACTIVATE_TX'', 0x0c),
     (''DEACTIVATE_TX'', 0x0d), (''SET_RX_DATA_SIZE'', 0x0e), (''ACTIVATE_RX'', 0x10),
     (''DEACTIVATE_RX'', 0x11), (''JACK_EVENT'', 0x12), (''BUTTON_EVENT'', 0x13), (''STREAMING_EVENT'', 0x14),
     (''SEND_DATA'', 0x15)]"

definition GB_AUDIO_PCM_NAME_MAX :: nat where [gb_tables]: "GB_AUDIO_PCM_NAME_MAX = 32"

definition gb_audio_pcm_layout :: ctype where
  [gb_tables]: "gb_audio_pcm_layout = Struct [(''stream_name'', Array U8 GB_AUDIO_PCM_NAME_MAX),
     (''formats'', LE32), (''rates'', LE32), (''chan_min'', U8), (''chan_max'', U8), (''sig_bits'', U8)]"

definition AUDIO_DAI_NAME_MAX :: nat where [gb_tables]: "AUDIO_DAI_NAME_MAX = 32"

definition gb_audio_dai_layout :: ctype where
  [gb_tables]: "gb_audio_dai_layout = Struct [(''name'', Array U8 AUDIO_DAI_NAME_MAX), (''data_cport'', LE16),
     (''capture'', gb_audio_pcm_layout), (''playback'', gb_audio_pcm_layout)]"

definition gb_audio_integer_layout :: ctype where
  [gb_tables]: "gb_audio_integer_layout = Struct [(''min'', LE32), (''max'', LE32), (''step'', LE32)]"

definition gb_audio_integer64_layout :: ctype where
  [gb_tables]: "gb_audio_integer64_layout = Struct [(''min'', LE64), (''max'', LE64), (''step'', LE64)]"

definition gb_audio_enumerated_layout :: ctype where
  [gb_tables]: "gb_audio_enumerated_layout = Struct [(''items'', LE32), (''names_length'', LE16),
     (''names'', Flex U8)]"

definition gb_audio_ctl_elem_info_layout :: ctype where
  [gb_tables]: "gb_audio_ctl_elem_info_layout = Struct [(''type'', U8), (''dimen'', Array LE16 4),
     (''value'', Union [(''integer'', gb_audio_integer_layout), (''integer64'', gb_audio_integer64_layout), (''enumerated'', gb_audio_enumerated_layout)])]"

definition gb_audio_ctl_elem_value_layout :: ctype where
  [gb_tables]: "gb_audio_ctl_elem_value_layout = Struct [(''timestamp'', LE64),
     (''value'', Union [(''integer_value'', Array LE32 2), (''integer64_value'', Array LE64 2), (''enumerated_item'', Array LE32 2)])]"

definition AUDIO_CONTROL_NAME_MAX :: nat where [gb_tables]: "AUDIO_CONTROL_NAME_MAX = 32"

definition gb_audio_control_layout :: ctype where
  [gb_tables]: "gb_audio_control_layout = Struct [(''name'', Array U8 AUDIO_CONTROL_NAME_MAX), (''id'', U8),
     (''iface'', U8), (''data_cport'', LE16), (''access'', LE32), (''count'', U8), (''count_values'', U8),
     (''info'', gb_audio_ctl_elem_info_layout)]"

definition AUDIO_WIDGET_NAME_MAX :: nat where [gb_tables]: "AUDIO_WIDGET_NAME_MAX = 32"

definition gb_audio_widget_layout :: ctype where
  [gb_tables]: "gb_audio_widget_layout = Struct [(''name'', Array U8 AUDIO_WIDGET_NAME_MAX),
     (''sname'', Array U8 AUDIO_WIDGET_NAME_MAX), (''id'', U8), (''type'', U8), (''state'', U8),
     (''ncontrols'', U8), (''ctl'', Flex gb_audio_control_layout)]"

definition gb_audio_route_layout :: ctype where
  [gb_tables]: "gb_audio_route_layout = Struct [(''source_id'', U8), (''destination_id'', U8),
     (''control_id'', U8), (''index'', U8)]"

definition gb_audio_topology_layout :: ctype where
  [gb_tables]: "gb_audio_topology_layout = Struct [(''num_dais'', U8), (''num_controls'', U8),
     (''num_widgets'', U8), (''num_routes'', U8), (''size_dais'', LE32), (''size_controls'', LE32),
     (''size_widgets'', LE32), (''size_routes'', LE32), (''jack_type'', LE32), (''data'', Flex U8)]"

definition gb_audio_get_topology_size_response_layout :: ctype where
  [gb_tables]: "gb_audio_get_topology_size_response_layout = Struct [(''size'', LE16)]"

definition gb_audio_get_topology_response_layout :: ctype where
  [gb_tables]: "gb_audio_get_topology_response_layout = Struct [(''topology'', gb_audio_topology_layout)]"

definition gb_audio_get_control_request_layout :: ctype where
  [gb_tables]: "gb_audio_get_control_request_layout = Struct [(''control_id'', U8), (''index'', U8)]"

definition gb_audio_get_control_response_layout :: ctype where
  [gb_tables]: "gb_audio_get_control_response_layout = Struct [(''value'', gb_audio_ctl_elem_value_layout)]"

definition gb_audio_set_control_request_layout :: ctype where
  [gb_tables]: "gb_audio_set_control_request_layout = Struct [(''control_id'', U8), (''index'', U8),
     (''value'', gb_audio_ctl_elem_value_layout)]"

definition gb_audio_enable_widget_request_layout :: ctype where
  [gb_tables]: "gb_audio_enable_widget_request_layout = Struct [(''widget_id'', U8)]"

definition gb_audio_disable_widget_request_layout :: ctype where
  [gb_tables]: "gb_audio_disable_widget_request_layout = Struct [(''widget_id'', U8)]"

definition gb_audio_get_pcm_request_layout :: ctype where
  [gb_tables]: "gb_audio_get_pcm_request_layout = Struct [(''data_cport'', LE16)]"

definition gb_audio_get_pcm_response_layout :: ctype where
  [gb_tables]: "gb_audio_get_pcm_response_layout = Struct [(''format'', LE32), (''rate'', LE32),
     (''channels'', U8), (''sig_bits'', U8)]"

definition gb_audio_set_pcm_request_layout :: ctype where
  [gb_tables]: "gb_audio_set_pcm_request_layout = Struct [(''data_cport'', LE16), (''format'', LE32),
     (''rate'', LE32), (''channels'', U8), (''sig_bits'', U8)]"

definition gb_audio_set_tx_data_size_request_layout :: ctype where
  [gb_tables]: "gb_audio_set_tx_data_size_request_layout = Struct [(''data_cport'', LE16), (''size'', LE16)]"

definition gb_audio_activate_tx_request_layout :: ctype where
  [gb_tables]: "gb_audio_activate_tx_request_layout = Struct [(''data_cport'', LE16)]"

definition gb_audio_deactivate_tx_request_layout :: ctype where
  [gb_tables]: "gb_audio_deactivate_tx_request_layout = Struct [(''data_cport'', LE16)]"

definition gb_audio_set_rx_data_size_request_layout :: ctype where
  [gb_tables]: "gb_audio_set_rx_data_size_request_layout = Struct [(''data_cport'', LE16), (''size'', LE16)]"

definition gb_audio_activate_rx_request_layout :: ctype where
  [gb_tables]: "gb_audio_activate_rx_request_layout = Struct [(''data_cport'', LE16)]"

definition gb_audio_deactivate_rx_request_layout :: ctype where
  [gb_tables]: "gb_audio_deactivate_rx_request_layout = Struct [(''data_cport'', LE16)]"

definition gb_audio_jack_event_request_layout :: ctype where
  [gb_tables]: "gb_audio_jack_event_request_layout = Struct [(''widget_id'', U8), (''jack_attribute'', U8),
     (''event'', U8)]"

definition gb_audio_button_event_request_layout :: ctype where
  [gb_tables]: "gb_audio_button_event_request_layout = Struct [(''widget_id'', U8), (''button_id'', U8),
     (''event'', U8)]"

definition gb_audio_streaming_event_request_layout :: ctype where
  [gb_tables]: "gb_audio_streaming_event_request_layout = Struct [(''data_cport'', LE16), (''event'', U8)]"

definition gb_audio_send_data_request_layout :: ctype where
  [gb_tables]: "gb_audio_send_data_request_layout = Struct [(''timestamp'', LE64), (''data'', Flex U8)]"

definition gb_audio_layouts :: "ctype list" where
  "gb_audio_layouts = [gb_audio_pcm_layout, gb_audio_dai_layout, gb_audio_integer_layout,
     gb_audio_integer64_layout, gb_audio_enumerated_layout, gb_audio_ctl_elem_info_layout,
     gb_audio_ctl_elem_value_layout, gb_audio_control_layout, gb_audio_widget_layout, gb_audio_route_layout,
     gb_audio_topology_layout, gb_audio_get_topology_size_response_layout,
     gb_audio_get_topology_response_layout, gb_audio_get_control_request_layout,
     gb_audio_get_control_response_layout, gb_audio_set_control_request_layout,
     gb_audio_enable_widget_request_layout, gb_audio_disable_widget_request_layout,
     gb_audio_get_pcm_request_layout, gb_audio_get_pcm_response_layout, gb_audio_set_pcm_request_layout,
     gb_audio_set_tx_data_size_request_layout, gb_audio_activate_tx_request_layout,
     gb_audio_deactivate_tx_request_layout, gb_audio_set_rx_data_size_request_layout,
     gb_audio_activate_rx_request_layout, gb_audio_deactivate_rx_request_layout,
     gb_audio_jack_event_request_layout, gb_audio_button_event_request_layout,
     gb_audio_streaming_event_request_layout, gb_audio_send_data_request_layout]"

lemma gb_audio_layouts_ok [gb_layouts_ok]: "list_all layout_ok gb_audio_layouts"
  by (simp add: gb_audio_layouts_def gb_tables)

section \<open>Log\<close>

definition gb_log_types :: request_types where
  [gb_tables]: "gb_log_types = [(''SEND_LOG'', 0x02)]"

definition gb_log_send_log_request_layout :: ctype where
  [gb_tables]: "gb_log_send_log_request_layout = Struct [(''len'', LE16), (''msg'', Flex U8)]"

definition gb_log_layouts :: "ctype list" where
  "gb_log_layouts = [gb_log_send_log_request_layout]"

lemma gb_log_layouts_ok [gb_layouts_ok]: "list_all layout_ok gb_log_layouts"
  by (simp add: gb_log_layouts_def gb_tables)

end
