(* ===== verification/Wire_Formats.thy ===== *)
theory Wire_Formats
  imports Class_Layouts
begin

text \<open>
  The declarations of include/greybus_protocols.h as a whole: reading and writing messages through any of its
  structures, the tables of request types, and the agreement of the payload builders and readers of
  \<open>Greybus_Protocols\<close> with the declared structures.
\<close>

section \<open>All declarations\<close>

definition gb_layouts :: "ctype list" where
  "gb_layouts = concat [gb_op_layouts, gb_control_layouts, gb_apb_layouts, gb_fw_download_layouts,
     gb_fw_mgmt_layouts, gb_cap_layouts, gb_bootrom_layouts, gb_svc_layouts, gb_power_supply_layouts,
     gb_hid_layouts, gb_i2c_layouts, gb_gpio_layouts, gb_pwm_layouts, gb_spi_layouts, gb_raw_layouts,
     gb_uart_layouts, gb_loopback_layouts, gb_sdio_layouts, gb_camera_layouts, gb_lights_layouts,
     gb_audio_layouts, gb_log_layouts]"

definition gb_request_types :: "request_types list" where
  "gb_request_types = [gb_control_types, gb_fw_download_types, gb_fw_mgmt_types, gb_cap_types, gb_bootrom_types,
     gb_svc_types, gb_power_supply_types, gb_hid_types, gb_i2c_types, gb_gpio_types, gb_pwm_types, gb_spi_types,
     gb_raw_types, gb_uart_types, gb_loopback_types, gb_sdio_types, gb_camera_types, gb_lights_types,
     gb_audio_types, gb_log_types]"

definition gb_named_values :: "(ctype \<times> named_values) list" where
  "gb_named_values = [(gb_apb_request_cport_flags_layout, gb_apb_request_cport_flags_values),
     (gb_svc_intf_vsys_response_layout, gb_svc_intf_vsys_response_values),
     (gb_svc_intf_refclk_response_layout, gb_svc_intf_refclk_response_values),
     (gb_svc_intf_unipro_response_layout, gb_svc_intf_unipro_response_values),
     (gb_svc_key_event_request_layout, gb_svc_key_event_request_values),
     (gb_power_supply_props_desc_layout, gb_power_supply_props_desc_values),
     (gb_power_supply_event_request_layout, gb_power_supply_event_request_values),
     (gb_spi_device_config_response_layout, gb_spi_device_config_response_values),
     (gb_spi_transfer_layout, gb_spi_transfer_values),
     (gb_uart_set_line_coding_request_layout, gb_uart_set_line_coding_request_values),
     (gb_uart_serial_flush_request_layout, gb_uart_serial_flush_request_values),
     (gb_sdio_get_caps_response_layout, gb_sdio_get_caps_response_values),
     (gb_sdio_set_ios_request_layout, gb_sdio_set_ios_request_values),
     (gb_sdio_command_request_layout, gb_sdio_command_request_values),
     (gb_sdio_transfer_request_layout, gb_sdio_transfer_request_values),
     (gb_sdio_event_request_layout, gb_sdio_event_request_values),
     (gb_camera_configure_streams_request_layout, gb_camera_configure_streams_request_values),
     (gb_camera_configure_streams_response_layout, gb_camera_configure_streams_response_values),
     (gb_lights_event_request_layout, gb_lights_event_request_values),
     (gb_lights_get_flash_fault_response_layout, gb_lights_get_flash_fault_response_values)]"

lemma gb_layouts_all: "list_all layout_ok gb_layouts"
  by (simp add: gb_layouts_def gb_layouts_ok)

lemma gb_layout_ok: "t \<in> set gb_layouts \<Longrightarrow> layout_ok t"
  using gb_layouts_all by (simp add: list_all_iff)

text \<open>
  Writing a value through any structure the protocol header declares and reading the bytes back gives the
  value, with no byte left over; conversely, whatever the structure reads from a whole message writes back the
  very same bytes.  This is the law of the coders of \<open>Packed_Layouts\<close> at the declared structures; that the
  firmware's own messages are read correctly through them is shown in \<open>Host_View\<close>.
\<close>

lemma gb_layouts_roundtrip:
  assumes "t \<in> set gb_layouts"
  shows "(\<forall>v. has_type t v \<longrightarrow> sizeof t \<le> length (encode t v) \<and> decode t (encode t v) = Some (v, [])) \<and>
    (\<forall>bs v. decode t bs = Some (v, []) \<longrightarrow> has_type t v \<and> encode t v = bs) \<and>
    (closed t \<longrightarrow> (\<forall>bs. decode t bs \<noteq> None \<longleftrightarrow> sizeof t \<le> length bs))"
proof -
  have "decode t bs \<noteq> None \<longleftrightarrow> sizeof t \<le> length bs" if "closed t" for bs
    using exactD(3) [OF closed_exact [OF that], of bs] exactE [OF closed_exact [OF that], of bs] by fastforce
  then show ?thesis using layout_roundtrip [OF gb_layout_ok [OF assms]] by blast
qed

text \<open>
  Two structures are not declared packed; the compiler lays them out by the alignment of their members, and
  puts no padding into them, so they are packed all the same.
\<close>

fun alignof :: "ctype \<Rightarrow> nat" where
  "alignof (UInt k) = k"
| "alignof (Array t n) = alignof t"
| "alignof (Flex t) = alignof t"
| "alignof (Struct fs) = 1"
| "alignof (Union fs) = fold max (map (\<lambda>(n, t). alignof t) fs) 1"

fun aligned_from :: "nat \<Rightarrow> (string \<times> ctype) list \<Rightarrow> bool" where
  "aligned_from k [] = True"
| "aligned_from k ((n, t) # fs) = (k mod alignof t = 0 \<and> aligned_from (k + sizeof t) fs)"

definition naturally_packed :: "ctype \<Rightarrow> bool" where
  "naturally_packed t = (case t of Struct fs \<Rightarrow>
     aligned_from 0 fs \<and> sizeof t mod fold max (map (\<lambda>(n, t). alignof t) fs) 1 = 0 | _ \<Rightarrow> False)"

lemma unpacked_structures:
  "naturally_packed gb_power_supply_get_property_response_layout" "naturally_packed gb_camera_configure_streams_response_layout"
  by (simp_all add: naturally_packed_def gb_tables)

section \<open>Request types and named values\<close>

definition types_ok :: "request_types \<Rightarrow> bool" where
  "types_ok ts \<longleftrightarrow> distinct (map fst ts) \<and> distinct (map snd ts @ map (\<lambda>(n, k). GB_RESPONSE k) ts) \<and>
     list_all (\<lambda>(n, k). k \<noteq> GB_REQUEST_TYPE_CPORT_SHUTDOWN \<and> k \<noteq> GB_REQUEST_TYPE_INVALID) ts"

lemma types_tables_ok:
  "types_ok gb_control_types"
  "types_ok gb_fw_download_types"
  "types_ok gb_fw_mgmt_types"
  "types_ok gb_cap_types"
  "types_ok gb_bootrom_types"
  "types_ok gb_svc_types"
  "types_ok gb_power_supply_types"
  "types_ok gb_hid_types"
  "types_ok gb_i2c_types"
  "types_ok gb_gpio_types"
  "types_ok gb_pwm_types"
  "types_ok gb_spi_types"
  "types_ok gb_raw_types"
  "types_ok gb_uart_types"
  "types_ok gb_loopback_types"
  "types_ok gb_sdio_types"
  "types_ok gb_camera_types"
  "types_ok gb_lights_types"
  "types_ok gb_audio_types"
  "types_ok gb_log_types"
  by (simp_all add: types_ok_def gb_tables gb_consts)

lemma values_tables_ok:
  "values_ok gb_apb_request_cport_flags_layout gb_apb_request_cport_flags_values"
  "values_ok gb_svc_intf_vsys_response_layout gb_svc_intf_vsys_response_values"
  "values_ok gb_svc_intf_refclk_response_layout gb_svc_intf_refclk_response_values"
  "values_ok gb_svc_intf_unipro_response_layout gb_svc_intf_unipro_response_values"
  "values_ok gb_svc_key_event_request_layout gb_svc_key_event_request_values"
  "values_ok gb_power_supply_props_desc_layout gb_power_supply_props_desc_values"
  "values_ok gb_power_supply_event_request_layout gb_power_supply_event_request_values"
  "values_ok gb_spi_device_config_response_layout gb_spi_device_config_response_values"
  "values_ok gb_spi_transfer_layout gb_spi_transfer_values"
  "values_ok gb_uart_set_line_coding_request_layout gb_uart_set_line_coding_request_values"
  "values_ok gb_uart_serial_flush_request_layout gb_uart_serial_flush_request_values"
  "values_ok gb_sdio_get_caps_response_layout gb_sdio_get_caps_response_values"
  "values_ok gb_sdio_set_ios_request_layout gb_sdio_set_ios_request_values"
  "values_ok gb_sdio_command_request_layout gb_sdio_command_request_values"
  "values_ok gb_sdio_transfer_request_layout gb_sdio_transfer_request_values"
  "values_ok gb_sdio_event_request_layout gb_sdio_event_request_values"
  "values_ok gb_camera_configure_streams_request_layout gb_camera_configure_streams_request_values"
  "values_ok gb_camera_configure_streams_response_layout gb_camera_configure_streams_response_values"
  "values_ok gb_lights_event_request_layout gb_lights_event_request_values"
  "values_ok gb_lights_get_flash_fault_response_layout gb_lights_get_flash_fault_response_values"
  by (simp_all add: values_ok_def value_fits_def gb_tables)

text \<open>
  Within each protocol, request types and response types are pairwise different and none is one of the two
  reserved types, so the type byte alone says which request a message is or answers; and every value the header
  names for a member fits that member and differs from the member's other values.
\<close>

lemma gb_types_separate:
  "list_all types_ok gb_request_types \<and> list_all (\<lambda>(t, vs). values_ok t vs) gb_named_values"
  by (simp add: gb_request_types_def gb_named_values_def types_tables_ok values_tables_ok)

section \<open>The payloads of the firmware\<close>

abbreviation W :: "'a::len word \<Rightarrow> cval" where "W w \<equiv> Num (unat w)"

lemma le_bytes_u8 [simp]: "le_bytes 1 (unat (b :: u8)) = [b]" "le_bytes (Suc 0) (unat (b :: u8)) = [b]"
  by (simp_all add: unat_of_nat)

lemma le_bytes_u16 [simp]: "le_bytes 2 (unat (w :: u16)) = le16 w"
proof -
  have "of_nat (unat w mod 256) = (ucast w :: u8)" "of_nat (unat w div 256 mod 256) = (ucast (drop_bit 8 w) :: u8)"
    by (rule word_unat_eq_iff [THEN iffD2],
        simp add: unat_of_nat unsigned_ucast_eq drop_bit_eq_div take_bit_eq_mod unat_div)+
  then show ?thesis by (simp add: le_bytes_width le16_def)
qed

lemma hdr_layout:
  "hdr_bytes h = encode gb_operation_msg_hdr_layout (Seq [W (hdr_size h), W (hdr_operation_id h), W (hdr_type h),
     W (hdr_result h), Seq [W (fst (hdr_pad h)), W (snd (hdr_pad h))]])"
  "hdr_len = sizeof gb_operation_msg_hdr_layout"
  by (simp_all add: hdr_bytes_def hdr_len_def gb_tables)

lemma gb_svc_conn_request_layout:
  "gb_svc_conn_request_bytes r = encode gb_svc_conn_destroy_request_layout
     (Seq [W (intf1_id r), W (cport1_id r), W (intf2_id r), W (cport2_id r)])"
  by (simp add: gb_svc_conn_request_bytes_def gb_tables)

text \<open>Reading the two connection requests: the members of the shorter one start the longer one.\<close>

definition conn_request_of :: "cval \<Rightarrow> gb_svc_conn_request res" where
  "conn_request_of v = (case v of Seq [Num i1, Num c1, Num i2, Num c2] \<Rightarrow>
     Inr \<lparr>intf1_id = of_nat i1, cport1_id = of_nat c1, intf2_id = of_nat i2, cport2_id = of_nat c2\<rparr> | _ \<Rightarrow> Inl OutOfBounds)"

lemma le16_of_sum: "le16_of a b = ucast a + 256 * ucast b"
proof -
  let ?w = "le16_of a b"
  have "unat ?w < 256 ^ 2" using unsigned_less [of ?w] by simp
  then have "unat ?w = le_value (le_bytes 2 (unat ?w))" by (rule le_value_bytes [symmetric])
  then have "unat ?w = unat a + 256 * unat b" by simp
  then have "of_nat (unat ?w) = (of_nat (unat a + 256 * unat b) :: u16)" by simp
  then show ?thesis by simp
qed

lemma set_pwrm_offsets:
  "offsetof gb_svc_intf_set_pwrm_request_layout ''tx_mode'' = Some 2"
  "offsetof gb_svc_intf_set_pwrm_request_layout ''rx_mode'' = Some 7"
  by (simp_all add: gb_tables)

lemma gb_svc_conn_request_read_layout:
  "gb_svc_conn_request_read p = (case decode gb_svc_conn_destroy_request_layout p of
     None \<Rightarrow> Inl OutOfBounds | Some (v, r) \<Rightarrow> conn_request_of v)"
proof (cases "6 \<le> length p")
  case True
  then obtain a b c d e f q where p: "p = a # b # c # d # e # f # q"
    by (auto simp: Suc_le_length_iff eval_nat_numeral)
  show ?thesis
    by (simp add: p gb_svc_conn_request_read_def gb_tables seq_of_def conn_request_of_def numeral_2_eq_2 le16_of_sum)
next
  case False
  then have "decode gb_svc_conn_destroy_request_layout p = None"
    by (intro exactD(3) [OF closed_exact]) (simp_all add: gb_tables)
  then show ?thesis using False by (simp add: gb_svc_conn_request_read_def buf_read_def)
qed

text \<open>
  The payload builders of \<open>Greybus_Protocols\<close> and the declared structures are two transcriptions of the same
  header; they agree, member by member.
\<close>

lemma gb_payloads_match_layouts:
  "hdr_bytes h = encode gb_operation_msg_hdr_layout (Seq [W (hdr_size h), W (hdr_operation_id h), W (hdr_type h),
     W (hdr_result h), Seq [W (fst (hdr_pad h)), W (snd (hdr_pad h))]]) \<and>
   gb_svc_version_request a b = encode gb_svc_version_request_layout (Seq [W a, W b]) \<and>
   gb_svc_hello_request w a = encode gb_svc_hello_request_layout (Seq [W w, W a]) \<and>
   gb_svc_module_inserted_request a b w = encode gb_svc_module_inserted_request_layout (Seq [W a, W b, W w]) \<and>
   gb_svc_module_removed_request a = encode gb_svc_module_removed_request_layout (Seq [W a]) \<and>
   gb_svc_dme_peer_get_response w w' = encode gb_svc_dme_peer_get_response_layout (Seq [W w, W w']) \<and>
   gb_svc_dme_peer_set_response w = encode gb_svc_dme_peer_set_response_layout (Seq [W w]) \<and>
   gb_svc_intf_activate_response a b = encode gb_svc_intf_activate_response_layout (Seq [W a, W b]) \<and>
   list_all (\<lambda>t. gb_svc_result_code_response a = encode t (Seq [W a]))
     [gb_svc_pwrmon_rail_count_get_response_layout, gb_svc_intf_set_pwrm_response_layout, gb_svc_intf_vsys_response_layout,
      gb_svc_intf_refclk_response_layout, gb_svc_intf_unipro_response_layout, gb_svc_intf_resume_response_layout] \<and>
   gb_control_version_response a b = encode gb_control_version_response_layout (Seq [W a, W b]) \<and>
   gb_control_get_manifest_size_response w = encode gb_control_get_manifest_size_response_layout (Seq [W w]) \<and>
   gb_svc_conn_request_read p = (case decode gb_svc_conn_destroy_request_layout p of
     None \<Rightarrow> Inl OutOfBounds | Some (v, r) \<Rightarrow> conn_request_of v) \<and>
   list_all (\<lambda>f. offsetof gb_svc_conn_create_request_layout f = offsetof gb_svc_conn_destroy_request_layout f)
     [''intf1_id'', ''cport1_id'', ''intf2_id'', ''cport2_id''] \<and>
   gb_svc_intf_set_pwrm_modes p =
     bnd (buf_get p (the (offsetof gb_svc_intf_set_pwrm_request_layout ''tx_mode''))) (\<lambda>tx_mode.
     bnd (buf_get p (the (offsetof gb_svc_intf_set_pwrm_request_layout ''rx_mode''))) (\<lambda>rx_mode. Inr (tx_mode, rx_mode)))"
  by (simp add: hdr_layout gb_svc_conn_request_read_layout gb_payload_defs gb_svc_intf_set_pwrm_modes_def set_pwrm_offsets)
    (simp add: gb_tables le_bytes_4 le_bytes_2 [of 0])

end
