(* ===== verification/Host_View.thy ===== *)
theory Host_View
  imports Wire_Formats Svc Hdlc_Stream
begin

text \<open>
  What the SVC sends, as the host sees it.  The host has the bytes of the UART and the structures of
  include/greybus_protocols.h: it decodes the HDLC stream, takes off the CPort number, and reads the message
  header and the payload through the declared structures, member by member.
\<close>

section \<open>Reading a message\<close>

text \<open>The members of a value by their declared names.\<close>

definition members :: "ctype \<Rightarrow> cval \<Rightarrow> (string \<times> cval) list" where
  "members t v = (case t of Struct fs \<Rightarrow> (case v of Seq vs \<Rightarrow> zip (map fst fs) vs | _ \<Rightarrow> []) | _ \<Rightarrow> [])"

text \<open>
  The CPort, the header and the payload of a single Greybus message; the payload is to be exactly one value of
  the structure \<open>t\<close>.
\<close>

definition host_reads :: "'w zephyr \<Rightarrow> ctype \<Rightarrow> byte list \<Rightarrow>
    (u16 \<times> (string \<times> cval) list \<times> (string \<times> cval) list) option" where
  "host_reads z t bs = (case hdlc_decode z bs of
     [(address, c0 # c1 # msg)] \<Rightarrow>
       if address \<noteq> ADDRESS_GREYBUS then None
       else (case decode gb_operation_msg_hdr_layout msg of
               None \<Rightarrow> None
             | Some (h, pl) \<Rightarrow> (case decode t pl of
                 Some (v, []) \<Rightarrow> Some (le16_of c0 c1, members gb_operation_msg_hdr_layout h, members t v)
               | _ \<Rightarrow> None))
   | _ \<Rightarrow> None)"

definition header_says :: "(string \<times> cval) list \<Rightarrow> nat \<Rightarrow> u16 \<Rightarrow> u8 \<Rightarrow> u8 \<Rightarrow> bool" where
  "header_says h n op ty st \<longleftrightarrow> map_of h ''size'' = Some (Num n) \<and> map_of h ''operation_id'' = Some (W op) \<and>
     map_of h ''type'' = Some (W ty) \<and> map_of h ''result'' = Some (W st)"

lemma decode_hdr_bytes:
  "decode gb_operation_msg_hdr_layout (hdr_bytes h @ pl) = Some (Seq [W (hdr_size h), W (hdr_operation_id h), W (hdr_type h),
     W (hdr_result h), Seq [W (fst (hdr_pad h)), W (snd (hdr_pad h))]], pl)"
proof -
  have "unat (w :: u16) < 65536" "unat (b :: u8) < 256" for w b using unsigned_less [of w] unsigned_less [of b] by simp_all
  then show ?thesis unfolding hdr_layout(1)
    by (intro exactD(2) [OF closed_exact]) (simp_all add: gb_tables)
qed

lemma host_reads_frame:
  assumes "crc_documented z" "length pl \<le> 242" "decode t pl = Some (v, [])"
  shows "\<exists>h. host_reads z t (ap_frame z cport (sent_msg ty op st pad pl)) = Some (cport, h, members t v) \<and>
    header_says h (8 + length pl) op ty st"
proof -
  let ?m = "sent_msg ty op st pad pl"
  have "length (le16 cport @ msg_bytes ?m) + 4 \<le> HDLC_MAX_BLOCK_SIZE"
    using assms(2) by (simp add: msg_bytes_length hdr_len_def sent_msg_def HDLC_MAX_BLOCK_SIZE_def)
  from hdlc_decode_frame [OF assms(1) this, of 3 ADDRESS_GREYBUS "[]"]
  have d: "hdlc_decode z (ap_frame z cport ?m) = [(ADDRESS_GREYBUS, ucast cport # ucast (drop_bit 8 cport) # msg_bytes ?m)]"
    by (simp add: ap_frame_def le16_def)
  have "unat (of_nat (8 + length pl) :: u16) = 8 + length pl"
    using assms(2) by (simp add: unat_of_nat take_bit_nat_eq_self_iff del: of_nat_add)
  then show ?thesis
    using assms(3) by (simp add: host_reads_def d msg_bytes_def decode_hdr_bytes)
      (simp add: sent_msg_def hdr_len_def members_def header_says_def gb_tables)
qed

section \<open>The requests of the SVC\<close>

text \<open>
  Sending with \<open>send\<close> puts one frame on the UART, in which the host reads, on the SVC's AP CPort, a request of
  type \<open>ty\<close> with a fresh operation id whose members are \<open>ms\<close>.
\<close>

definition host_gets ::
  "'w zephyr \<Rightarrow> (('w, 'a) ns \<Rightarrow> (int \<times> ('w, 'a) ns) res) \<Rightarrow> u8 \<Rightarrow> ctype \<Rightarrow> (string \<times> nat) list \<Rightarrow> nat \<Rightarrow> ('w, 'a) ns \<Rightarrow> bool" where
  "host_gets z send ty t ms j s \<longleftrightarrow> (\<exists>r s' tx h. send s = Inr (r, s') \<and> uart_tx s' = uart_tx s @ tx \<and>
     host_reads z t tx = Some (of_nat j, h, map (\<lambda>(n, v). (n, Num v)) ms) \<and>
     header_says h (8 + sizeof t) (fst (new_operation_id s)) ty 0)"

lemma host_gets_request:
  assumes "crc_documented z" "heap_documented z" "heap_room z (hdr_len + length bs)" "heap_ok s"
    and "node_to_ap_cport SVC_INF_ID 0 s = int j" "length bs \<le> 242" "sizeof t = length bs"
    and "decode t bs = Some (v, [])" "members t v = map (\<lambda>(n, v). (n, Num v)) ms"
  shows "host_gets z (control_send_request z bs ty) ty t ms j s"
proof -
  obtain blk w where a: "k_heap_alloc z (hdr_len + length bs) (world s) = (Some blk, w)" by (rule heap_roomE [OF assms(3)])
  have "length bs \<le> 246" using assms(6) by simp
  from control_send_request_eq [OF assms(2,4) this assms(5) a]
    host_reads_frame [OF assms(1,6,8), of "of_nat j" ty "fst (new_operation_id s)" 0 "(blk ! 6, blk ! 7)"] assms(7,9)
  show ?thesis by (auto simp: host_gets_def Let_def)
qed

text \<open>
  C21. The host reads what the SVC means.  With the SVC routed to AP CPort \<open>j\<close> and memory available, each of
  the four requests the SVC makes on its own goes out as exactly one frame.  Decoding that frame, and reading
  header and payload through the structures the protocol header declares, the host finds a request of the
  right type and size with a fresh operation id on CPort \<open>j\<close>, and in the named members the protocol version 0.1,
  the endo id 0x4755 with the AP's interface id 1, the id of the interface that was inserted as one interface
  with no flags, or the id of the node that was removed.
\<close>

theorem host_reads_svc_requests:
  assumes "crc_documented z" and "heap_documented z" and "\<forall>n \<le> 12. heap_room z n" and "heap_ok s"
    and "node_to_ap_cport SVC_INF_ID 0 s = int j" and "node_ok s" and "i < node_cache_pos s"
  shows "host_gets z (svc_send_version z) GB_SVC_TYPE_PROTOCOL_VERSION gb_svc_version_request_layout
      [(''major'', 0), (''minor'', 1)] j s \<and>
    host_gets z (svc_send_hello z) GB_SVC_TYPE_SVC_HELLO gb_svc_hello_request_layout
      [(''endo_id'', 0x4755), (''interface_id'', 1)] j s \<and>
    host_gets z (svc_send_module_inserted z n) GB_SVC_TYPE_MODULE_INSERTED gb_svc_module_inserted_request_layout
      [(''primary_intf_id'', unat n), (''intf_count'', 1), (''flags'', 0)] j s \<and>
    host_gets z (svc_send_module_removed z (item_inf (node_cache s ! i))) GB_SVC_TYPE_MODULE_REMOVED
      gb_svc_module_removed_request_layout [(''primary_intf_id'', unat (item_id (node_cache s ! i)))] j s"
proof (intro conjI)
  note send = host_gets_request [OF assms(1,2) _ assms(4,5)]
  note d = gb_payload_defs gb_tables gb_consts seq_of_def members_def hdr_len_def numeral_2_eq_2 le16_def
  show "host_gets z (svc_send_version z) GB_SVC_TYPE_PROTOCOL_VERSION gb_svc_version_request_layout
      [(''major'', 0), (''minor'', 1)] j s"
    unfolding svc_send_version_def
    by (rule send [where v = "Seq [Num 0, Num 1]"]) (use assms(3) in \<open>simp_all add: d\<close>)
  have hello: "gb_svc_hello_request ENDO_ID AP_INF_ID = [0x55, 0x47, 1]" by code_simp
  show "host_gets z (svc_send_hello z) GB_SVC_TYPE_SVC_HELLO gb_svc_hello_request_layout
      [(''endo_id'', 0x4755), (''interface_id'', 1)] j s"
    unfolding svc_send_hello_def hello
    by (rule send [where v = "Seq [Num 0x4755, Num 1]"])
      (use assms(3) in \<open>simp_all add: gb_tables seq_of_def members_def hdr_len_def\<close>)
  show "host_gets z (svc_send_module_inserted z n) GB_SVC_TYPE_MODULE_INSERTED gb_svc_module_inserted_request_layout
      [(''primary_intf_id'', unat n), (''intf_count'', 1), (''flags'', 0)] j s"
    unfolding svc_send_module_inserted_def
    by (rule send [where v = "Seq [W n, Num 1, Num 0]"]) (use assms(3) in \<open>simp_all add: d\<close>)
  have room: "heap_room z 9" using assms(3) by simp
  have dec: "decode gb_svc_module_removed_request_layout [x] = Some (Seq [W x], [])" for x by (simp add: d)
  obtain b c pad w r where "svc_send_module_removed z (item_inf (node_cache s ! i)) s =
       Inr (r, node_removed z i b c (uplinked z (of_nat j) (sent_msg GB_SVC_TYPE_MODULE_REMOVED
         (fst (new_operation_id s)) 0 pad [item_id (node_cache s ! i)]) w (snd (new_operation_id s))))"
    using svc_send_module_removed_at [OF assms(6,7,2) room assms(4,5)] by metis
  with host_reads_frame [OF assms(1) _ dec, where cport = "of_nat j" and ty = GB_SVC_TYPE_MODULE_REMOVED and st = 0 and pad = pad
      and op = "fst (new_operation_id s)" and x1 = "item_id (node_cache s ! i)"]
  show "host_gets z (svc_send_module_removed z (item_inf (node_cache s ! i))) GB_SVC_TYPE_MODULE_REMOVED
      gb_svc_module_removed_request_layout [(''primary_intf_id'', unat (item_id (node_cache s ! i)))] j s"
    by (auto simp: host_gets_def node_removed_def members_def gb_tables)
qed

theorem host_reads_svc_requests_witness:
  "host_gets sample_zephyr (svc_send_version sample_zephyr) GB_SVC_TYPE_PROTOCOL_VERSION gb_svc_version_request_layout
      [(''major'', 0), (''minor'', 1)] 0 sample_nodes \<and>
    host_gets sample_zephyr (svc_send_hello sample_zephyr) GB_SVC_TYPE_SVC_HELLO gb_svc_hello_request_layout
      [(''endo_id'', 0x4755), (''interface_id'', 1)] 0 sample_nodes \<and>
    host_gets sample_zephyr (svc_send_module_inserted sample_zephyr 5) GB_SVC_TYPE_MODULE_INSERTED gb_svc_module_inserted_request_layout
      [(''primary_intf_id'', unat (5 :: u8)), (''intf_count'', 1), (''flags'', 0)] 0 sample_nodes \<and>
    host_gets sample_zephyr (svc_send_module_removed sample_zephyr (item_inf (node_cache sample_nodes ! 0))) GB_SVC_TYPE_MODULE_REMOVED
      gb_svc_module_removed_request_layout [(''primary_intf_id'', unat (item_id (node_cache sample_nodes ! 0)))] 0 sample_nodes"
  by (rule host_reads_svc_requests [OF sample_documented(1,2) _ sample_nodes_heap _ sample_nodes_ok])
    (simp_all add: sample_room sample_nodes_route)

section \<open>The answers of the SVC\<close>

text \<open>
  The structures the header declares for the responses of the SVC, and the members of the answer the firmware gives.
\<close>

definition svc_answer_members :: "(u8 \<times> ctype \<times> (string \<times> nat) list) list" where
  "svc_answer_members =
     [(GB_SVC_TYPE_DME_PEER_GET, gb_svc_dme_peer_get_response_layout, [(''result_code'', 0), (''attr_value'', 0x0126)]),
      (GB_SVC_TYPE_DME_PEER_SET, gb_svc_dme_peer_set_response_layout, [(''result_code'', 0)]),
      (GB_SVC_TYPE_PWRMON_RAIL_COUNT_GET, gb_svc_pwrmon_rail_count_get_response_layout, [(''rail_count'', 0)]),
      (GB_SVC_TYPE_INTF_VSYS_ENABLE, gb_svc_intf_vsys_response_layout, [(''result_code'', 0)]),
      (GB_SVC_TYPE_INTF_VSYS_DISABLE, gb_svc_intf_vsys_response_layout, [(''result_code'', 0)]),
      (GB_SVC_TYPE_INTF_REFCLK_ENABLE, gb_svc_intf_refclk_response_layout, [(''result_code'', 0)]),
      (GB_SVC_TYPE_INTF_REFCLK_DISABLE, gb_svc_intf_refclk_response_layout, [(''result_code'', 0)]),
      (GB_SVC_TYPE_INTF_UNIPRO_ENABLE, gb_svc_intf_unipro_response_layout, [(''result_code'', 0)]),
      (GB_SVC_TYPE_INTF_UNIPRO_DISABLE, gb_svc_intf_unipro_response_layout, [(''result_code'', 0)]),
      (GB_SVC_TYPE_INTF_ACTIVATE, gb_svc_intf_activate_response_layout, [(''status'', 0), (''intf_type'', 3)]),
      (GB_SVC_TYPE_INTF_RESUME, gb_svc_intf_resume_response_layout, [(''status'', 0)])]"

lemma svc_answer_members_encode:
  "list_all (\<lambda>(ty, t, ms). svc_reply ty bs = Some (encode t (Seq (map (\<lambda>(n, v). Num v) ms))) \<and>
     has_type t (Seq (map (\<lambda>(n, v). Num v) ms)) \<and> closed t \<and>
     members t (Seq (map (\<lambda>(n, v). Num v) ms)) = map (\<lambda>(n, v). (n, Num v)) ms) svc_answer_members"
  by (simp add: svc_answer_members_def svc_reply_def gb_consts) (simp add: gb_tables members_def le_bytes_width)

lemma svc_answer_members_reply:
  assumes "(ty, t, ms) \<in> set svc_answer_members"
  obtains pl v where "svc_reply ty bs = Some pl" "decode t pl = Some (v, [])" "members t v = map (\<lambda>(n, v). (n, Num v)) ms"
    "sizeof t = length pl"
proof -
  let ?v = "Seq (map (\<lambda>(n, v). Num v) ms)"
  have e: "svc_reply ty bs = Some (encode t ?v)" "has_type t ?v" "closed t" "members t ?v = map (\<lambda>(n, v). (n, Num v)) ms"
    using svc_answer_members_encode [of bs] assms by (auto simp: list_all_iff)
  with exactD(1,2) [OF closed_exact [OF e(3)] e(2)] show ?thesis by (intro that [of "encode t ?v" ?v]) (simp_all, metis append_Nil2)
qed

end
