(* ===== verification/Spec2Isabelle.thy ===== *)
theory Spec2Isabelle
  imports Id_Race Routes Fault_Freedom Uart_Fifo Message_Types Protocol_Codes Host_View
begin

text \<open>
  Verification of the BeaglePlay CC1352 firmware, a Zephyr application that connects Greybus nodes on the
  network to a Linux host over a UART.

  \<^bold>\<open>The program.\<close>  The host (the application processor, AP) and the firmware exchange HDLC frames over the
  UART (\<open>src/hdlc.c\<close>, \<open>src/main.c\<close>).  A frame carries a Greybus message with the number of an AP CPort, a
  control command (start, stop), or log text (\<open>src/hdlc_log_backend.c\<close>).  The AP bridge (\<open>src/apbridge.c\<close>,
  \<open>src/ap.c\<close>) maps each AP CPort to a CPort of an interface: the SVC (\<open>src/svc.c\<close>), which manages modules and
  connections; the local node (\<open>src/local_node.c\<close>), which answers the control protocol; or a remote node
  (\<open>src/node.c\<close>), reached over TCP.  Remote nodes are found by the discovery thread (\<open>src/tcp_discovery.c\<close>),
  either at one configured address or by multicast DNS (\<open>src/mdns.c\<close>).  Messages live on a heap
  (\<open>src/greybus_messages.c\<close>), interfaces in a slab (\<open>src/greybus_interfaces.c\<close>).

  \<^bold>\<open>How it is modelled.\<close>  Each C function is a HOL function of the same name on explicit state; the static
  variables of the program are one record that grows from theory to theory by extension, in the order the
  modules are layered: \<open>platform\<close>, \<open>hdlc_driver\<close>, \<open>gb_state\<close> (messages), \<open>intf_state\<close>, \<open>ap_state\<close>,
  \<open>node_state\<close>, \<open>fw_state\<close>.  A function that can run into undefined behaviour returns \<open>fault + result\<close>: a
  null dereference, an access outside an array or a heap block, a use after free, a double free, a failed
  assertion and a loop that does not end are values \<open>Inl\<close>, so that a theorem which says \<open>Inr\<close> also says that
  none of them happens.  There is one exception: \<open>control_send_request\<close> (svc.c:71) reads the operation id of
  the request it has just sent, after \<open>ap_send\<close> has freed it.  The read only provides a return value, and every request
  of the SVC makes it, so it is modelled as the value \<open>freed_u16\<close> that the freed memory holds, and the use after
  free is stated on its own (\<open>control_send_request_reads_freed\<close> in \<open>Svc_Uplink\<close>); \<open>Inr\<close> does not exclude it in
  the functions that send such a request (version, hello, module inserted and removed).  Bytes, CPorts, ids and check sequences are words of their C width; \<open>size_t\<close>
  arithmetic is \<open>nat\<close> with the 32-bit wrap-around written out (\<open>size_sub\<close>, \<open>size_add\<close>); \<open>int\<close> results are
  \<open>int\<close>.  Pointers are names: a message by its allocation number, an interface by a static object or a slab
  block, a position in a packet by its offset.

  \<^bold>\<open>Code outside the repository.\<close>  Zephyr is the parameter \<open>z\<close>, a record with one function per call the
  sources make, acting on a hidden state of arbitrary type.  The Zephyr log library, which the log backend
  hands its output function to, is the parameter \<open>lg\<close>, an interaction tree (\<open>log_io\<close>) that may call the output
  function any number of times between changes of its own state.  What a theorem needs of a call is a hypothesis
  named \<open>..._documented\<close>: the CRC, heap, slab and socket calls in \<open>Platform\<close>; the ring buffer and the UART FIFO
  in \<open>Uart_Fifo\<close> (a first-in first-out queue that hands out contiguous pieces of any positive length); the log
  library in \<open>Log_Backend\<close> (it hands over pieces no larger than
  the buffer it was given).  \<open>heap_room\<close> says that memory is
  available, \<open>heap_bounded\<close> that the heap never hands out more than its size, \<open>calls_keep\<close> and \<open>log_keeps\<close>
  that calls do not touch a part of the hidden state that is not theirs, \<open>send_stream\<close>/\<open>recv_stream\<close> that a
  socket behaves as a byte stream in pieces of any size.  The sample platforms of \<open>Platform\<close>, \<open>Node\<close>,
  \<open>Log_Backend\<close> and \<open>Uart_Fifo\<close> satisfy them and serve the witnesses.

  \<^bold>\<open>Theories.\<close>
  \<^item> \<open>Prelude\<close>: words, faults and their composition \<open>bnd\<close>, the partial-correctness judgement \<open>okr\<close> with its
    rules, bounded array access, first-match search, byte orders.
  \<^item> \<open>Platform\<close>: the record \<open>zephyr\<close>, its documented behaviour, the CRC and its residue.
  \<^item> \<open>Hdlc\<close> (hdlc.c, hdlc.h): framing.  The wire format is defined on its own; the locale \<open>hdlc_sink\<close> is what
    sending needs of the transport, \<open>frame_handler\<close> what receiving needs of the frame callback.  Round trip,
    equality of the transmitter with the format, recovery after noise,
    absence of faults of the driver's own, and the effect of an escape before a flag.
  \<^item> \<open>Hdlc_Stream\<close>: a reference decoder of whole byte streams (split at flags, remove escapes, keep the frames
    that check), and the proof that the receive state machine, fed in any portions, delivers exactly what it
    decodes; that a single byte garbled on the line costs the frame, unless a flag or an escape is involved; what
    becomes of a frame whose sender is preempted by another sender.
  \<^item> \<open>Packed_Layouts\<close>: packed little-endian structures as data, with \<open>sizeof\<close>, \<open>offsetof\<close>, reading and writing, and
    the round trip for every declaration.  \<open>Control_Layouts\<close>, \<open>Class_Layouts\<close> (greybus_protocols.h): all
    structures of the header and the request types of all its protocols.  \<open>Protocol_Codes\<close>: its remaining
    constants, a table per group.  \<open>Wire_Formats\<close>: the laws of all
    of them, and their agreement with the payload builders of \<open>Greybus_Protocols\<close>.  \<open>Host_View\<close>: what a host that
    has the UART bytes and the declared structures reads in the requests and answers of the SVC.
  \<^item> \<open>Greybus_Protocols\<close>, \<open>Greybus_Messages\<close> (greybus_protocols.h, greybus_messages.c/.h, ap.c): the header and
    payloads the firmware builds and reads, heap, operation ids; delivery to the AP and its limits.
  \<^item> \<open>Id_Race\<close>: \<open>new_operation_id\<close> at the grain of its atomic accesses, with several threads: sound before the end
    of the range, broken at the end.
  \<^item> \<open>Interfaces\<close>, \<open>Apbridge\<close>, \<open>Connection\<close>, \<open>Routes\<close> (greybus_interfaces.c, apbridge.c): interface slab,
    route table, creating and destroying connections on every branch.  The locale \<open>route_table\<close> states the
    table's contract; \<open>Routes\<close> proves that it refines a partial map.
  \<^item> \<open>Svc_Uplink\<close>, \<open>Svc\<close> (svc.c): requests and answers of the SVC, the handshake.
  \<^item> \<open>Message_Users\<close>: the locales of state properties that the calls to the platform keep (\<open>world_frame\<close>) and that
    building and sending messages keeps (\<open>message_user\<close>).
  \<^item> \<open>Node_Cache\<close>, \<open>Node\<close> (node.c): node cache with its invariant, message transfer over TCP, removal, shutdown.
  \<^item> \<open>Local_Node\<close> (local_node.c) and \<open>Mdns\<close> (mdns.c): control protocol and manifest; names, queries, answers.
  \<^item> \<open>Log_Backend\<close> (hdlc_log_backend.c): the output function and every callback of the backend; log text reaches
    the host.
  \<^item> \<open>Firmware\<close> (main.c, tcp_discovery.c, the receive thread of node.c, \<open>connection_send\<close>): the parts put together.
  \<^item> \<open>Firmware_Invariant\<close>: the invariant of the whole state and one lemma per operation; start-up establishes it.
  \<^item> \<open>Schedule\<close>: the firmware under a preemptive scheduler.  The receive thread, the discovery thread and the work
    item have positions in their code; \<open>thread_step\<close> takes one of them, or a log call, to its next position, and
    \<open>fw_step\<close> adds the UART interrupt.  A handler that is not preempted is one of the schedules.  The locale
    \<open>atomic_pieces\<close> derives from what the pieces keep what every schedule keeps; its interpretation \<open>tables\<close> gives
    the invariant in every reachable state.
  \<^item> \<open>Rx_Frame\<close>: the locale \<open>rx_frame\<close> of relations between states that every operation other than receiving keeps;
    one lemma per operation, down to \<open>thread_step\<close>.  Two interpretations use it: \<open>Uart_Fifo\<close>, where the bytes the
    UART delivered are, in order, those processed, those claimed and those still in the ring (locale
    \<open>stream_client\<close>), and \<open>Message_Types\<close>, where every live message is consistent with its header.
  \<^item> \<open>Fault_Freedom\<close>: the total counterpart: frames of a well-behaved host never fault, those apart that make the
    SVC send a request of its own.
  \<^item> this theory: properties that run through several parts, from UART bytes to the answer, between AP and
    nodes, start and stop, and what a misbehaving host or a vanished node provokes.

  \<^bold>\<open>Bounds and fuel.\<close>  Following compression references in \<open>Mdns\<close> is bounded by the source itself (16
  references, 64 labels); the model counts as the source does, so no further bound is introduced.  The loop of
  \<open>node_destroy_all\<close> gets as many rounds as there are nodes, and \<open>node_destroy_loop_eq\<close> shows that it never
  needs more.  The transfer loops and the mDNS receive loop are \<open>partial_function (option)\<close>; the transfers are
  proved to return on documented sockets, the mDNS loop may run as long as datagrams arrive.  Sizes come from
  the configuration: 256-byte blocks, a 1024-byte receive ring, a 4096-byte message heap, 32 routes and node slots,
  10 interface blocks.

  \<^bold>\<open>Not modelled.\<close>  The text of log statements: an argument is modelled where its evaluation reads memory that
  the function does not read otherwise (\<open>svc_version_response_handler\<close>).  Preemption inside a piece of
  \<open>Schedule\<close>: threads switch after polling, after a message is received, between received bytes, between sockets
  and between discovered addresses, but neither between two accesses of one such piece to the node cache or the route
  table nor while a piece waits for a socket other than to poll or to receive.  Two places inside pieces are treated on their own: the operation id counter (\<open>Id_Race\<close>) and an HDLC
  sender preempted by another (\<open>Hdlc_Stream\<close>).  A node is added by \<open>fw_step\<close> only while the id it gets is not
  that of a live node; \<open>reused_id_reaches_old_node\<close> in \<open>Connection\<close> shows what happens otherwise.
  \<open>k_mem_slab_free\<close> is taken with the \<open>void **\<close> interface its call sites are written for.  Which member of a union a
  message holds.  Build files and device configuration.
\<close>

section \<open>From the host to the SVC and back\<close>

lemma main_greybus: "main_process_complete_frame z mdns b n ADDRESS_GREYBUS s = hdlc_process_greybus_frame z b n s"
  by (simp add: main_process_complete_frame_def)

lemma ap_route_cong: "node_ap_map t = node_ap_map s \<Longrightarrow> ap_route t = ap_route s"
  by (simp add: ap_route_def fun_eq_iff)

lemma rx_loaded_frame [simp]:
  "msg_heap (rx_loaded z b s) = msg_heap s" "msg_next (rx_loaded z b s) = msg_next s"
  "world (rx_loaded z b s) = world s" "uart_tx (rx_loaded z b s) = uart_tx s" "next_escaped (rx_loaded z b s) = next_escaped s"
  by (simp_all add: rx_loaded_def)

lemma rx_loaded_frame_map [simp]: "node_ap_map (rx_loaded z b s) = node_ap_map s"
  by (simp add: rx_loaded_def)

text \<open>A Greybus frame from the host reaches the driver's callback as the message on the named CPort.\<close>

lemma host_frame_eq:
  assumes "crc_documented z" "heap_documented z" "rx_ok s" "rx_idle s" "wf_msg m" "length (payload m) + 14 \<le> HDLC_MAX_BLOCK_SIZE"
    and al: "k_heap_alloc z (hdr_len + length (payload m)) (world s) = (Some blk, w)"
    and body: "body = hdlc_body z ADDRESS_GREYBUS 3 (le16 p @ msg_bytes m)"
  shows "hdlc_process_buffer (main_process_complete_frame z mdns) z (ap_frame z p m) s =
    bnd (connection_send z AP_INF_ID p (msg_next s) (with_msg (repadded blk m) w (rx_loaded z body s)))
      (\<lambda>(ret, t). Inr (int (length (ap_frame z p m)), rx_reset t))"
proof -
  let ?pl = "le16 p @ msg_bytes m"
  let ?t = "rx_loaded z body s"
  have len: "length ?pl = length (payload m) + 10" by (simp add: msg_bytes_length hdr_len_def)
  have "hdlc_process_buffer (main_process_complete_frame z mdns) z (ap_frame z p m) s =
      bnd (main_process_complete_frame z mdns (?pl @ hdlc_fcs z (ADDRESS_GREYBUS # 3 # ?pl) @
          drop (length ?pl + 4) (rx_buffer s)) (length ?pl) ADDRESS_GREYBUS ?t)
        (\<lambda>(ret, t). Inr (int (length (ap_frame z p m)), rx_reset t))"
    unfolding hdlc_process_buffer_def ap_frame_def body
    using rx_whole_frame [OF assms(1,3,4), of ?pl 3 "main_process_complete_frame z mdns" ADDRESS_GREYBUS] assms(6) len
    by (simp add: bnd_assoc split_def)
  also have "main_process_complete_frame z mdns (?pl @ hdlc_fcs z (ADDRESS_GREYBUS # 3 # ?pl) @
        drop (length ?pl + 4) (rx_buffer s)) (length ?pl) ADDRESS_GREYBUS ?t =
      bnd (connection_send z AP_INF_ID p (msg_next s) (with_msg (repadded blk m) w ?t)) (\<lambda>(ret, s).
        if ret < 0 then Inr (ret, s) else Inr (0, s))"
    unfolding main_greybus len
    using greybus_frame_eq [OF assms(2,5), of ?t blk w p] al by (simp add: ap_rx_submit_def)
  finally show ?thesis
    by (cases "connection_send z AP_INF_ID p (msg_next s) (with_msg (repadded blk m) w ?t)") auto
qed

lemma request_answered:
  assumes "crc_documented z" and "heap_documented z" and "rx_ok s" and "rx_idle s" and "heap_ok s"
    and "wf_msg m" and "length (payload m) + 14 \<le> HDLC_MAX_BLOCK_SIZE"
    and "svc_reply (hdr_type (header m)) (payload m) = Some pl"
    and "ap_route s p = Some (SvcIntf, 0, n)" and "node_to_ap_cport SVC_INF_ID 0 s = int j"
    and "heap_room z (hdr_len + length (payload m))" and "heap_room z (hdr_len + length pl)"
  shows "\<exists>s' pad. hdlc_process_buffer (main_process_complete_frame z mdns) z (ap_frame z p m) s =
      Inr (int (length (ap_frame z p m)), s') \<and>
    uart_tx s' = uart_tx s @ ap_frame z (of_nat j)
      (sent_msg (GB_OP_RESPONSE OR hdr_type (header m)) (hdr_operation_id (header m)) 0 pad pl) \<and>
    msg_heap s' = msg_heap s \<and> rx_idle s'"
proof -
  obtain blk w where al: "k_heap_alloc z (hdr_len + length (payload m)) (world s) = (Some blk, w)"
    by (rule heap_roomE [OF assms(11)])
  define body where "body = hdlc_body z ADDRESS_GREYBUS 3 (le16 p @ msg_bytes m)"
  define t where "t = with_msg (repadded blk m) w (rx_loaded z body s)"
  have t: "msg_heap t (msg_next s) = Some (repadded blk m)" "node_ap_map t = node_ap_map s" "msg_next t = msg_next s + 1"
    "uart_tx t = uart_tx s" "msg_heap t = (msg_heap s)(msg_next s \<mapsto> repadded blk m)" "next_escaped t = next_escaped s"
    by (simp_all add: t_def with_msg_def)
  have rdy: "svc_ready_for z (length pl) j t"
    using assms(2,5,10,12) t by (simp add: svc_ready_for_def heap_ok_def node_to_ap_cport_def)
  have short: "length pl \<le> 246" using svc_reply_length [OF assms(8)] by simp
  obtain pad w' where r: "svc_response_helper z (msg_next s) pl 0 t =
      Inr (uplinked z (of_nat j) (sent_msg (GB_OP_RESPONSE OR hdr_type (header m))
             (hdr_operation_id (header m)) 0 pad pl) w' t)"
    using svc_response_helper_room [OF rdy short t(1), of 0] by (metis repadded_sel(3,4))
  have "connection_send z AP_INF_ID p (msg_next s) t = svc_inf_write z (msg_next s) 0 t"
    using assms(9) ap_route_cong [OF t(2)]
    by (simp add: connection_send_ap intf_write_call_def svc_intf_def)
  also have "\<dots> = bnd (svc_response_helper z (msg_next s) pl 0 t)
      (\<lambda>s'. bnd (gb_message_dealloc z (msg_next s) s') (\<lambda>s. Inr (0, s)))"
    using assms(8) by (simp add: svc_inf_write_def gb_handle_msg_reply [OF t(1)])
  finally have "hdlc_process_buffer (main_process_complete_frame z mdns) z (ap_frame z p m) s =
      bnd (bnd (svc_response_helper z (msg_next s) pl 0 t)
        (\<lambda>s'. bnd (gb_message_dealloc z (msg_next s) s') (\<lambda>s. Inr (0 :: int, s))))
      (\<lambda>(ret, t). Inr (int (length (ap_frame z p m)), rx_reset t))"
    using host_frame_eq [OF assms(1-4,6,7) al body_def] by (simp add: t_def)
  then show ?thesis
    using r t heap_ok_fresh [OF assms(5)] assms(4)
    by (cases pad) (auto simp: gb_message_dealloc_def rx_reset_def rx_idle_def uplinked_def fun_upd_idem)
qed

text \<open>
  C6. A request travels from the host's UART to the SVC and its answer back: when an idle receiver gets
  the HDLC frame of a consistent Greybus request on an AP CPort connected to the SVC, of a type the SVC
  answers on its own, the firmware puts exactly one frame on the UART, the response with the same
  operation id and the specified payload on the AP CPort of the SVC, has no message left on its heap that
  was not there before, and is idle again.
\<close>

theorem host_request_answered:
  assumes "crc_documented z" and "heap_documented z" and "rx_ok s" and "rx_idle s" and "heap_ok s"
    and "wf_msg m" and "length (payload m) + 14 \<le> HDLC_MAX_BLOCK_SIZE"
    and "svc_reply (hdr_type (header m)) (payload m) = Some pl"
    and "ap_route s p = Some (SvcIntf, 0, n)" and "node_to_ap_cport SVC_INF_ID 0 s = int j"
    and "heap_room z (hdr_len + length (payload m))" and "heap_room z (hdr_len + length pl)"
  shows "\<exists>s' pad. hdlc_process_buffer (main_process_complete_frame z mdns) z (ap_frame z p m) s =
      Inr (int (length (ap_frame z p m)), s') \<and>
    uart_tx s' = uart_tx s @ ap_frame z (of_nat j)
      (sent_msg (GB_OP_RESPONSE OR hdr_type (header m)) (hdr_operation_id (header m)) 0 pad pl) \<and>
    msg_heap s' = msg_heap s \<and> rx_idle s'"
  by (rule request_answered [OF assms])

text \<open>A running firmware with two nodes, for the witnesses.\<close>

definition sample_fw :: "sample_world fw_state" where
  "sample_fw = node_state.extend sample_nodes
     \<lparr>rx_flag = False, rx_pipe = 10, discovery_running = True, discovery_sock = -1\<rparr>"

lemma sample_fw_ok:
  "rx_ok sample_fw" "rx_idle sample_fw" "heap_ok sample_fw" "node_ok sample_fw" "ap_map_ok sample_fw"
  "node_to_ap_cport SVC_INF_ID 0 sample_fw = int 0" "ap_route sample_fw 0 = Some (SvcIntf, 0, 0)"
proof -
  note d = sample_fw_def node_state.defs
  have "rx_ok sample_nodes" "rx_idle sample_nodes"
    using sample_hd_ok by (simp_all add: rx_ok_def rx_idle_def sample_nodes_def gb_state.defs sample_gs_def hdlc_driver.defs)
  then show "rx_ok sample_fw" "rx_idle sample_fw" by (simp_all add: rx_ok_def rx_idle_def d)
  show "heap_ok sample_fw" using sample_nodes_heap by (simp add: heap_ok_def d)
  show "node_ok sample_fw" using sample_nodes_ok by (simp add: node_ok_def nodes_def d)
  show "ap_map_ok sample_fw" using sample_nodes_ap_ok by (simp add: ap_map_ok_def d)
  show "node_to_ap_cport SVC_INF_ID 0 sample_fw = int 0" using sample_nodes_route by (simp add: node_to_ap_cport_def d)
  show "ap_route sample_fw 0 = Some (SvcIntf, 0, 0)" by (simp add: ap_route_def d sample_nodes_def gb_state.defs)
qed

theorem host_request_answered_witness:
  "\<exists>s' pad. hdlc_process_buffer (main_process_complete_frame sample_zephyr False) sample_zephyr
      (ap_frame sample_zephyr 0 sample_msg) sample_fw = Inr (int (length (ap_frame sample_zephyr 0 sample_msg)), s') \<and>
    uart_tx s' = uart_tx sample_fw @ ap_frame sample_zephyr (of_nat 0)
      (sent_msg (GB_OP_RESPONSE OR hdr_type (header sample_msg)) (hdr_operation_id (header sample_msg)) 0 pad []) \<and>
    msg_heap s' = msg_heap sample_fw \<and> rx_idle s'"
  by (rule host_request_answered [OF sample_documented(1,2) sample_fw_ok(1-3) _ _ _ sample_fw_ok(7,6) sample_room sample_room])
    (simp_all add: sample_msg_def wf_msg_def sent_msg_def hdr_len_def HDLC_MAX_BLOCK_SIZE_def svc_reply_def gb_consts)

text \<open>
  C32. The host reads the answers of the SVC.  When an idle receiver gets the HDLC frame of a consistent
  request for the SVC, of a type for which the protocol header declares a response structure (DME attributes,
  rail count, power, clock and UniPro switching, activation, resume), the firmware puts exactly one frame on
  the UART and is idle again with its heap as before.  Decoding that frame and reading header and payload
  through the declared structures, the host finds on the SVC's AP CPort a response to this type, with the
  operation id of the request, result 0 and the declared size, and in the named members: success codes, the
  attribute value 0x126, no power rail, and for an activated interface the type Greybus (3).
\<close>

theorem host_reads_svc_answers:
  assumes "crc_documented z" and "heap_documented z" and "rx_ok s" and "rx_idle s" and "heap_ok s"
    and "wf_msg m" and "length (payload m) + 14 \<le> HDLC_MAX_BLOCK_SIZE"
    and "(hdr_type (header m), t, ms) \<in> set svc_answer_members"
    and "ap_route s p = Some (SvcIntf, 0, n)" and "node_to_ap_cport SVC_INF_ID 0 s = int j"
    and "heap_room z (hdr_len + length (payload m))" and "heap_room z (hdr_len + sizeof t)"
  shows "\<exists>s' tx h. hdlc_process_buffer (main_process_complete_frame z mdns) z (ap_frame z p m) s =
      Inr (int (length (ap_frame z p m)), s') \<and>
    uart_tx s' = uart_tx s @ tx \<and> msg_heap s' = msg_heap s \<and> rx_idle s' \<and>
    host_reads z t tx = Some (of_nat j, h, map (\<lambda>(n, v). (n, Num v)) ms) \<and>
    header_says h (8 + sizeof t) (hdr_operation_id (header m)) (GB_OP_RESPONSE OR hdr_type (header m)) 0"
proof -
  obtain pl v where pl: "svc_reply (hdr_type (header m)) (payload m) = Some pl" "decode t pl = Some (v, [])"
    "members t v = map (\<lambda>(n, v). (n, Num v)) ms" "sizeof t = length pl"
    by (rule svc_answer_members_reply [OF assms(8)])
  have short: "length pl \<le> 242" using svc_reply_length [OF pl(1)] by simp
  obtain s' pad where s': "hdlc_process_buffer (main_process_complete_frame z mdns) z (ap_frame z p m) s =
      Inr (int (length (ap_frame z p m)), s')"
    "uart_tx s' = uart_tx s @ ap_frame z (of_nat j)
      (sent_msg (GB_OP_RESPONSE OR hdr_type (header m)) (hdr_operation_id (header m)) 0 pad pl)"
    "msg_heap s' = msg_heap s" "rx_idle s'"
    using request_answered [OF assms(1-7) pl(1) assms(9-11)] assms(12) pl(4) by metis
  with host_reads_frame [OF assms(1) short pl(2)] pl(3,4) show ?thesis by metis
qed

theorem host_reads_svc_answers_witness:
  "\<exists>s' tx h. hdlc_process_buffer (main_process_complete_frame sample_zephyr False) sample_zephyr
      (ap_frame sample_zephyr 0 (sent_msg GB_SVC_TYPE_INTF_ACTIVATE 9 0 (0, 0) [3])) sample_fw =
      Inr (int (length (ap_frame sample_zephyr 0 (sent_msg GB_SVC_TYPE_INTF_ACTIVATE 9 0 (0, 0) [3]))), s') \<and>
    uart_tx s' = uart_tx sample_fw @ tx \<and> msg_heap s' = msg_heap sample_fw \<and> rx_idle s' \<and>
    host_reads sample_zephyr gb_svc_intf_activate_response_layout tx =
      Some (of_nat 0, h, map (\<lambda>(n, v). (n, Num v)) [(''status'', 0), (''intf_type'', 3)]) \<and>
    header_says h (8 + sizeof gb_svc_intf_activate_response_layout)
      (hdr_operation_id (header (sent_msg GB_SVC_TYPE_INTF_ACTIVATE 9 0 (0, 0) [3])))
      (GB_OP_RESPONSE OR hdr_type (header (sent_msg GB_SVC_TYPE_INTF_ACTIVATE 9 0 (0, 0) [3]))) 0"
  by (rule host_reads_svc_answers [OF sample_documented(1,2) sample_fw_ok(1-3) _ _ _ sample_fw_ok(7,6) sample_room sample_room])
    (simp_all add: wf_msg_def sent_msg_def hdr_len_def HDLC_MAX_BLOCK_SIZE_def, simp add: svc_answer_members_def)

section \<open>Between the AP and a node\<close>

text \<open>
  C10. From the AP to a node: a message the AP sends on a CPort routed to a cached node is written, whole
  and with the node's CPort number in front, to the socket of that node, whatever pieces the socket takes;
  the call succeeds and frees the message; nothing goes to the UART and no other state changes.
\<close>

theorem ap_message_reaches_node:
  assumes "node_ok s" and "i < node_cache_pos s" and "item_inf (node_cache s ! i) = Some q"
    and "ap_route s p = Some (q, c, n)" and "msg_heap s msg = Some m" and "wf_msg m"
    and "send_stream z (item_sock (node_cache s ! i)) sent"
  shows "\<exists>w. connection_send z AP_INF_ID p msg s =
      Inr (0, s\<lparr>world := k_heap_free z msg w, msg_heap := (msg_heap s)(msg := None)\<rparr>) \<and>
    sent w = sent (world s) @ le16 c @ msg_bytes m"
proof -
  from entry_okE [OF assms(1,2)] obtain b intf k where e: "item_inf (node_cache s ! i) = Some (NodeIntf b)"
    "b < length (gb_interface_slab s)" "gb_interface_slab s ! b = Some intf" "intf_write intf = Node_inf_write"
    "ctrl_data intf = Some k" "k < length (node_control_data_slab s)"
    "node_control_data_slab s ! k = Some (item_sock (node_cache s ! i))" by metis
  obtain w where w: "gb_message_send z (item_sock (node_cache s ! i)) msg c s = Inr (0, s\<lparr>world := w\<rparr>)"
    "sent w = sent (world s) @ le16 c @ msg_bytes m"
    using node_send_stream [OF assms(7,5,6)] by blast
  have "intf_deref q s = Inr intf" using e assms(3) by (simp add: intf_deref_node)
  then show ?thesis
    using w e assms(5)
    by (intro exI [of _ w]) (simp add: connection_send_ap [OF assms(4)] intf_write_call_def node_inf_write_def
        ctrl_get_def gb_message_dealloc_def)
qed

definition sample_routed :: "sample_world fw_state" where
  "sample_routed = sample_fw\<lparr>node_ap_map := (node_ap_map sample_fw)[5 := \<lparr>node_intf = Some (NodeIntf 0), node_cport = 1, node_id = 3\<rparr>],
     msg_heap := [0 \<mapsto> sample_msg], msg_next := 1\<rparr>"

lemma sample_routed_ok:
  "node_ok sample_routed" "ap_map_ok sample_routed" "heap_ok sample_routed" "wf_msg sample_msg"
  "ap_route sample_routed 5 = Some (NodeIntf 0, 1, 3)" "node_to_ap_cport SVC_INF_ID 0 sample_routed = int 0"
  "node_to_ap_cport 3 1 sample_routed = int 5" "item_inf (node_cache sample_routed ! 0) = Some (NodeIntf 0)"
  "item_id (node_cache sample_routed ! 0) = 3" "node_cache_pos sample_routed = 2"
  "node_cache_find_by_sock (-1) sample_routed = int 0"
proof -
  note d = sample_routed_def sample_fw_def node_state.defs sample_nodes_def gb_state.defs
  show "node_ok sample_routed" by (rule node_ok_cong [OF sample_fw_ok(4)]) (simp_all add: sample_routed_def)
  show "ap_map_ok sample_routed"
    using sample_fw_ok(5) unfolding ap_map_ok_def sample_routed_def
    by (auto dest!: set_update_subset_insert [THEN subsetD])
  show "heap_ok sample_routed" by (simp add: heap_ok_def sample_routed_def)
  show "wf_msg sample_msg" by (simp add: sample_msg_def wf_msg_def sent_msg_def hdr_len_def)
  show "ap_route sample_routed 5 = Some (NodeIntf 0, 1, 3)" by (simp add: ap_route_def d)
  show "node_to_ap_cport SVC_INF_ID 0 sample_routed = int 0"
    by (simp add: node_to_ap_cport_def d AP_MAX_NODES_def SVC_INF_ID_def)
  show "node_to_ap_cport 3 1 sample_routed = int 5"
    by (simp add: node_to_ap_cport_def d AP_MAX_NODES_def empty_item_def numeral_eq_Suc)
  show "item_inf (node_cache sample_routed ! 0) = Some (NodeIntf 0)" "item_id (node_cache sample_routed ! 0) = 3"
    "node_cache_pos sample_routed = 2" by (simp_all add: d)
  show "node_cache_find_by_sock (-1) sample_routed = int 0"
    by (simp add: node_cache_find_by_sock_def nodes_def d upt_rec)
qed

theorem ap_message_reaches_node_witness:
  "\<exists>w. connection_send chunky_zephyr AP_INF_ID 5 0 sample_routed =
      Inr (0, sample_routed\<lparr>world := k_heap_free chunky_zephyr 0 w, msg_heap := (msg_heap sample_routed)(0 := None)\<rparr>) \<and>
    fst w = fst (world sample_routed) @ le16 1 @ msg_bytes sample_msg"
  by (rule ap_message_reaches_node [where i = 0, OF sample_routed_ok(1) _ sample_routed_ok(8,5) _ sample_routed_ok(4) chunky_streams(1)])
    (simp_all add: sample_routed_ok(10), simp add: sample_routed_def)

definition only_readable :: "revents \<Rightarrow> bool" where
  "only_readable ev \<longleftrightarrow> pollin ev \<and> \<not> pollnval ev \<and> \<not> pollhup ev \<and> \<not> pollerr ev"

text \<open>
  C11. From a node to the AP, while the closed-by-peer flag of the receive thread is clear, which it is until a
  read from some node ends because that node has closed its connection: when a node's socket is readable and holds a consistent
  message that fits an HDLC block, on a CPort that is routed to an AP CPort, and memory is available, the
  receive thread reads exactly this message and sends it, unchanged but for the pad bytes, to that AP CPort in
  one frame; no message stays on the heap, nodes and routes are unchanged, and the flag is still clear.  With the
  flag set, which only a failed read clears again, the message is lost and the node removed instead
  (\<open>closed_flag_sticks\<close>).
\<close>

theorem node_message_reaches_ap:
  assumes "node_cache_find_by_sock fd s = int i" and "\<not> rx_flag s" and "only_readable ev"
    and "heap_documented z" and "heap_room z (hdr_len + length (payload m))" and "heap_ok s"
    and "recv_stream z fd avail" and "wf_msg m" and "fits_block m"
    and "avail (world s) = le16 cport @ msg_bytes m @ rest"
    and "item_id (node_cache s ! i) \<noteq> AP_INF_ID"
    and "node_to_ap_cport (item_id (node_cache s ! i)) cport s = int j"
  shows "\<exists>s' pad. node_rx_socket z (fd, ev) s = Inr s' \<and>
    uart_tx s' = uart_tx s @ ap_frame z (of_nat j) (m\<lparr>header := (header m)\<lparr>hdr_pad := pad\<rparr>\<rparr>) \<and>
    msg_heap s' = msg_heap s \<and> nodes s' = nodes s \<and> node_ap_map s' = node_ap_map s \<and> \<not> rx_flag s'"
proof -
  obtain pad w where r: "gb_message_receive z fd (rx_flag s) s = Inr ((cport, Some (msg_next s)), rx_flag s,
      with_msg (m\<lparr>header := (header m)\<lparr>hdr_pad := pad\<rparr>\<rparr>) w s)"
    using gb_message_receive_stream [OF assms(4,7,8,5,10), of "rx_flag s"] by blast
  let ?m = "m\<lparr>header := (header m)\<lparr>hdr_pad := pad\<rparr>\<rparr>"
  let ?t = "with_msg ?m w s"
  have t: "?t\<lparr>rx_flag := rx_flag s\<rparr> = ?t" "node_cache ?t = node_cache s"
    by (auto simp: with_msg_def intro!: fw_state.equality)
  have m: "wf_msg ?m" "fits_block ?m" using assms(8,9) by (simp_all add: wf_msg_def fits_block_def)
  have "connection_send z (item_id (node_cache s ! i)) cport (msg_next s) ?t = Inr (0, uplinked z (of_nat j) ?m w s)"
    using assms(11) connection_send_to_ap_fresh [OF assms(6) m assms(12), of z w] by (simp add: connection_send_def)
  then have "node_rx_socket z (fd, ev) s = Inr (uplinked z (of_nat j) ?m w s)"
    using assms(1-3) r t by (simp add: node_rx_socket_def only_readable_def Let_def)
  then show ?thesis by (intro exI [of _ "uplinked z (of_nat j) ?m w s"] exI [of _ pad]) (use assms(2) in \<open>simp add: nodes_def uplinked_def\<close>)
qed

definition sample_event :: revents where
  "sample_event = \<lparr>pollin = True, pollnval = False, pollhup = False, pollerr = False\<rparr>"

definition sample_incoming :: "bool \<Rightarrow> sample_world fw_state" where
  "sample_incoming flag = sample_routed\<lparr>world := ([], le16 1 @ msg_bytes sample_msg), rx_flag := flag\<rparr>"

lemma sample_incoming_ok:
  "node_ok (sample_incoming f)" "heap_ok (sample_incoming f)" "node_to_ap_cport SVC_INF_ID 0 (sample_incoming f) = int 0"
  "node_cache_find_by_sock (-1) (sample_incoming f) = int 0" "item_id (node_cache (sample_incoming f) ! 0) = 3"
  "node_to_ap_cport 3 1 (sample_incoming f) = int 5" "snd (world (sample_incoming f)) = le16 1 @ msg_bytes sample_msg @ []"
  "rx_flag (sample_incoming f) = f" "node_cache_pos (sample_incoming f) = 2"
  using sample_routed_ok node_ok_cong [OF sample_routed_ok(1), of "sample_incoming f"]
  by (simp_all add: sample_incoming_def heap_ok_def node_to_ap_cport_def node_cache_find_by_sock_def nodes_def)

theorem node_message_reaches_ap_witness:
  "\<exists>s' pad. node_rx_socket chunky_zephyr (-1, sample_event) (sample_incoming False) = Inr s' \<and>
    uart_tx s' = uart_tx (sample_incoming False) @ ap_frame chunky_zephyr (of_nat 5) (sample_msg\<lparr>header := (header sample_msg)\<lparr>hdr_pad := pad\<rparr>\<rparr>) \<and>
    msg_heap s' = msg_heap (sample_incoming False) \<and> nodes s' = nodes (sample_incoming False) \<and>
    node_ap_map s' = node_ap_map (sample_incoming False) \<and> \<not> rx_flag s'"
  by (rule node_message_reaches_ap [OF sample_incoming_ok(4) _ _ chunky_streams(3,4) sample_incoming_ok(2) chunky_streams(2)
        sample_routed_ok(4) _ sample_incoming_ok(7)])
    (simp_all add: sample_incoming_ok, simp_all add: only_readable_def sample_event_def AP_INF_ID_def fits_block_def
      sample_msg_def sent_msg_def hdr_len_def HDLC_MAX_BLOCK_SIZE_def)

section \<open>When a node goes away\<close>

text \<open>
  C35. Removing a node leaves its routes behind: after \<open>svc_send_module_removed\<close> for a node that an AP
  CPort is routed to, the next message the AP sends on that CPort dereferences the freed interface.
\<close>

theorem removed_node_route_dangles:
  assumes "node_ok s" and "i < node_cache_pos s" and "item_inf (node_cache s ! i) = Some q"
    and "ap_route s p = Some (q, c, n)"
    and "heap_documented z" and "heap_room z 9" and "heap_ok s" and "node_to_ap_cport SVC_INF_ID 0 s = int j"
  shows "\<exists>r s'. svc_send_module_removed z (Some q) s = Inr (r, s') \<and>
    connection_send z AP_INF_ID p msg s' = Inl UseAfterFree"
proof -
  obtain b k pad w r where e: "item_inf (node_cache s ! i) = Some (NodeIntf b)" "b < MAX_GREYBUS_INTERFACES"
    "svc_send_module_removed z (item_inf (node_cache s ! i)) s =
       Inr (r, node_removed z i b k (uplinked z (of_nat j) (sent_msg GB_SVC_TYPE_MODULE_REMOVED
         (fst (new_operation_id s)) 0 pad [item_id (node_cache s ! i)]) w (snd (new_operation_id s))))"
    using svc_send_module_removed_at [OF assms(1,2,5-8)] by metis
  let ?t = "node_removed z i b k (uplinked z (of_nat j) (sent_msg GB_SVC_TYPE_MODULE_REMOVED
         (fst (new_operation_id s)) 0 pad [item_id (node_cache s ! i)]) w (snd (new_operation_id s)))"
  have q: "q = NodeIntf b" using e(1) assms(3) by simp
  have "node_ap_map ?t = node_ap_map s" by (simp add: node_removed_def)
  then have route: "ap_route ?t p = Some (NodeIntf b, c, n)" using assms(4) q ap_route_cong [of ?t s] by simp
  have "length (gb_interface_slab s) = MAX_GREYBUS_INTERFACES" using assms(1) by (simp add: node_ok_def)
  then have "intf_deref (NodeIntf b) ?t = Inl UseAfterFree"
    using e(2) by (simp add: intf_deref_def node_removed_def new_operation_id_eq)
  then have "connection_send z AP_INF_ID p msg ?t = Inl UseAfterFree"
    by (simp add: connection_send_ap [OF route] intf_write_call_def)
  then show ?thesis using e(1,3) q by auto
qed

theorem removed_node_route_dangles_witness:
  "\<exists>r s'. svc_send_module_removed sample_zephyr (Some (NodeIntf 0)) sample_routed = Inr (r, s') \<and>
    connection_send sample_zephyr AP_INF_ID 5 0 s' = Inl UseAfterFree"
  by (rule removed_node_route_dangles [OF sample_routed_ok(1) _ sample_routed_ok(8,5) sample_documented(2) sample_room
        sample_routed_ok(3,6)]) (simp add: sample_routed_ok(10))

text \<open>
  A successful read does not clear the closed-by-peer flag of the receive thread: once a peer has closed a
  connection, the next complete and valid message from any other node is read and thrown away, never freed, and that
  node is reported to the AP as removed and destroyed.
\<close>

lemma closed_flag_sticks:
  assumes "node_ok s" and "node_cache_find_by_sock fd s = int i" and "rx_flag s" and "only_readable ev"
    and "heap_documented z" and "heap_room z (hdr_len + length (payload m))" and "heap_room z 9" and "heap_ok s"
    and "recv_stream z fd avail" and "wf_msg m" and "avail (world s) = le16 cport @ msg_bytes m @ rest"
    and "node_to_ap_cport SVC_INF_ID 0 s = int j"
  shows "\<exists>s' pad. node_rx_socket z (fd, ev) s = Inr s' \<and> rx_flag s' \<and>
    mset (nodes s) = add_mset (node_cache s ! i) (mset (nodes s')) \<and> msg_heap s' (msg_next s) \<noteq> None \<and>
    uart_tx s' = uart_tx s @ ap_frame z (of_nat j) (sent_msg GB_SVC_TYPE_MODULE_REMOVED
      (fst (new_operation_id s)) 0 pad [item_id (node_cache s ! i)])"
proof -
  obtain hp w where r: "gb_message_receive z fd (rx_flag s) s = Inr ((cport, Some (msg_next s)), rx_flag s,
      with_msg (m\<lparr>header := (header m)\<lparr>hdr_pad := hp\<rparr>\<rparr>) w s)"
    using gb_message_receive_stream [OF assms(5,9,10,6,11), of "rx_flag s"] by blast
  define t where "t = with_msg (m\<lparr>header := (header m)\<lparr>hdr_pad := hp\<rparr>\<rparr>) w s"
  have upd: "t\<lparr>rx_flag := True\<rparr> = t" using assms(3) by (auto simp: t_def with_msg_def intro!: fw_state.equality)
  have t: "node_ok t" "node_cache t = node_cache s" "node_cache_pos t = node_cache_pos s" "nodes t = nodes s" "heap_ok t"
    "node_to_ap_cport SVC_INF_ID 0 t = int j" "rx_flag t" "uart_tx t = uart_tx s" "msg_heap t (msg_next s) \<noteq> None"
    "new_operation_id t = (fst (new_operation_id s), snd (new_operation_id t))"
    using node_ok_cong [OF assms(1), of t] assms(3,8,12)
    by (auto simp: t_def with_msg_def nodes_def heap_ok_def node_to_ap_cport_def new_operation_id_eq)
  have i: "i < node_cache_pos t" using find_by_sock_found(1) [OF assms(1), of fd] assms(2) t(3) by simp
  obtain b c pad w' q where e: "item_inf (node_cache t ! i) = Some (NodeIntf b)"
    "entry_ctrl (gb_interface_slab t) (node_cache t ! i) = Some c"
    "svc_send_module_removed z (item_inf (node_cache t ! i)) t =
       Inr (q, node_removed z i b c (uplinked z (of_nat j) (sent_msg GB_SVC_TYPE_MODULE_REMOVED
         (fst (new_operation_id t)) 0 pad [item_id (node_cache t ! i)]) w' (snd (new_operation_id t))))"
    using svc_send_module_removed_at [OF t(1) i assms(5,7) t(5,6)] by metis
  define u where "u = uplinked z (of_nat j) (sent_msg GB_SVC_TYPE_MODULE_REMOVED
         (fst (new_operation_id t)) 0 pad [item_id (node_cache t ! i)]) w' (snd (new_operation_id t))"
  have u: "node_ok u" "node_cache u = node_cache t" "node_cache_pos u = node_cache_pos t" "nodes u = nodes t"
    "gb_interface_slab u = gb_interface_slab t" "rx_flag u = rx_flag t" "msg_heap u = msg_heap t"
    using t(1) by (simp_all add: u_def node_ok_uplinked node_ok_new_id, simp_all add: nodes_def uplinked_def new_operation_id_eq)
  have "node_rx_socket z (fd, ev) s = Inr (node_removed z i b c u)"
    using assms(2-4) r [folded t_def] upd e(3) t(2)
    by (simp add: node_rx_socket_def only_readable_def Let_def u_def)
  moreover have "mset (nodes s) = add_mset (node_cache s ! i) (mset (nodes (node_removed z i b c u)))"
    using node_ok_removed(2) [OF u(1), of i b c z] i e u t by simp
  moreover have "uart_tx u = uart_tx s @ ap_frame z (of_nat j) (sent_msg GB_SVC_TYPE_MODULE_REMOVED
      (fst (new_operation_id s)) 0 pad [item_id (node_cache s ! i)])"
    using t(2,8) arg_cong [OF t(10), of fst] by (simp add: u_def)
  ultimately show ?thesis
    using t(7,9) u(6,7)
    by (intro exI [of _ "node_removed z i b c u"] exI [of _ pad]) (simp add: node_removed_def)
qed

lemma closed_flag_sticks_witness:
  "\<exists>s' pad. node_rx_socket chunky_zephyr (-1, sample_event) (sample_incoming True) = Inr s' \<and> rx_flag s' \<and>
    mset (nodes (sample_incoming True)) = add_mset (node_cache (sample_incoming True) ! 0) (mset (nodes s')) \<and>
    msg_heap s' (msg_next (sample_incoming True)) \<noteq> None \<and>
    uart_tx s' = uart_tx (sample_incoming True) @ ap_frame chunky_zephyr (of_nat 0) (sent_msg GB_SVC_TYPE_MODULE_REMOVED
      (fst (new_operation_id (sample_incoming True))) 0 pad [item_id (node_cache (sample_incoming True) ! 0)])"
  by (rule closed_flag_sticks [OF sample_incoming_ok(1,4) _ _ chunky_streams(3,4,4) sample_incoming_ok(2) chunky_streams(2)
        sample_routed_ok(4) sample_incoming_ok(7,3)])
    (simp_all add: sample_incoming_ok only_readable_def sample_event_def)

section \<open>Starting and stopping\<close>

text \<open>The SVC ready and connected to AP CPort 0.\<close>

definition svc_connected :: "('w, 'a) fws \<Rightarrow> ('w, 'a) fws" where
  "svc_connected s = (svc_init s)\<lparr>node_ap_map := (node_ap_map s)[0 :=
     \<lparr>node_intf = Some SvcIntf, node_cport = 0, node_id = SVC_INF_ID\<rparr>]\<rparr>"

lemma start_connection:
  assumes "ap_map_ok s"
  shows "connection_create z AP_INF_ID 0 SVC_INF_ID 0 (svc_init s) =
    (if ap_route s 0 = None
     then Inr (0, svc_connected s) else Inr (- EALREADY, svc_init s))"
proof -
  have len: "length (node_ap_map s) = 32" using assms by (simp add: ap_map_ok_def AP_MAX_NODES_def)
  have "ap_route s 0 = None \<longleftrightarrow> node_intf (node_ap_map s ! 0) = None" using len by (simp add: ap_route_def Let_def)
  then show ?thesis
    by (simp add: connection_create_def ap_end_def gb_interface_find_by_id_def svc_interface_def svc_is_ready_def
        svc_init_def create_connection_call_def svc_intf_def svc_inf_create_connection_def node_ap_add_def
        svc_connected_def gb_consts AP_MAX_NODES_def)
qed

lemma svc_connected_route:
  assumes "ap_map_ok s"
  shows "ap_route (svc_connected s) = (ap_route s)(0 \<mapsto> (SvcIntf, 0, SVC_INF_ID))"
    "node_to_ap_cport SVC_INF_ID 0 (svc_connected s) = int 0"
proof -
  have len: "length (node_ap_map s) = 32" using assms by (simp add: ap_map_ok_def AP_MAX_NODES_def)
  then show "ap_route (svc_connected s) = (ap_route s)(0 \<mapsto> (SvcIntf, 0, SVC_INF_ID))"
    using ap_route_update [of 0 "svc_init s"] ap_route_cong [of "svc_init s" s] by (simp add: svc_connected_def svc_init_def)
  have "node_ap_map (svc_connected s) = \<lparr>node_intf = Some SvcIntf, node_cport = 0, node_id = SVC_INF_ID\<rparr> # tl (node_ap_map s)"
    using len by (cases "node_ap_map s") (simp_all add: svc_connected_def)
  then show "node_to_ap_cport SVC_INF_ID 0 (svc_connected s) = int 0" by (simp add: node_to_ap_cport_def AP_MAX_NODES_def)
qed

lemma svc_send_version_room:
  assumes "heap_documented z" "heap_room z 10" "heap_ok t" "node_to_ap_cport SVC_INF_ID 0 t = int i"
  obtains r pad w where "svc_send_version z t = Inr (r, uplinked z (of_nat i) (sent_msg GB_SVC_TYPE_PROTOCOL_VERSION
    (fst (new_operation_id t)) 0 pad [0, 1]) w (snd (new_operation_id t)))"
proof -
  obtain blk w where "k_heap_alloc z 10 (world t) = (Some blk, w)" by (rule heap_roomE [OF assms(2)])
  then show ?thesis
    using control_send_request_eq [OF assms(1,3) _ assms(4), of "[0, 1]" blk w GB_SVC_TYPE_PROTOCOL_VERSION] that
    by (simp add: svc_send_version_def gb_svc_version_request_def hdr_len_def GB_SVC_VERSION_MAJOR_def
        GB_SVC_VERSION_MINOR_def Let_def)
qed

text \<open>
  C15. The start command, with discovery at the configured address (\<open>prj.conf\<close> leaves mDNS discovery out): a
  control frame with the one byte 1 makes the SVC ready.  If AP CPort 0 is free it
  connects it to the SVC, sends exactly one frame, the SVC's protocol version request (0.1) with a fresh
  operation id on AP CPort 0, and lets discovery run; if CPort 0 is already connected it returns
  \<open>-EALREADY\<close>, sends nothing and changes no route.
\<close>

theorem start_command:
  assumes "ap_map_ok s" and "heap_ok s" and "heap_documented z" and "heap_room z 10"
  shows "\<exists>r s'. main_process_complete_frame z False (CONTROL_SVC_START # rest) 1 ADDRESS_CONTROL s = Inr (r, s') \<and>
    svc_is_ready s' \<and> msg_heap s' = msg_heap s \<and>
    (if ap_route s 0 = None
     then r = 0 \<and> ap_route s' = (ap_route s)(0 \<mapsto> (SvcIntf, 0, SVC_INF_ID)) \<and> discovery_running s' \<and>
       (\<exists>pad. uart_tx s' = uart_tx s @ ap_frame z 0
         (sent_msg GB_SVC_TYPE_PROTOCOL_VERSION (fst (new_operation_id s)) 0 pad [0, 1]))
     else r = - EALREADY \<and> ap_route s' = ap_route s \<and> uart_tx s' = uart_tx s)"
proof -
  have f: "main_process_complete_frame z False (CONTROL_SVC_START # rest) 1 ADDRESS_CONTROL s =
      bnd (connection_create z AP_INF_ID 0 SVC_INF_ID 0 (svc_init s)) (\<lambda>(ret, s).
        if ret < 0 then Inr (ret, s)
        else bnd (svc_send_version z s) (\<lambda>(r, s). Inr (0, tcp_discovery_start z False s)))"
    by (simp add: main_process_complete_frame_def control_process_frame_def hdlc_consts CONTROL_SVC_START_def
        ap_init_def apbridge_init_def Let_def)
  show ?thesis
  proof (cases "ap_route s 0 = None")
    case False
    have route: "ap_route (svc_init s) = ap_route s" by (rule ap_route_cong) (simp add: svc_init_def)
    have run: "main_process_complete_frame z False (CONTROL_SVC_START # rest) 1 ADDRESS_CONTROL s = Inr (- EALREADY, svc_init s)"
      unfolding f start_connection [OF assms(1)] if_not_P [OF False] by (simp add: EALREADY_def)
    show ?thesis
      unfolding run if_not_P [OF False] using route
      by (intro exI [of _ "- EALREADY"] exI [of _ "svc_init s"]) (simp add: svc_is_ready_def svc_init_def)
  next
    case True
    define t where "t = svc_connected s"
    note route = svc_connected_route(1) [OF assms(1), folded t_def] and j = svc_connected_route(2) [OF assms(1), folded t_def]
    have t: "heap_ok t" "msg_heap t = msg_heap s" "uart_tx t = uart_tx s" "svc_is_ready t"
      "fst (new_operation_id t) = fst (new_operation_id s)"
      using assms(2) by (simp_all add: t_def svc_connected_def svc_init_def heap_ok_def svc_is_ready_def new_operation_id_eq)
    obtain r pad w where v: "svc_send_version z t = Inr (r, uplinked z (of_nat 0) (sent_msg GB_SVC_TYPE_PROTOCOL_VERSION
        (fst (new_operation_id t)) 0 pad [0, 1]) w (snd (new_operation_id t)))"
      by (rule svc_send_version_room [OF assms(3,4) t(1) j])
    define u where "u = uplinked z (of_nat 0) (sent_msg GB_SVC_TYPE_PROTOCOL_VERSION
        (fst (new_operation_id t)) 0 pad [0, 1]) w (snd (new_operation_id t))"
    have u: "ap_route (u\<lparr>discovery_running := True\<rparr>) = ap_route t" "msg_heap u = msg_heap s" "svc_is_ready u"
      "uart_tx u = uart_tx s @ ap_frame z 0 (sent_msg GB_SVC_TYPE_PROTOCOL_VERSION
        (fst (new_operation_id s)) 0 pad [0, 1])"
      using t by (auto intro!: ap_route_cong simp: u_def svc_is_ready_def new_operation_id_eq)
    have run: "main_process_complete_frame z False (CONTROL_SVC_START # rest) 1 ADDRESS_CONTROL s =
        Inr (0, u\<lparr>discovery_running := True\<rparr>)"
      unfolding f start_connection [OF assms(1)]
      using True v by (simp add: t_def [symmetric] u_def Let_def tcp_discovery_start_def)
    have "\<exists>pad. uart_tx u = uart_tx s @ ap_frame z 0 (sent_msg GB_SVC_TYPE_PROTOCOL_VERSION
        (fst (new_operation_id s)) 0 pad [0, 1])" using u(4) by blast
    then show ?thesis
      unfolding run if_P [OF True] using u(1-3) route
      by (intro exI [of _ 0] exI [of _ "u\<lparr>discovery_running := True\<rparr>"]) (simp add: svc_is_ready_def)
  qed
qed

theorem start_command_witness:
  "\<exists>r s'. main_process_complete_frame sample_zephyr False (CONTROL_SVC_START # []) 1 ADDRESS_CONTROL sample_boot = Inr (r, s') \<and>
    svc_is_ready s' \<and> msg_heap s' = msg_heap sample_boot \<and>
    (if ap_route sample_boot 0 = None
     then r = 0 \<and> ap_route s' = (ap_route sample_boot)(0 \<mapsto> (SvcIntf, 0, SVC_INF_ID)) \<and> discovery_running s' \<and>
       (\<exists>pad. uart_tx s' = uart_tx sample_boot @ ap_frame sample_zephyr 0
         (sent_msg GB_SVC_TYPE_PROTOCOL_VERSION (fst (new_operation_id sample_boot)) 0 pad [0, 1]))
     else r = - EALREADY \<and> ap_route s' = ap_route sample_boot \<and> uart_tx s' = uart_tx sample_boot)"
  by (rule start_command [OF fw_invD(4) [OF sample_boot_inv] fw_invD(5) [OF sample_boot_inv] sample_documented(2) sample_room])

lemma all_same_set:
  assumes "0 < length xs" "\<And>i. i < length xs \<Longrightarrow> xs ! i = y" shows "set xs = {y}"
proof -
  have "xs = replicate (length xs) y" using assms(2) by (intro nth_equalityI) simp_all
  then show ?thesis using assms(1) set_replicate [of "length xs" y] by simp
qed

lemma node_destroy_loop_more: "okr (\<lambda>t. node_state.more t = node_state.more s) (node_destroy_loop z n i s)"
proof (induction n arbitrary: i s)
  case (Suc n)
  have "okr (\<lambda>t. node_state.more t = node_state.more s) (node_destroy_interface z p s)" for p
    by (auto simp: node_destroy_interface_def node_cache_remove_by_id_def node_cache_remove_at_def ctrl_free_def
        gb_interface_dealloc_def Let_def split_def split: option.split intf_ptr.split
        intro!: okr_reads okr_bnd [where P = "\<lambda>rt. node_state.more (snd rt) = node_state.more s"]
          okr_bnd [where P = "\<lambda>t. node_state.more t = node_state.more s"])
  moreover have "okr (\<lambda>t. node_state.more t = node_state.more s) (node_destroy_loop z n (Suc i) x)"
    if "node_state.more x = node_state.more s" for x using Suc.IH [of x "Suc i"] that by simp
  ultimately show ?case by (auto intro!: okr_bnd [where P = "\<lambda>t. node_state.more t = node_state.more s"])
qed simp

lemma stop_frame_eq:
  "main_process_complete_frame z mdns (CONTROL_SVC_STOP # rest) 1 ADDRESS_CONTROL s =
     bnd (node_destroy_all z (tcp_discovery_stop z mdns s)) (\<lambda>s. Inr (0, apbridge_deinit (svc_deinit s)))"
  by (simp add: main_process_complete_frame_def control_process_frame_def hdlc_consts CONTROL_SVC_START_def
      CONTROL_SVC_STOP_def ap_deinit_def Let_def)

text \<open>
  C16. The stop command: from a consistent state with at most one node, a control frame with the one byte 2
  returns 0 and leaves the firmware as it was before any start: no node, no interface block and no control
  block in use, no route, the SVC not ready and discovery suspended.  With two or more nodes it runs into
  the assertion of \<open>node_destroy_all\<close>.
\<close>

theorem stop_command:
  assumes "fw_inv A s"
  shows "if node_cache_pos s \<le> 1
    then \<exists>s'. main_process_complete_frame z mdns (CONTROL_SVC_STOP # rest) 1 ADDRESS_CONTROL s = Inr (0, s') \<and>
      fw_inv A s' \<and> nodes s' = [] \<and> set (gb_interface_slab s') = {None} \<and> set (node_control_data_slab s') = {None} \<and>
      ap_route s' = Map.empty \<and> \<not> svc_is_ready s' \<and> \<not> discovery_running s'
    else main_process_complete_frame z mdns (CONTROL_SVC_STOP # rest) 1 ADDRESS_CONTROL s = Inl AssertionFailed"
proof -
  let ?t = "tcp_discovery_stop z mdns s"
  note f = stop_frame_eq [of z mdns rest s]
  have t: "fw_inv A ?t" "node_cache_pos ?t = node_cache_pos s" "\<not> discovery_running ?t"
    using tcp_discovery_inv(2) [OF assms] by (simp_all add: tcp_discovery_stop_def Let_def)
  obtain u where u: "node_destroy_loop z (node_cache_pos ?t) 0 ?t = Inr u" "node_ok u"
    "node_cache_pos u = node_cache_pos s - (node_cache_pos s + 1) div 2"
    using node_destroy_loop_eq [OF fw_invD(2) [OF t(1)], of "node_cache_pos ?t" 0 z] t(2) by auto
  show ?thesis
  proof (cases "node_cache_pos s \<le> 1")
    case False
    then have "node_cache_pos u \<noteq> 0" unfolding u(3) by presburger
    with False u show ?thesis unfolding f by (simp add: node_destroy_all_def ctrl_used_iff)
  next
    case True
    then have pos: "node_cache_pos u = 0" unfolding u(3) by presburger
    then have id: "u\<lparr>node_cache_pos := 0\<rparr> = u" by (auto intro!: fw_state.equality)
    let ?s = "apbridge_deinit (svc_deinit u)"
    have run: "main_process_complete_frame z mdns (CONTROL_SVC_STOP # rest) 1 ADDRESS_CONTROL s = Inr (0, ?s)"
      unfolding f using u pos by (simp add: node_destroy_all_def ctrl_used_iff Let_def id)
    have inv: "fw_inv A ?s"
      using okrD [OF node_destroy_loop_inv [OF t(1)] u(1)] by (intro apbridge_deinit_inv) (simp add: svc_deinit_def)
    have none: "nodes ?s = []" using pos by (simp add: nodes_def apbridge_deinit_def svc_deinit_def)
    have "node_state.more u = node_state.more ?t" using okrD [OF node_destroy_loop_more u(1)] .
    then have "discovery_running u = discovery_running ?t" by (cases u, cases ?t) simp
    then have "\<not> discovery_running ?s" using t(3) by (simp add: apbridge_deinit_def svc_deinit_def)
    moreover have "set (gb_interface_slab ?s) = {None}" "set (node_control_data_slab ?s) = {None}"
      using fw_invD(2) [OF inv] fw_invD(3) [OF inv] none
      by (auto intro!: all_same_set simp: node_ok_def nodes_ok_def intf_owned_def MAX_GREYBUS_INTERFACES_def MAX_GREYBUS_NODES_def)
    moreover have "ap_route ?s = Map.empty" by (rule ext) (simp add: ap_route_def apbridge_deinit_def empty_item_def Let_def)
    moreover have "\<not> svc_is_ready ?s" by (simp add: svc_is_ready_def apbridge_deinit_def svc_deinit_def)
    ultimately show ?thesis unfolding run if_P [OF True] using inv none by blast
  qed
qed

theorem stop_command_witness:
  "if node_cache_pos sample_boot \<le> 1
    then \<exists>s'. main_process_complete_frame sample_zephyr False [CONTROL_SVC_STOP] 1 ADDRESS_CONTROL sample_boot = Inr (0, s') \<and>
      fw_inv UNIV s' \<and> nodes s' = [] \<and> set (gb_interface_slab s') = {None} \<and> set (node_control_data_slab s') = {None} \<and>
      ap_route s' = Map.empty \<and> \<not> svc_is_ready s' \<and> \<not> discovery_running s'
    else main_process_complete_frame sample_zephyr False [CONTROL_SVC_STOP] 1 ADDRESS_CONTROL sample_boot = Inl AssertionFailed"
  by (rule stop_command [OF sample_boot_inv])

text \<open>
  C39. Stopping while a node is being read.  The receive thread keeps the index of a node while it waits for
  the node's message.  If the host's stop command is handled between a receive that fails, as it does when
  the command closes the socket, and the handling of the failure, the command itself succeeds, and
  the thread then reports the node as removed through an interface that has been freed.
\<close>

theorem stop_during_receive:
  assumes "fw_inv A s" and "node_cache_pos s = 1" and "rx_flag s \<or> msg = None"
  shows "\<exists>s'. main_process_complete_frame z mdns (CONTROL_SVC_STOP # rest) 1 ADDRESS_CONTROL s = Inr (0, s') \<and>
    node_rx_forward z 0 (cport, msg) s' = Inl UseAfterFree"
proof -
  let ?t = "tcp_discovery_stop z mdns s"
  note f = stop_frame_eq [of z mdns rest s]
  have t: "fw_inv A ?t" "node_cache_pos ?t = 1" "rx_flag ?t = rx_flag s"
    using tcp_discovery_inv(2) [OF assms(1)] assms(2) by (simp_all add: tcp_discovery_stop_def Let_def)
  note ok = fw_invD(2) [OF t(1)]
  obtain b c where d: "item_inf (node_cache ?t ! 0) = Some (NodeIntf b)"
    "node_destroy_interface z (item_inf (node_cache ?t ! 0)) ?t = Inr (node_removed z 0 b c ?t)"
    by (rule node_destroy_interface_eq [OF ok, of 0 z]) (use t(2) in auto)
  let ?u = "node_removed z 0 b c ?t"
  let ?s = "apbridge_deinit (svc_deinit ?u)"
  have b: "b < length (gb_interface_slab ?t)" using entry_okE [OF ok, of 0] t(2) d(1) by (metis intf_ptr.inject option.inject zero_less_one)
  have loop: "node_destroy_loop z (node_cache_pos ?t) 0 ?t = Inr ?u" using t(2) d(2) by (simp add: node_removed_def)
  have "node_ok ?u" "node_cache_pos ?u = 0"
    using node_destroy_loop_eq [OF ok, of "node_cache_pos ?t" 0 z] loop t(2) by (auto simp: node_removed_def)
  then have "True \<notin> set (slab_used (node_control_data_slab ?u))" by (simp add: ctrl_used_iff)
  moreover have "?u\<lparr>node_cache_pos := 0\<rparr> = ?u" using \<open>node_cache_pos ?u = 0\<close> by (auto intro!: fw_state.equality)
  ultimately have "node_destroy_all z ?t = Inr ?u" using loop by (simp add: node_destroy_all_def Let_def)
  moreover have "rx_flag ?s = rx_flag s" using t(3) by (simp add: apbridge_deinit_def svc_deinit_def node_removed_def)
  moreover have "item_inf (node_cache ?s ! 0) = Some (NodeIntf b)"
    using d(1) t(2) by (cases "node_cache ?t") (simp_all add: apbridge_deinit_def svc_deinit_def node_removed_def)
  moreover have "intf_deref (NodeIntf b) ?s = Inl UseAfterFree"
    using b by (simp add: apbridge_deinit_def svc_deinit_def node_removed_def intf_deref_def)
  ultimately show ?thesis using assms(3) unfolding f
    by (intro exI [of _ ?s]) (auto simp: node_rx_forward_def svc_send_module_removed_def split: option.split)
qed

definition sample_one :: "sample_world fw_state" where
  "sample_one = node_created [7] 0 0 ([], []) sample_boot"

lemma sample_one_ok: "fw_inv UNIV sample_one" "node_cache_pos sample_one = 1"
proof -
  show "fw_inv UNIV sample_one" unfolding sample_one_def
    by (rule node_created_inv [OF sample_boot_inv])
      (simp_all add: sample_boot_def boot_def nodes_def MAX_GREYBUS_INTERFACES_def MAX_GREYBUS_NODES_def)
  show "node_cache_pos sample_one = 1" by (simp add: sample_one_def node_created_def new_interface_id_eq sample_boot_def boot_def)
qed

theorem stop_during_receive_witness:
  "\<exists>s'. main_process_complete_frame sample_zephyr False [CONTROL_SVC_STOP] 1 ADDRESS_CONTROL sample_one = Inr (0, s') \<and>
    node_rx_forward sample_zephyr 0 (5, None) s' = Inl UseAfterFree"
  by (rule stop_during_receive [OF sample_one_ok]) simp

section \<open>What the host can provoke\<close>

text \<open>
  C36. A Greybus frame for an AP CPort that is not connected takes the firmware down: \<open>connection_send\<close>
  indexes the route table without a bound and calls through the entry without a null check.  For a CPort
  of 32 or more the access is out of bounds, for a smaller one the null interface is dereferenced.
\<close>

theorem unrouted_cport_faults:
  assumes "heap_documented z" and "wf_msg m" and "heap_room z (hdr_len + length (payload m))"
    and "ap_map_ok s" and "ap_route s cport = None"
  shows "main_process_complete_frame z mdns (le16 cport @ msg_bytes m @ rest) (length (payload m) + 10) ADDRESS_GREYBUS s =
    Inl (if 32 \<le> unat cport then OutOfBounds else NullDeref)"
proof -
  obtain blk w where a: "k_heap_alloc z (hdr_len + length (payload m)) (world s) = (Some blk, w)"
    by (rule heap_roomE [OF assms(3)])
  have "length (node_ap_map s) = 32" using assms(4) by (simp add: ap_map_ok_def AP_MAX_NODES_def)
  then show ?thesis
    using assms(5) greybus_frame_eq [OF assms(1,2) a, of cport rest]
    by (auto simp: main_process_complete_frame_def ap_rx_submit_def connection_send_def ap_route_def with_msg_def Let_def)
qed

theorem unrouted_cport_faults_witness:
  "main_process_complete_frame sample_zephyr False (le16 7 @ msg_bytes sample_msg @ []) (length (payload sample_msg) + 10)
      ADDRESS_GREYBUS sample_boot = Inl (if 32 \<le> unat (7 :: u16) then OutOfBounds else NullDeref) \<and>
   main_process_complete_frame sample_zephyr False (le16 40 @ msg_bytes sample_msg @ []) (length (payload sample_msg) + 10)
      ADDRESS_GREYBUS sample_boot = Inl (if 32 \<le> unat (40 :: u16) then OutOfBounds else NullDeref)"
proof (intro conjI)
qed (rule unrouted_cport_faults [OF sample_documented(2) _ sample_room fw_invD(4) [OF sample_boot_inv]];
  simp add: sample_msg_def wf_msg_def sent_msg_def hdr_len_def ap_route_def sample_boot_def boot_def AP_MAX_NODES_def
    empty_item_def)+

text \<open>
  C37. A Greybus frame whose body is shorter than a CPort number is not rejected: \<open>buffer_len - 2\<close> wraps, so
  the size check passes whatever size the bytes after the frame claim, and the firmware processes the
  message left in the receive buffer by an earlier frame exactly as if it had just arrived.
\<close>

theorem short_frame_replays_buffer:
  assumes "len < 2" and "wf_msg m"
  shows "hdlc_process_greybus_frame z (le16 cport @ msg_bytes m @ rest) len s =
    hdlc_process_greybus_frame z (le16 cport @ msg_bytes m @ rest) (length (payload m) + 10) s"
proof -
  have "buf_read (le16 cport @ msg_bytes m @ rest) 2 hdr_len = Inr (hdr_bytes (header m))"
    by (simp add: buf_read_def msg_bytes_def hdr_len_def)
  moreover have "size_sub len 2 = 2 ^ 32 + len - 2" by (rule size_sub_wraps) (use assms(1) in simp_all)
  then have "65536 \<le> size_sub len 2" by simp
  then have "\<not> size_sub len 2 < unat (hdr_size (header m))"
    using unat_u16_bound [of "hdr_size (header m)"] by linarith
  moreover have "\<not> size_sub (length (payload m) + 10) 2 < unat (hdr_size (header m))"
    using assms(2) wf_msg_size [OF assms(2)] by (simp add: wf_msg_def hdr_len_def size_sub_exact)
  ultimately show ?thesis by (simp add: hdlc_process_greybus_frame_def Let_def)
qed

theorem short_frame_replays_buffer_witness:
  "hdlc_process_greybus_frame sample_zephyr (le16 0 @ msg_bytes sample_msg @ []) 0 sample_fw =
    hdlc_process_greybus_frame sample_zephyr (le16 0 @ msg_bytes sample_msg @ []) (length (payload sample_msg) + 10) sample_fw"
  by (rule short_frame_replays_buffer) (simp_all add: sample_msg_def wf_msg_def sent_msg_def hdr_len_def)

end
